theory Spec2Isabelle
  imports Complex_Main "HOL-Library.Word" "HOL-Library.List_Lexorder" "HOL-Library.Multiset"
    "HOL-Library.Monad_Syntax"
begin

section \<open>JavaScript values\<close>

text \<open>
  A JavaScript string is a sequence of UTF-16 code units; every comparison, slice and
  regular-expression class of the sources works on code units.  Numbers are modelled as
  reals (the timestamps are \<^verbatim>\<open>Date.now() / 1000\<close>).  An optional or nullable
  property is an \<open>option\<close>: \<open>None\<close> stands for both \<^verbatim>\<open>undefined\<close> and
  \<^verbatim>\<open>null\<close>.
\<close>

type_synonym jschar = "16 word"
type_synonym jsstring = "jschar list"

definition js :: "string \<Rightarrow> jsstring" where
  \<comment> \<open>an ASCII literal as code units\<close>
  "js s = map (\<lambda>c. of_char c) s"

datatype json =
    JNull
  | JBool bool
  | JNum real
  | JStr jsstring
  | JArr "json list"
  | JObj "(jsstring \<times> json) list"

section \<open>Data model (types)\<close>

record agent =
  a_name :: jsstring
  a_system_prompt :: jsstring
  a_avatar_url :: "jsstring option"
  a_model :: "jsstring option"
  a_custom_params :: "(jsstring \<times> json) list option"
  a_base_url :: "jsstring option"
  a_api_key :: "jsstring option"
  a_stream :: "bool option"
  a_order :: "real option"

record session_summary =
  ss_id :: jsstring
  ss_name :: jsstring
  ss_global_prompt :: jsstring
  ss_created_at :: real
  ss_message_count :: nat
  ss_order :: "real option"

datatype transcript_item =
    UserItem (t_id: jsstring) (t_content: jsstring) (t_images: "jsstring list option")
  | AgentItem (t_id: jsstring) (t_speaker: jsstring) (t_content: jsstring)
      (t_images: "jsstring list option") (t_isStreaming: "bool option")
  | SystemItem (t_id: jsstring) (t_content: jsstring)

fun is_system :: "transcript_item \<Rightarrow> bool" where
  "is_system (SystemItem _ _) = True"
| "is_system _ = False"

fun item_with_id :: "jsstring \<Rightarrow> transcript_item \<Rightarrow> transcript_item" where
  \<comment> \<open>\<^verbatim>\<open>{ ...item, id }\<close>\<close>
  "item_with_id i (UserItem _ c im) = UserItem i c im"
| "item_with_id i (AgentItem _ sp c im st) = AgentItem i sp c im st"
| "item_with_id i (SystemItem _ c) = SystemItem i c"

section \<open>The persistent store (local-db)\<close>

datatype stored_message =
    StoredUser (m_id: jsstring) (m_content: jsstring) (m_images: "jsstring list option")
      (m_created_at: real)
  | StoredAgent (m_id: jsstring) (m_speaker: jsstring) (m_content: jsstring)
      (m_images: "jsstring list option") (m_created_at: real)
  | StoredSystem (m_id: jsstring) (m_content: jsstring) (m_created_at: real)

fun with_id :: "jsstring \<Rightarrow> stored_message \<Rightarrow> stored_message" where
  \<comment> \<open>\<^verbatim>\<open>{ ...m, id }\<close>\<close>
  "with_id i (StoredUser _ c im t) = StoredUser i c im t"
| "with_id i (StoredAgent _ sp c im t) = StoredAgent i sp c im t"
| "with_id i (StoredSystem _ c t) = StoredSystem i c t"

fun with_content :: "jsstring \<Rightarrow> stored_message \<Rightarrow> stored_message" where
  \<comment> \<open>\<^verbatim>\<open>{ ...msg, content }\<close>\<close>
  "with_content c (StoredUser i _ im t) = StoredUser i c im t"
| "with_content c (StoredAgent i sp _ im t) = StoredAgent i sp c im t"
| "with_content c (StoredSystem i _ t) = StoredSystem i c t"

text \<open>
  \<^verbatim>\<open>StoredSession\<close> declares the first six fields.  A stored object is an open
  JavaScript record, so it may carry further properties; \<open>s_order\<close> is the one the
  session summary type declares (\<^verbatim>\<open>order?: number\<close>).  Object spreads
  (\<^verbatim>\<open>{ ...session, ... }\<close>) keep it, object literals do not set it, and no function
  of the store reads it.
\<close>

record stored_session =
  s_id :: jsstring
  s_name :: jsstring
  s_global_prompt :: jsstring
  s_created_at :: real
  s_updated_at :: real
  s_messages :: "stored_message list"
  s_order :: "real option"

record export_bundle =
  b_app :: jsstring
  b_version :: real
  b_exported_at :: real
  b_agents :: "agent list"
  b_sessions :: "stored_session list"
  b_active_session_id :: "jsstring option"

datatype db_error = SessionNotFound | UnsupportedImportFile

subsection \<open>Object stores\<close>

text \<open>
  An IndexedDB object store with a key path holds at most one record per key and
  enumerates its records in ascending key order (strings compare by code units).
\<close>

type_synonym 'v object_store = "(jsstring \<times> 'v) list"

fun os_get :: "jsstring \<Rightarrow> 'v object_store \<Rightarrow> 'v option" where
  "os_get k [] = None"
| "os_get k ((k', v) # kvs) = (if k = k' then Some v else os_get k kvs)"

fun os_put :: "jsstring \<Rightarrow> 'v \<Rightarrow> 'v object_store \<Rightarrow> 'v object_store" where
  "os_put k v [] = [(k, v)]"
| "os_put k v ((k', v') # kvs) =
     (if k = k' then (k, v) # kvs
      else if k < k' then (k, v) # (k', v') # kvs
      else (k', v') # os_put k v kvs)"

fun os_delete :: "jsstring \<Rightarrow> 'v object_store \<Rightarrow> 'v object_store" where
  "os_delete k [] = []"
| "os_delete k ((k', v) # kvs) = (if k = k' then os_delete k kvs else (k', v) # os_delete k kvs)"

definition os_clear :: "'v object_store" where
  "os_clear = []"

definition os_getAll :: "'v object_store \<Rightarrow> 'v list" where
  "os_getAll kvs = map snd kvs"

subsection \<open>Environment and database state\<close>

text \<open>
  The program reads three things from its environment: fresh identifiers
  (\<^verbatim>\<open>crypto.randomUUID()\<close>), the wall clock, and the outcome of each chat-completion
  request.  Each is a sequence indexed by the number of reads made so far, which the state
  counts.  A completion either returns the full text or throws an \<^verbatim>\<open>Error\<close> object
  (the adapter throws nothing else); a streamed completion delivers its deltas before that.
\<close>

record js_error =
  err_name :: jsstring
  err_message :: jsstring

datatype llm_result = Returned jsstring | Threw js_error

record llm_outcome =
  o_deltas :: "jsstring list"
  o_result :: llm_result

record env =
  e_uuid :: "nat \<Rightarrow> jsstring"
  e_clock :: "nat \<Rightarrow> real"
  e_llm :: "nat \<Rightarrow> llm_outcome"

record world =
  w_ids :: nat
  w_clock :: nat
  w_agents :: "agent object_store"
  w_sessions :: "stored_session object_store"

definition db_newId :: "env \<Rightarrow> world \<Rightarrow> jsstring \<times> world" where
  "db_newId e w = (e_uuid e (w_ids w), w\<lparr>w_ids := Suc (w_ids w)\<rparr>)"

definition date_now :: "env \<Rightarrow> world \<Rightarrow> real \<times> world" where
  \<comment> \<open>\<^verbatim>\<open>Date.now() / 1000\<close>\<close>
  "date_now e w = (e_clock e (w_clock w), w\<lparr>w_clock := Suc (w_clock w)\<rparr>)"

definition put_session :: "stored_session \<Rightarrow> world \<Rightarrow> world" where
  \<comment> \<open>\<^verbatim>\<open>tx.objectStore("sessions").put(s)\<close>, key path \<^verbatim>\<open>id\<close>\<close>
  "put_session s w = w\<lparr>w_sessions := os_put (s_id s) s (w_sessions w)\<rparr>"

definition put_agent :: "agent \<Rightarrow> world \<Rightarrow> world" where
  \<comment> \<open>\<^verbatim>\<open>tx.objectStore("agents").put(a)\<close>, key path \<^verbatim>\<open>name\<close>\<close>
  "put_agent a w = w\<lparr>w_agents := os_put (a_name a) a (w_agents w)\<rparr>"

subsection \<open>Conversions\<close>

definition toSessionSummary :: "stored_session \<Rightarrow> session_summary" where
  "toSessionSummary session =
     \<lparr> ss_id = s_id session,
       ss_name = s_name session,
       ss_global_prompt = s_global_prompt session,
       ss_created_at = s_created_at session,
       ss_message_count = length (s_messages session),
       ss_order = None \<rparr>"

fun toStoredMessage :: "transcript_item \<Rightarrow> real \<Rightarrow> stored_message" where
  "toStoredMessage (UserItem i c im) created_at = StoredUser i c im created_at"
| "toStoredMessage (SystemItem i c) created_at = StoredSystem i c created_at"
| "toStoredMessage (AgentItem i sp c im st) created_at = StoredAgent i sp c im created_at"

fun findIndex :: "('a \<Rightarrow> bool) \<Rightarrow> 'a list \<Rightarrow> nat option" where
  \<comment> \<open>\<^verbatim>\<open>Array.prototype.findIndex\<close>; \<open>None\<close> is the result \<^verbatim>\<open>-1\<close>\<close>
  "findIndex P [] = None"
| "findIndex P (x # xs) = (if P x then Some 0 else map_option Suc (findIndex P xs))"

fun insort_cmp :: "('a \<Rightarrow> 'a \<Rightarrow> real) \<Rightarrow> 'a \<Rightarrow> 'a list \<Rightarrow> 'a list" where
  "insort_cmp cmp x [] = [x]"
| "insort_cmp cmp x (y # ys) = (if cmp x y \<le> 0 then x # y # ys else y # insort_cmp cmp x ys)"

definition js_sort :: "('a \<Rightarrow> 'a \<Rightarrow> real) \<Rightarrow> 'a list \<Rightarrow> 'a list" where
  \<comment> \<open>\<^verbatim>\<open>Array.prototype.sort(cmp)\<close>: a stable sort by the comparator\<close>
  "js_sort cmp xs = foldr (insort_cmp cmp) xs []"

subsection \<open>Operations\<close>

definition dbGetAgents :: "world \<Rightarrow> agent list" where
  "dbGetAgents w = os_getAll (w_agents w)"

definition dbSetAgents :: "agent list \<Rightarrow> world \<Rightarrow> world" where
  "dbSetAgents agents w = fold put_agent agents (w\<lparr>w_agents := os_clear\<rparr>)"

definition dbUpsertAgent :: "agent \<Rightarrow> world \<Rightarrow> world" where
  "dbUpsertAgent a w = put_agent a w"

definition dbDeleteAgent :: "jsstring \<Rightarrow> world \<Rightarrow> world" where
  "dbDeleteAgent name w = w\<lparr>w_agents := os_delete name (w_agents w)\<rparr>"

definition dbListSessions :: "world \<Rightarrow> session_summary list" where
  "dbListSessions w =
     map toSessionSummary
       (js_sort (\<lambda>a b. s_created_at b - s_created_at a) (os_getAll (w_sessions w)))"

definition dbSetSessions :: "stored_session list \<Rightarrow> world \<Rightarrow> world" where
  "dbSetSessions sessions w = fold put_session sessions (w\<lparr>w_sessions := os_clear\<rparr>)"

definition dbGetSession :: "jsstring \<Rightarrow> world \<Rightarrow> stored_session option" where
  "dbGetSession sessionId w = os_get sessionId (w_sessions w)"

definition dbCreateSession :: "env \<Rightarrow> jsstring \<Rightarrow> jsstring \<Rightarrow> world \<Rightarrow> session_summary \<times> world" where
  "dbCreateSession e name global_prompt w =
     (let (now, w1) = date_now e w;
          (sid, w2) = db_newId e w1;
          session = \<lparr> s_id = sid, s_name = name, s_global_prompt = global_prompt,
                      s_created_at = now, s_updated_at = now, s_messages = [],
                      s_order = None \<rparr>
      in (toSessionSummary session, put_session session w2))"

definition dbUpdateSession ::
  "env \<Rightarrow> jsstring \<Rightarrow> jsstring option \<Rightarrow> jsstring option \<Rightarrow> world \<Rightarrow> world" where
  "dbUpdateSession e sessionId upd_name upd_global_prompt w =
     (case dbGetSession sessionId w of
        None \<Rightarrow> w
      | Some session \<Rightarrow>
          (let (now, w1) = date_now e w;
               next = session\<lparr> s_name := (case upd_name of Some n \<Rightarrow> n | None \<Rightarrow> s_name session),
                               s_global_prompt := (case upd_global_prompt of Some g \<Rightarrow> g
                                                   | None \<Rightarrow> s_global_prompt session),
                               s_updated_at := now \<rparr>
           in put_session next w1))"

definition dbDeleteSession :: "jsstring \<Rightarrow> world \<Rightarrow> world" where
  "dbDeleteSession sessionId w = w\<lparr>w_sessions := os_delete sessionId (w_sessions w)\<rparr>"

definition dbAppendMessage ::
  "env \<Rightarrow> jsstring \<Rightarrow> transcript_item \<Rightarrow> world \<Rightarrow> (db_error + jsstring) \<times> world" where
  "dbAppendMessage e sessionId item w =
     (case dbGetSession sessionId w of
        None \<Rightarrow> (Inl SessionNotFound, w)
      | Some session \<Rightarrow>
          (let (created_at, w1) = date_now e w;
               (messageId, w2) = (if t_id item \<noteq> [] then (t_id item, w1) else db_newId e w1);
               storedItem = toStoredMessage (item_with_id messageId item) created_at;
               next = session\<lparr> s_updated_at := created_at,
                               s_messages := s_messages session @ [storedItem] \<rparr>
           in (Inr messageId, put_session next w2)))"

definition dbUpsertMessage ::
  "env \<Rightarrow> jsstring \<Rightarrow> transcript_item \<Rightarrow> world \<Rightarrow> (db_error + unit) \<times> world" where
  "dbUpsertMessage e sessionId item w =
     (case dbGetSession sessionId w of
        None \<Rightarrow> (Inl SessionNotFound, w)
      | Some session \<Rightarrow>
          (let idx = findIndex (\<lambda>m. m_id m = t_id item) (s_messages session);
               (created_at, w1) = (case idx of
                                     Some i \<Rightarrow> (m_created_at (s_messages session ! i), w)
                                   | None \<Rightarrow> date_now e w);
               stored = toStoredMessage item created_at;
               nextMessages = (case idx of
                                 Some i \<Rightarrow> (s_messages session)[i := stored]
                               | None \<Rightarrow> s_messages session @ [stored]);
               (now, w2) = date_now e w1;
               next = session\<lparr> s_updated_at := now, s_messages := nextMessages \<rparr>
           in (Inr (), put_session next w2)))"

definition dbUpdateMessageContent ::
  "env \<Rightarrow> jsstring \<Rightarrow> jsstring \<Rightarrow> jsstring \<Rightarrow> world \<Rightarrow> bool \<times> world" where
  "dbUpdateMessageContent e sessionId messageId content w =
     (case dbGetSession sessionId w of
        None \<Rightarrow> (False, w)
      | Some session \<Rightarrow>
          (case findIndex (\<lambda>m. m_id m = messageId) (s_messages session) of
             None \<Rightarrow> (False, w)
           | Some idx \<Rightarrow>
               (let msg = s_messages session ! idx;
                    nextMessages = (s_messages session)[idx := with_content content msg];
                    (now, w1) = date_now e w;
                    next = session\<lparr> s_updated_at := now, s_messages := nextMessages \<rparr>
                in (True, put_session next w1))))"

definition dbDeleteMessage :: "env \<Rightarrow> jsstring \<Rightarrow> jsstring \<Rightarrow> world \<Rightarrow> bool \<times> world" where
  "dbDeleteMessage e sessionId messageId w =
     (case dbGetSession sessionId w of
        None \<Rightarrow> (False, w)
      | Some session \<Rightarrow>
          (let nextMessages = filter (\<lambda>m. m_id m \<noteq> messageId) (s_messages session)
           in if length nextMessages = length (s_messages session) then (False, w)
              else (let (now, w1) = date_now e w;
                        next = session\<lparr> s_updated_at := now, s_messages := nextMessages \<rparr>
                    in (True, put_session next w1))))"

fun fork_messages :: "env \<Rightarrow> stored_message list \<Rightarrow> world \<Rightarrow> stored_message list \<times> world" where
  \<comment> \<open>\<^verbatim>\<open>.map((m) => ({ ...m, id: _newId() }))\<close>, one identifier drawn per message, in order\<close>
  "fork_messages e [] w = ([], w)"
| "fork_messages e (m # ms) w =
     (let (i, w1) = db_newId e w;
          (ms', w2) = fork_messages e ms w1
      in (with_id i m # ms', w2))"

definition fork_suffix :: jsstring where
  \<comment> \<open>the literal \<^verbatim>\<open>" (\<close>U+5206 U+652F\<^verbatim>\<open>)"\<close>\<close>
  "fork_suffix = [0x0020, 0x0028, 0x5206, 0x652F, 0x0029]"

definition dbForkSessionFromMessage ::
  "env \<Rightarrow> jsstring \<Rightarrow> jsstring \<Rightarrow> jsstring option \<Rightarrow> world \<Rightarrow> session_summary option \<times> world" where
  "dbForkSessionFromMessage e sourceSessionId messageId newName w =
     (case dbGetSession sourceSessionId w of
        None \<Rightarrow> (None, w)
      | Some source \<Rightarrow>
          (case findIndex (\<lambda>m. m_id m = messageId) (s_messages source) of
             None \<Rightarrow> (None, w)
           | Some idx \<Rightarrow>
               (let (now, w1) = date_now e w;
                    (sid, w2) = db_newId e w1;
                    (msgs, w3) = fork_messages e (take (idx + 1) (s_messages source)) w2;
                    forked = \<lparr> s_id = sid,
                               s_name = (case newName of
                                           Some n \<Rightarrow> if n \<noteq> [] then n else s_name source @ fork_suffix
                                         | None \<Rightarrow> s_name source @ fork_suffix),
                               s_global_prompt = s_global_prompt source,
                               s_created_at = now, s_updated_at = now,
                               s_messages = msgs, s_order = None \<rparr>
                in (Some (toSessionSummary forked), put_session forked w3))))"

definition dbExportBundle :: "env \<Rightarrow> jsstring option \<Rightarrow> world \<Rightarrow> export_bundle \<times> world" where
  "dbExportBundle e activeSessionId w =
     (let agents = os_getAll (w_agents w);
          sessions = os_getAll (w_sessions w);
          (now, w1) = date_now e w
      in (\<lparr> b_app = js ''agent-group'', b_version = 1, b_exported_at = now,
            b_agents = agents, b_sessions = sessions,
            b_active_session_id = activeSessionId \<rparr>, w1))"

definition dbImportBundle :: "export_bundle \<Rightarrow> world \<Rightarrow> (db_error + unit) \<times> world" where
  "dbImportBundle bundle w =
     (if b_app bundle \<noteq> js ''agent-group'' \<or> b_version bundle \<noteq> 1
      then (Inl UnsupportedImportFile, w)
      else (let w1 = w\<lparr>w_agents := os_clear\<rparr>;
                w2 = w1\<lparr>w_sessions := os_clear\<rparr>;
                w3 = fold put_agent (b_agents bundle) w2;
                w4 = fold put_session (b_sessions bundle) w3
            in (Inr (), w4)))"

section \<open>The LLM client adapter (llm)\<close>

datatype role = RoleSystem | RoleUser | RoleAssistant

datatype content_part = TextPart jsstring | ImageUrlPart jsstring

datatype message_content = Plain jsstring | Parts "content_part list"

record openai_chat_message =
  role :: role
  content :: message_content

definition is_js_space :: "jschar \<Rightarrow> bool" where
  \<comment> \<open>the code units \<^verbatim>\<open>String.prototype.trim\<close> strips: white space and line terminators\<close>
  "is_js_space c =
     ((0x0009 \<le> c \<and> c \<le> 0x000D) \<or> c = 0x0020 \<or> c = 0x00A0 \<or> c = 0x1680 \<or>
      (0x2000 \<le> c \<and> c \<le> 0x200A) \<or> c = 0x2028 \<or> c = 0x2029 \<or> c = 0x202F \<or>
      c = 0x205F \<or> c = 0x3000 \<or> c = 0xFEFF)"

definition js_trim :: "jsstring \<Rightarrow> jsstring" where
  "js_trim s = rev (dropWhile is_js_space (rev (dropWhile is_js_space s)))"

definition startsWith :: "jsstring \<Rightarrow> jsstring \<Rightarrow> bool" where
  \<comment> \<open>\<open>startsWith p s\<close> is \<^verbatim>\<open>s.startsWith(p)\<close>\<close>
  "startsWith p s = (take (length p) s = p)"

definition user_speaker :: jsstring where
  \<comment> \<open>the literal U+7528 U+6237\<close>
  "user_speaker = [0x7528, 0x6237]"

definition global_prompt_header :: jsstring where
  \<comment> \<open>the literal between the system prompt and the trimmed global prompt: two line feeds,
      a bracketed Chinese caption, a colon and a line feed\<close>
  "global_prompt_header =
     [0x000A, 0x000A, 0x005B, 0x5F53, 0x524D, 0x8BA8, 0x8BBA, 0x7EC4, 0x7684, 0x5168, 0x5C40,
      0x8BBE, 0x5B9A, 0x002F, 0x80CC, 0x666F, 0x005D, 0x003A, 0x000A]"

fun speakerForItem :: "transcript_item \<Rightarrow> jsstring" where
  "speakerForItem (UserItem _ _ _) = user_speaker"
| "speakerForItem (AgentItem _ sp _ _ _) = sp"
| "speakerForItem (SystemItem _ _) = js ''System''"

fun isTargetAgent :: "agent \<Rightarrow> transcript_item \<Rightarrow> bool" where
  "isTargetAgent targetAgent (AgentItem _ sp _ _ _) = (sp = a_name targetAgent)"
| "isTargetAgent targetAgent _ = False"

fun item_images :: "transcript_item \<Rightarrow> jsstring list option" where
  "item_images (UserItem _ _ im) = im"
| "item_images (AgentItem _ _ _ im _) = im"
| "item_images (SystemItem _ _) = None"

definition image_url :: "jsstring \<Rightarrow> jsstring" where
  "image_url img = (if startsWith (js ''data:'') img then img else js ''data:image/png;base64,'' @ img)"

definition history_entry :: "agent \<Rightarrow> transcript_item \<Rightarrow> openai_chat_message" where
  \<comment> \<open>the loop body of \<^verbatim>\<open>buildOpenAiMessages\<close> for an item that is not of kind system\<close>
  "history_entry targetAgent item =
     (let speaker = speakerForItem item;
          r = (if isTargetAgent targetAgent item then RoleAssistant else RoleUser);
          prefix = (if isTargetAgent targetAgent item then [] else js ''['' @ speaker @ js '']: '')
      in case item_images item of
           Some (img # imgs) \<Rightarrow>
             (let text = js_trim (t_content item)
              in \<lparr> role = r,
                   content = Parts ((if text \<noteq> [] then [TextPart (prefix @ text)] else []) @
                                    map (\<lambda>i. ImageUrlPart (image_url i)) (img # imgs)) \<rparr>)
         | _ \<Rightarrow> \<lparr> role = r, content = Plain (prefix @ t_content item) \<rparr>)"

fun history_entries :: "agent \<Rightarrow> transcript_item list \<Rightarrow> openai_chat_message list" where
  "history_entries targetAgent [] = []"
| "history_entries targetAgent (item # items) =
     (if is_system item then history_entries targetAgent items
      else history_entry targetAgent item # history_entries targetAgent items)"

definition systemContent :: "agent \<Rightarrow> jsstring option \<Rightarrow> jsstring" where
  "systemContent targetAgent globalPrompt =
     (case globalPrompt of
        None \<Rightarrow> a_system_prompt targetAgent
      | Some g \<Rightarrow>
          if g \<noteq> [] \<and> js_trim g \<noteq> []
          then a_system_prompt targetAgent @ global_prompt_header @ js_trim g
          else a_system_prompt targetAgent)"

definition buildOpenAiMessages ::
  "agent \<Rightarrow> jsstring option \<Rightarrow> transcript_item list \<Rightarrow> openai_chat_message list" where
  "buildOpenAiMessages targetAgent globalPrompt history =
     \<lparr> role = RoleSystem, content = Plain (systemContent targetAgent globalPrompt) \<rparr>
       # history_entries targetAgent history"

section \<open>The chat orchestrator (use-chat)\<close>

definition is_name_char :: "jschar \<Rightarrow> bool" where
  \<comment> \<open>the class of the mention pattern: word characters, the hyphen, and the code units
      U+4E00 to U+9FFF\<close>
  "is_name_char c =
     ((0x0030 \<le> c \<and> c \<le> 0x0039) \<or> (0x0041 \<le> c \<and> c \<le> 0x005A) \<or> c = 0x005F \<or>
      (0x0061 \<le> c \<and> c \<le> 0x007A) \<or> c = 0x002D \<or> (0x4E00 \<le> c \<and> c \<le> 0x9FFF))"

function mention_matches :: "jsstring \<Rightarrow> jsstring list" where
  \<comment> \<open>\<^verbatim>\<open>message.match(re)\<close> for the global pattern of an at sign followed by one or
      more name characters: the leftmost, longest, non-overlapping matches, each with its
      leading at sign\<close>
  "mention_matches [] = []"
| "mention_matches (c # cs) =
     (if c = 0x0040 \<and> takeWhile is_name_char cs \<noteq> []
      then (c # takeWhile is_name_char cs) # mention_matches (dropWhile is_name_char cs)
      else mention_matches cs)"
  by pat_completeness auto
termination
  by (relation "measure length") (auto simp: less_Suc_eq_le length_dropWhile_le)

fun mention_loop ::
  "jsstring set \<Rightarrow> jsstring list \<Rightarrow> jsstring list \<Rightarrow> jsstring set \<Rightarrow> jsstring list" where
  \<comment> \<open>the \<^verbatim>\<open>for (const raw of matches)\<close> loop with its two accumulators\<close>
  "mention_loop agentSet [] orderedUnique seen = orderedUnique"
| "mention_loop agentSet (raw # matches) orderedUnique seen =
     (let name = drop 1 raw
      in if name \<notin> agentSet then mention_loop agentSet matches orderedUnique seen
         else if name \<in> seen then mention_loop agentSet matches orderedUnique seen
         else mention_loop agentSet matches (orderedUnique @ [name]) (insert name seen))"

definition parseMentionedAgents :: "jsstring \<Rightarrow> agent list \<Rightarrow> jsstring list" where
  "parseMentionedAgents message agents =
     (let matches = mention_matches message
      in if matches = [] then []
         else mention_loop (set (map a_name agents)) matches [] {})"

definition toAbortErrorName :: "js_error \<Rightarrow> jsstring option" where
  "toAbortErrorName err = Some (err_name err)"

text \<open>
  The hook's inputs, read through refs: the active session id, the agent list, the
  session's global prompt, and \<^verbatim>\<open>transcriptRef.current\<close> as it is when the working
  history is built.
\<close>

record chat_props =
  p_activeSessionId :: "jsstring option"
  p_agents :: "agent list"
  p_globalPrompt :: "jsstring option"
  p_transcriptRef :: "transcript_item list"

record llm_request =
  q_agent :: agent
  q_messages :: "openai_chat_message list"

record chat_state =
  c_transcript :: "transcript_item list"
  c_isLoading :: bool
  c_controller :: bool
  c_requests :: "llm_request list"
  c_db :: world

datatype loop_exit = Finished | Aborted

definition newId :: "env \<Rightarrow> chat_state \<Rightarrow> jsstring \<times> chat_state" where
  "newId e st = (let (i, w) = db_newId e (c_db st) in (i, st\<lparr>c_db := w\<rparr>))"

definition image_placeholder :: jsstring where
  \<comment> \<open>the literal \<^verbatim>\<open>[\<close>U+56FE U+7247\<^verbatim>\<open>]\<close>\<close>
  "image_placeholder = [0x005B, 0x56FE, 0x7247, 0x005D]"

definition call_failed :: jsstring where
  \<comment> \<open>the literal \<^verbatim>\<open>[\<close>U+8C03 U+7528 U+5931 U+8D25\<^verbatim>\<open>]\<close> and a space\<close>
  "call_failed = [0x005B, 0x8C03, 0x7528, 0x5931, 0x8D25, 0x005D, 0x0020]"

definition user_content :: "jsstring \<Rightarrow> jsstring list \<Rightarrow> jsstring" where
  \<comment> \<open>\<^verbatim>\<open>message || (images.length > 0 ? "[..]" : "")\<close>\<close>
  "user_content message images =
     (if message \<noteq> [] then message else if length images > 0 then image_placeholder else [])"

fun append_delta :: "jsstring \<Rightarrow> jsstring \<Rightarrow> transcript_item \<Rightarrow> transcript_item" where
  \<comment> \<open>the \<^verbatim>\<open>onDelta\<close> update of one item\<close>
  "append_delta mid delta (AgentItem i sp c im st) =
     (if i = mid then AgentItem i sp (c @ delta) im st else AgentItem i sp c im st)"
| "append_delta mid delta item = item"

fun finalize :: "jsstring \<Rightarrow> jsstring \<Rightarrow> transcript_item \<Rightarrow> transcript_item" where
  \<comment> \<open>\<^verbatim>\<open>{ ...item, content: full, isStreaming: false }\<close> on the agent item with that id\<close>
  "finalize mid full (AgentItem i sp c im st) =
     (if i = mid then AgentItem i sp full im (Some False) else AgentItem i sp c im st)"
| "finalize mid full item = item"

definition llm_call ::
  "env \<Rightarrow> agent \<Rightarrow> openai_chat_message list \<Rightarrow> jsstring \<Rightarrow> chat_state \<Rightarrow> llm_result \<times> chat_state" where
  \<comment> \<open>\<^verbatim>\<open>openAiChatCompletion\<close> when \<^verbatim>\<open>agent.stream === false\<close>, else
      \<^verbatim>\<open>openAiChatCompletionStream\<close> with the \<^verbatim>\<open>onDelta\<close> callback\<close>
  "llm_call e agent messages agentMessageId st =
     (let out = e_llm e (length (c_requests st));
          st1 = st\<lparr>c_requests := c_requests st @ [\<lparr> q_agent = agent, q_messages = messages \<rparr>]\<rparr>
      in if a_stream agent = Some False then (o_result out, st1)
         else (o_result out,
               st1\<lparr>c_transcript :=
                     fold (\<lambda>delta prev. map (append_delta agentMessageId delta) prev)
                       (o_deltas out) (c_transcript st1)\<rparr>))"

fun agent_loop ::
  "env \<Rightarrow> chat_props \<Rightarrow> jsstring \<Rightarrow> agent list \<Rightarrow> jsstring list \<Rightarrow> transcript_item list \<Rightarrow>
   chat_state \<Rightarrow> loop_exit \<times> transcript_item list \<times> chat_state" where
  \<comment> \<open>the \<^verbatim>\<open>for (const agentName of mentioned)\<close> loop of \<^verbatim>\<open>sendMessage\<close>;
      \<open>Aborted\<close> is the rethrown \<^verbatim>\<open>AbortError\<close>.  The result is how the loop ended,
      with its local \<^verbatim>\<open>workingHistory\<close> and the state at that point\<close>
  "agent_loop e p sessionId currentAgents [] workingHistory st = (Finished, workingHistory, st)"
| "agent_loop e p sessionId currentAgents (agentName # mentioned) workingHistory st =
     (case find (\<lambda>a. a_name a = agentName) currentAgents of
        None \<Rightarrow> agent_loop e p sessionId currentAgents mentioned workingHistory st
      | Some agent \<Rightarrow>
          (let (agentMessageId, st1) = newId e st;
               st2 = st1\<lparr>c_transcript :=
                          c_transcript st1 @ [AgentItem agentMessageId agentName [] None (Some True)]\<rparr>;
               openAiMessages = buildOpenAiMessages agent (p_globalPrompt p) workingHistory;
               (res, st3) = llm_call e agent openAiMessages agentMessageId st2
           in if (case res of Threw err \<Rightarrow> toAbortErrorName err = Some (js ''AbortError'')
                  | Returned _ \<Rightarrow> False)
              then (Aborted, workingHistory, st3)
              else
                (let full = (case res of Returned txt \<Rightarrow> txt
                             | Threw err \<Rightarrow> call_failed @ err_message err);
                     st4 = st3\<lparr>c_transcript := map (finalize agentMessageId full) (c_transcript st3)\<rparr>;
                     st5 = st4\<lparr>c_db :=
                                snd (dbUpsertMessage e sessionId
                                       (AgentItem agentMessageId agentName full None None) (c_db st4))\<rparr>
                 in agent_loop e p sessionId currentAgents mentioned
                      (workingHistory @ [AgentItem agentMessageId agentName full None None]) st5)))"

definition sendMessage :: "env \<Rightarrow> chat_props \<Rightarrow> jsstring \<Rightarrow> jsstring list \<Rightarrow> chat_state \<Rightarrow> chat_state" where
  "sendMessage e p message images st =
     (case p_activeSessionId p of
        None \<Rightarrow> st
      | Some sessionId \<Rightarrow>
          if sessionId = [] then st
          else
            (let st0 = st\<lparr>c_controller := True\<rparr>;
                 (uid, st1) = newId e st0;
                 userItem = UserItem uid (user_content message images) (Some images);
                 st2 = st1\<lparr>c_transcript := c_transcript st1 @ [userItem]\<rparr>;
                 st3 = st2\<lparr>c_db := snd (dbAppendMessage e sessionId userItem (c_db st2))\<rparr>;
                 st4 = st3\<lparr>c_isLoading := True\<rparr>;
                 currentAgents = p_agents p;
                 mentioned = parseMentionedAgents message currentAgents;
                 st5 = (if mentioned = [] then st4
                        else (let workingHistory =
                                    filter (\<lambda>i. \<not> is_system i) (p_transcriptRef p @ [userItem])
                              in snd (snd (agent_loop e p sessionId currentAgents mentioned
                                             workingHistory st4))))
             in st5\<lparr>c_isLoading := False, c_controller := False\<rparr>))"

definition addMessageOnly ::
  "env \<Rightarrow> chat_props \<Rightarrow> jsstring \<Rightarrow> jsstring list \<Rightarrow> chat_state \<Rightarrow> jsstring option \<times> chat_state" where
  "addMessageOnly e p message images st =
     (case p_activeSessionId p of
        None \<Rightarrow> (None, st)
      | Some sessionId \<Rightarrow>
          if sessionId = [] then (None, st)
          else
            (let (uid, st1) = newId e st;
                 item = UserItem uid (user_content message images) (Some images);
                 st2 = st1\<lparr>c_transcript := c_transcript st1 @ [item]\<rparr>
             in case dbAppendMessage e sessionId item (c_db st2) of
                  (Inr _, w) \<Rightarrow> (Some (t_id item), st2\<lparr>c_db := w\<rparr>)
                | (Inl _, w) \<Rightarrow> (None, st2\<lparr>c_db := w\<rparr>)))"

section \<open>JSON texts\<close>

text \<open>
  \<^verbatim>\<open>JSON.stringify\<close> and \<^verbatim>\<open>JSON.parse\<close>, modelled from their specification
  (ECMA-262, the JSON object).  A JSON text is modelled by its sequence of lexemes.  A
  string literal and a number literal stand for the value they denote: the quoting and
  escaping of strings and the decimal spelling of numbers are not modelled, the
  specification's guarantee being that a literal written by \<^verbatim>\<open>JSON.stringify\<close> reads back
  as the same string and the same finite number.  White space is modelled: a line break
  followed by a number of spaces, and the single space after a colon.
\<close>

datatype json_token =
    TLBrace | TRBrace | TLBracket | TRBracket | TColon | TComma
  | TString jsstring | TNumber real | TTrue | TFalse | TNull
  | TNewline nat | TSpace

type_synonym json_text = "json_token list"

fun join :: "'a list \<Rightarrow> 'a list list \<Rightarrow> 'a list" where
  \<comment> \<open>the parts, with the separator between each two\<close>
  "join sep [] = []"
| "join sep [x] = x"
| "join sep (x # y # ys) = x @ sep @ join sep (y # ys)"

fun stringify :: "nat \<Rightarrow> json \<Rightarrow> json_text" where
  \<comment> \<open>\<^verbatim>\<open>SerializeJSONProperty\<close> with the gap of two spaces, at the given indentation:
      an empty array or object is written without white space, the elements of any other
      each on a line of its own, indented two further\<close>
  "stringify i JNull = [TNull]"
| "stringify i (JBool b) = [if b then TTrue else TFalse]"
| "stringify i (JNum x) = [TNumber x]"
| "stringify i (JStr s) = [TString s]"
| "stringify i (JArr vs) =
     (if vs = [] then [TLBracket, TRBracket]
      else [TLBracket, TNewline (i + 2)] @
           join [TComma, TNewline (i + 2)] (map (stringify (i + 2)) vs) @
           [TNewline i, TRBracket])"
| "stringify i (JObj kvs) =
     (if kvs = [] then [TLBrace, TRBrace]
      else [TLBrace, TNewline (i + 2)] @
           join [TComma, TNewline (i + 2)]
             (map (\<lambda>kv. [TString (fst kv), TColon, TSpace] @ stringify (i + 2) (snd kv)) kvs) @
           [TNewline i, TRBrace])"

definition JSON_stringify :: "json \<Rightarrow> json_text" where
  \<comment> \<open>\<^verbatim>\<open>JSON.stringify(value, null, 2)\<close>\<close>
  "JSON_stringify v = stringify 0 v"

fun skip_ws :: "json_text \<Rightarrow> json_text" where
  "skip_ws (TNewline n # ts) = skip_ws ts"
| "skip_ws (TSpace # ts) = skip_ws ts"
| "skip_ws ts = ts"

fun obj_put :: "jsstring \<Rightarrow> 'v \<Rightarrow> (jsstring \<times> 'v) list \<Rightarrow> (jsstring \<times> 'v) list" where
  \<comment> \<open>defining a property: a new key goes last, an existing key keeps its place and takes
      the new value\<close>
  "obj_put k v [] = [(k, v)]"
| "obj_put k v ((k', v') # kvs) = (if k = k' then (k, v) # kvs else (k', v') # obj_put k v kvs)"

definition obj_of_members :: "(jsstring \<times> json) list \<Rightarrow> (jsstring \<times> json) list" where
  \<comment> \<open>the object of a member list: of two members with the same name the later one wins\<close>
  "obj_of_members kvs = fold (\<lambda>kv. obj_put (fst kv) (snd kv)) kvs []"

text \<open>
  The parser, by recursive descent.  Its first argument bounds the number of nested calls;
  \<open>JSON_parse\<close> passes the length of the text and one more, every call but the first
  being made after a lexeme was consumed.  The result is the value and the rest of the
  text.  Of two members of an object with the same name the later one wins.
\<close>

fun parse_value :: "nat \<Rightarrow> json_text \<Rightarrow> (json \<times> json_text) option"
  and parse_elements :: "nat \<Rightarrow> json_text \<Rightarrow> (json list \<times> json_text) option"
  and parse_members :: "nat \<Rightarrow> json_text \<Rightarrow> ((jsstring \<times> json) list \<times> json_text) option" where
  "parse_value 0 ts = None"
| "parse_value (Suc n) ts =
     (case skip_ws ts of
        TNull # r \<Rightarrow> Some (JNull, r)
      | TTrue # r \<Rightarrow> Some (JBool True, r)
      | TFalse # r \<Rightarrow> Some (JBool False, r)
      | TNumber x # r \<Rightarrow> Some (JNum x, r)
      | TString s # r \<Rightarrow> Some (JStr s, r)
      | TLBracket # r \<Rightarrow>
          (case skip_ws r of
             TRBracket # r' \<Rightarrow> Some (JArr [], r')
           | _ \<Rightarrow> (case parse_elements n r of
                      Some (vs, r') \<Rightarrow> Some (JArr vs, r')
                    | None \<Rightarrow> None))
      | TLBrace # r \<Rightarrow>
          (case skip_ws r of
             TRBrace # r' \<Rightarrow> Some (JObj [], r')
           | _ \<Rightarrow> (case parse_members n r of
                      Some (kvs, r') \<Rightarrow> Some (JObj (obj_of_members kvs), r')
                    | None \<Rightarrow> None))
      | _ \<Rightarrow> None)"
| "parse_elements 0 ts = None"
| "parse_elements (Suc n) ts =
     (case parse_value n ts of
        None \<Rightarrow> None
      | Some (v, r) \<Rightarrow>
          (case skip_ws r of
             TComma # r' \<Rightarrow> (case parse_elements n r' of
                               Some (vs, r'') \<Rightarrow> Some (v # vs, r'')
                             | None \<Rightarrow> None)
           | TRBracket # r' \<Rightarrow> Some ([v], r')
           | _ \<Rightarrow> None))"
| "parse_members 0 ts = None"
| "parse_members (Suc n) ts =
     (case skip_ws ts of
        TString k # r \<Rightarrow>
          (case skip_ws r of
             TColon # r1 \<Rightarrow>
               (case parse_value n r1 of
                  None \<Rightarrow> None
                | Some (v, r2) \<Rightarrow>
                    (case skip_ws r2 of
                       TComma # r3 \<Rightarrow> (case parse_members n r3 of
                                         Some (kvs, r4) \<Rightarrow> Some ((k, v) # kvs, r4)
                                       | None \<Rightarrow> None)
                     | TRBrace # r3 \<Rightarrow> Some ([(k, v)], r3)
                     | _ \<Rightarrow> None))
           | _ \<Rightarrow> None)
      | _ \<Rightarrow> None)"

definition JSON_parse :: "json_text \<Rightarrow> json option" where
  \<comment> \<open>\<^verbatim>\<open>JSON.parse(text)\<close>; \<open>None\<close> is the thrown \<^verbatim>\<open>SyntaxError\<close>\<close>
  "JSON_parse text =
     (case parse_value (Suc (length text)) text of
        Some (v, r) \<Rightarrow> if skip_ws r = [] then Some v else None
      | None \<Rightarrow> None)"

text \<open>
  The values that are JavaScript objects and arrays of such: the property names of an
  object are distinct.
\<close>

fun json_wf :: "json \<Rightarrow> bool" where
  "json_wf (JArr vs) = list_all json_wf vs"
| "json_wf (JObj kvs) = (distinct (map fst kvs) \<and> list_all (\<lambda>kv. json_wf (snd kv)) kvs)"
| "json_wf _ = True"

section \<open>The backup codec (backup)\<close>

subsection \<open>The bundle as a JSON value\<close>

text \<open>
  What \<^verbatim>\<open>JSON.stringify\<close> sees of the bundle object: for each object its properties in
  creation order, a property whose value is \<^verbatim>\<open>undefined\<close> left out.  An optional
  property is written when it has a value; \<^verbatim>\<open>active_session_id\<close>, which is a string or
  \<^verbatim>\<open>null\<close>, is always written.
\<close>

definition obj_props :: "(jsstring \<times> json option) list \<Rightarrow> (jsstring \<times> json) list" where
  "obj_props kvs = concat (map (\<lambda>kv. case snd kv of None \<Rightarrow> [] | Some x \<Rightarrow> [(fst kv, x)]) kvs)"

definition json_of_strings :: "jsstring list \<Rightarrow> json" where
  "json_of_strings xs = JArr (map JStr xs)"

fun json_of_message :: "stored_message \<Rightarrow> json" where
  "json_of_message (StoredUser i c im t) =
     JObj (obj_props [(js ''id'', Some (JStr i)), (js ''kind'', Some (JStr (js ''user''))),
                      (js ''content'', Some (JStr c)),
                      (js ''images'', map_option json_of_strings im),
                      (js ''created_at'', Some (JNum t))])"
| "json_of_message (StoredAgent i sp c im t) =
     JObj (obj_props [(js ''id'', Some (JStr i)), (js ''kind'', Some (JStr (js ''agent''))),
                      (js ''speaker'', Some (JStr sp)), (js ''content'', Some (JStr c)),
                      (js ''images'', map_option json_of_strings im),
                      (js ''created_at'', Some (JNum t))])"
| "json_of_message (StoredSystem i c t) =
     JObj (obj_props [(js ''id'', Some (JStr i)), (js ''kind'', Some (JStr (js ''system''))),
                      (js ''content'', Some (JStr c)), (js ''created_at'', Some (JNum t))])"

definition json_of_session :: "stored_session \<Rightarrow> json" where
  "json_of_session s =
     JObj (obj_props [(js ''id'', Some (JStr (s_id s))), (js ''name'', Some (JStr (s_name s))),
                      (js ''global_prompt'', Some (JStr (s_global_prompt s))),
                      (js ''created_at'', Some (JNum (s_created_at s))),
                      (js ''updated_at'', Some (JNum (s_updated_at s))),
                      (js ''messages'', Some (JArr (map json_of_message (s_messages s)))),
                      (js ''order'', map_option JNum (s_order s))])"

definition json_of_agent :: "agent \<Rightarrow> json" where
  "json_of_agent a =
     JObj (obj_props [(js ''name'', Some (JStr (a_name a))),
                      (js ''system_prompt'', Some (JStr (a_system_prompt a))),
                      (js ''avatar_url'', map_option JStr (a_avatar_url a)),
                      (js ''model'', map_option JStr (a_model a)),
                      (js ''custom_params'', map_option JObj (a_custom_params a)),
                      (js ''base_url'', map_option JStr (a_base_url a)),
                      (js ''api_key'', map_option JStr (a_api_key a)),
                      (js ''stream'', map_option JBool (a_stream a)),
                      (js ''order'', map_option JNum (a_order a))])"

definition json_of_bundle :: "export_bundle \<Rightarrow> json" where
  "json_of_bundle b =
     JObj (obj_props [(js ''app'', Some (JStr (b_app b))),
                      (js ''version'', Some (JNum (b_version b))),
                      (js ''exported_at'', Some (JNum (b_exported_at b))),
                      (js ''agents'', Some (JArr (map json_of_agent (b_agents b)))),
                      (js ''sessions'', Some (JArr (map json_of_session (b_sessions b)))),
                      (js ''active_session_id'',
                         Some (case b_active_session_id b of None \<Rightarrow> JNull | Some s \<Rightarrow> JStr s))])"

text \<open>
  The other direction is the cast \<^verbatim>\<open>JSON.parse(text) as ExportBundleV1\<close>: the parsed
  value read as a bundle.  The cast itself checks nothing; here a value that is not of the
  bundle's type has no reading.  A property that is absent and one that is \<^verbatim>\<open>null\<close>
  both read as \<open>None\<close>.
\<close>

definition get :: "jsstring \<Rightarrow> (jsstring \<times> json) list \<Rightarrow> json option" where
  \<comment> \<open>reading a property; \<open>None\<close> is \<^verbatim>\<open>undefined\<close>\<close>
  "get k kvs = map_of kvs k"

fun as_string :: "json option \<Rightarrow> jsstring option" where
  "as_string (Some (JStr s)) = Some s"
| "as_string _ = None"

fun as_number :: "json option \<Rightarrow> real option" where
  "as_number (Some (JNum x)) = Some x"
| "as_number _ = None"

fun as_array :: "json option \<Rightarrow> json list option" where
  "as_array (Some (JArr vs)) = Some vs"
| "as_array _ = None"

fun optional :: "(json option \<Rightarrow> 'a option) \<Rightarrow> json option \<Rightarrow> 'a option option" where
  "optional f None = Some None"
| "optional f (Some JNull) = Some None"
| "optional f (Some v) = map_option Some (f (Some v))"

fun as_bool :: "json option \<Rightarrow> bool option" where
  "as_bool (Some (JBool b)) = Some b"
| "as_bool _ = None"

fun as_object :: "json option \<Rightarrow> (jsstring \<times> json) list option" where
  "as_object (Some (JObj kvs)) = Some kvs"
| "as_object _ = None"

fun as_strings :: "json option \<Rightarrow> jsstring list option" where
  "as_strings (Some (JArr vs)) = those (map (\<lambda>v. as_string (Some v)) vs)"
| "as_strings _ = None"

fun message_of_json :: "json \<Rightarrow> stored_message option" where
  "message_of_json (JObj kvs) =
     (case as_string (get (js ''kind'') kvs) of
        None \<Rightarrow> None
      | Some kind \<Rightarrow>
          if kind = js ''user'' then
            do { i \<leftarrow> as_string (get (js ''id'') kvs);
                 c \<leftarrow> as_string (get (js ''content'') kvs);
                 im \<leftarrow> optional as_strings (get (js ''images'') kvs);
                 t \<leftarrow> as_number (get (js ''created_at'') kvs);
                 Some (StoredUser i c im t) }
          else if kind = js ''agent'' then
            do { i \<leftarrow> as_string (get (js ''id'') kvs);
                 sp \<leftarrow> as_string (get (js ''speaker'') kvs);
                 c \<leftarrow> as_string (get (js ''content'') kvs);
                 im \<leftarrow> optional as_strings (get (js ''images'') kvs);
                 t \<leftarrow> as_number (get (js ''created_at'') kvs);
                 Some (StoredAgent i sp c im t) }
          else if kind = js ''system'' then
            do { i \<leftarrow> as_string (get (js ''id'') kvs);
                 c \<leftarrow> as_string (get (js ''content'') kvs);
                 t \<leftarrow> as_number (get (js ''created_at'') kvs);
                 Some (StoredSystem i c t) }
          else None)"
| "message_of_json _ = None"

fun session_of_json :: "json \<Rightarrow> stored_session option" where
  "session_of_json (JObj kvs) =
     do { i \<leftarrow> as_string (get (js ''id'') kvs);
          n \<leftarrow> as_string (get (js ''name'') kvs);
          g \<leftarrow> as_string (get (js ''global_prompt'') kvs);
          c \<leftarrow> as_number (get (js ''created_at'') kvs);
          u \<leftarrow> as_number (get (js ''updated_at'') kvs);
          ms \<leftarrow> as_array (get (js ''messages'') kvs);
          msgs \<leftarrow> those (map message_of_json ms);
          ord \<leftarrow> optional as_number (get (js ''order'') kvs);
          Some \<lparr> s_id = i, s_name = n, s_global_prompt = g, s_created_at = c, s_updated_at = u,
                 s_messages = msgs, s_order = ord \<rparr> }"
| "session_of_json _ = None"

fun agent_of_json :: "json \<Rightarrow> agent option" where
  "agent_of_json (JObj kvs) =
     do { n \<leftarrow> as_string (get (js ''name'') kvs);
          sp \<leftarrow> as_string (get (js ''system_prompt'') kvs);
          av \<leftarrow> optional as_string (get (js ''avatar_url'') kvs);
          mo \<leftarrow> optional as_string (get (js ''model'') kvs);
          cp \<leftarrow> optional as_object (get (js ''custom_params'') kvs);
          bu \<leftarrow> optional as_string (get (js ''base_url'') kvs);
          ak \<leftarrow> optional as_string (get (js ''api_key'') kvs);
          st \<leftarrow> optional as_bool (get (js ''stream'') kvs);
          ord \<leftarrow> optional as_number (get (js ''order'') kvs);
          Some \<lparr> a_name = n, a_system_prompt = sp, a_avatar_url = av, a_model = mo,
                 a_custom_params = cp, a_base_url = bu, a_api_key = ak, a_stream = st,
                 a_order = ord \<rparr> }"
| "agent_of_json _ = None"

fun bundle_of_json :: "json \<Rightarrow> export_bundle option" where
  "bundle_of_json (JObj kvs) =
     do { app \<leftarrow> as_string (get (js ''app'') kvs);
          ver \<leftarrow> as_number (get (js ''version'') kvs);
          ex \<leftarrow> as_number (get (js ''exported_at'') kvs);
          ags \<leftarrow> as_array (get (js ''agents'') kvs);
          agents \<leftarrow> those (map agent_of_json ags);
          ss \<leftarrow> as_array (get (js ''sessions'') kvs);
          sessions \<leftarrow> those (map session_of_json ss);
          act \<leftarrow> optional as_string (get (js ''active_session_id'') kvs);
          Some \<lparr> b_app = app, b_version = ver, b_exported_at = ex, b_agents = agents,
                 b_sessions = sessions, b_active_session_id = act \<rparr> }"
| "bundle_of_json _ = None"

subsection \<open>Bytes, blobs and archives\<close>

text \<open>
  The contents of a file, a blob or a byte array, modelled from the documentation of the
  encodings rather than bit by bit: they are the UTF-8 bytes of a text, or a zip archive of
  named entries, or other bytes.  \<^verbatim>\<open>strToU8\<close> and \<^verbatim>\<open>new Blob([text])\<close> encode a
  text, \<^verbatim>\<open>strFromU8\<close> and \<^verbatim>\<open>file.text()\<close> decode one; decoding bytes that are not
  the encoding of a JSON text gives a string that is no JSON text, for which the empty
  text stands.  \<^verbatim>\<open>zipSync\<close> makes the archive of the given files and \<^verbatim>\<open>unzipSync\<close>
  returns the files of an archive as an object, so that of two entries with the same name
  the later one wins, and throws on bytes that are no archive.
\<close>

datatype file_data =
    TextData json_text
  | ZipData "(jsstring \<times> file_data) list"
  | OtherData

record js_file =
  f_name :: jsstring
  f_data :: file_data

definition strToU8 :: "json_text \<Rightarrow> file_data" where
  "strToU8 text = TextData text"

fun strFromU8 :: "file_data \<Rightarrow> json_text" where
  "strFromU8 (TextData text) = text"
| "strFromU8 _ = []"

definition blob_of_text :: "json_text \<Rightarrow> file_data" where
  \<comment> \<open>\<^verbatim>\<open>new Blob([text])\<close>\<close>
  "blob_of_text text = TextData text"

definition file_text :: "js_file \<Rightarrow> json_text" where
  \<comment> \<open>\<^verbatim>\<open>await file.text()\<close>\<close>
  "file_text f = strFromU8 (f_data f)"

definition zipSync :: "(jsstring \<times> file_data) list \<Rightarrow> file_data" where
  "zipSync files = ZipData files"

fun unzipSync :: "file_data \<Rightarrow> (jsstring \<times> file_data) list option" where
  \<comment> \<open>\<open>None\<close> is the thrown error\<close>
  "unzipSync (ZipData entries) = Some (fold (\<lambda>kv. obj_put (fst kv) (snd kv)) entries [])"
| "unzipSync _ = None"

definition toLowerCase :: "jsstring \<Rightarrow> jsstring" where
  \<comment> \<open>\<^verbatim>\<open>String.prototype.toLowerCase\<close> on the letters A to Z; the other code units are
      kept, which is enough to decide a suffix of ASCII letters\<close>
  "toLowerCase s = map (\<lambda>c. if 0x0041 \<le> c \<and> c \<le> 0x005A then c + 0x0020 else c) s"

definition endsWith :: "jsstring \<Rightarrow> jsstring \<Rightarrow> bool" where
  \<comment> \<open>\<open>endsWith p s\<close> is \<^verbatim>\<open>s.endsWith(p)\<close>\<close>
  "endsWith p s = (length p \<le> length s \<and> drop (length s - length p) s = p)"

subsection \<open>Export and import\<close>

datatype import_error =
    InvalidZip
  | ExportJsonNotFound
  | JsonSyntaxError
  | NotABundle
  | Rejected db_error

definition bundle_text :: "export_bundle \<Rightarrow> json_text" where
  \<comment> \<open>\<^verbatim>\<open>JSON.stringify(bundle, null, 2)\<close>\<close>
  "bundle_text bundle = JSON_stringify (json_of_bundle bundle)"

definition zip_of_bundle :: "export_bundle \<Rightarrow> file_data" where
  \<comment> \<open>the blob that \<^verbatim>\<open>exportAsZip\<close> makes of the bundle\<close>
  "zip_of_bundle bundle = zipSync [(js ''export.json'', strToU8 (bundle_text bundle))]"

definition json_of_bundle_blob :: "export_bundle \<Rightarrow> file_data" where
  \<comment> \<open>the blob that \<^verbatim>\<open>exportAsJson\<close> makes of the bundle\<close>
  "json_of_bundle_blob bundle = blob_of_text (bundle_text bundle)"



definition pickExportJson :: "(jsstring \<times> file_data) list \<Rightarrow> file_data option" where
  "pickExportJson files =
     (case map_of files (js ''export.json'') of
        Some f \<Rightarrow> Some f
      | None \<Rightarrow>
          (let jsonKeys = filter (\<lambda>k. endsWith (js ''.json'') (toLowerCase k)) (map fst files)
           in if length jsonKeys = 1 then map_of files (jsonKeys ! 0) else None))"

definition parse_bundle :: "json_text \<Rightarrow> import_error + export_bundle" where
  \<comment> \<open>\<^verbatim>\<open>JSON.parse(text) as ExportBundleV1\<close>\<close>
  "parse_bundle text =
     (case JSON_parse text of
        None \<Rightarrow> Inl JsonSyntaxError
      | Some v \<Rightarrow> (case bundle_of_json v of None \<Rightarrow> Inl NotABundle | Some b \<Rightarrow> Inr b))"

definition import_parsed :: "export_bundle \<Rightarrow> world \<Rightarrow> (import_error + export_bundle) \<times> world" where
  \<comment> \<open>\<^verbatim>\<open>await dbImportBundle(parsed); return parsed;\<close>\<close>
  "import_parsed parsed w =
     (case dbImportBundle parsed w of
        (Inl err, w') \<Rightarrow> (Inl (Rejected err), w')
      | (Inr _, w') \<Rightarrow> (Inr parsed, w'))"

definition importFromZip :: "js_file \<Rightarrow> world \<Rightarrow> (import_error + export_bundle) \<times> world" where
  "importFromZip f w =
     (case unzipSync (f_data f) of
        None \<Rightarrow> (Inl InvalidZip, w)
      | Some files \<Rightarrow>
          (case pickExportJson files of
             None \<Rightarrow> (Inl ExportJsonNotFound, w)
           | Some jsonFile \<Rightarrow>
               (case parse_bundle (strFromU8 jsonFile) of
                  Inl err \<Rightarrow> (Inl err, w)
                | Inr parsed \<Rightarrow> import_parsed parsed w)))"

definition importFromJson :: "js_file \<Rightarrow> world \<Rightarrow> (import_error + export_bundle) \<times> world" where
  "importFromJson f w =
     (case parse_bundle (file_text f) of
        Inl err \<Rightarrow> (Inl err, w)
      | Inr parsed \<Rightarrow> import_parsed parsed w)"

definition importFromFile :: "js_file \<Rightarrow> world \<Rightarrow> (import_error + export_bundle) \<times> world" where
  "importFromFile f w =
     (if endsWith (js ''.json'') (toLowerCase (f_name f)) then importFromJson f w
      else importFromZip f w)"

section \<open>Notions used in the statements\<close>

subsection \<open>The forked record\<close>

text \<open>
  The record that \<^verbatim>\<open>dbForkSessionFromMessage\<close> builds when the message is found at
  index \<open>k\<close>, written out: the clock is read once, then one identifier is drawn for the
  session and one for each copied message.
\<close>

definition forked_session :: "env \<Rightarrow> stored_session \<Rightarrow> nat \<Rightarrow> jsstring option \<Rightarrow> world \<Rightarrow> stored_session" where
  "forked_session e S k newName w =
     \<lparr> s_id = e_uuid e (w_ids w),
       s_name = (case newName of Some n \<Rightarrow> if n \<noteq> [] then n else s_name S @ fork_suffix
                 | None \<Rightarrow> s_name S @ fork_suffix),
       s_global_prompt = s_global_prompt S,
       s_created_at = e_clock e (w_clock w), s_updated_at = e_clock e (w_clock w),
       s_messages = fst (fork_messages e (take (k + 1) (s_messages S)) (w\<lparr>w_clock := Suc (w_clock w), w_ids := Suc (w_ids w)\<rparr>)),
       s_order = None \<rparr>"

subsection \<open>Listing by order, as specified\<close>

text \<open>
  The ordering that the specification describes for sessions carrying an order field, read
  off the stored sessions behind a listing (the summaries themselves never carry the field).
\<close>

definition order_of :: "world \<Rightarrow> jsstring \<Rightarrow> real option" where
  "order_of w sid = (case dbGetSession sid w of Some s \<Rightarrow> s_order s | None \<Rightarrow> None)"

definition listed_ascending_by_order :: "world \<Rightarrow> session_summary list \<Rightarrow> bool" where
  "listed_ascending_by_order w xs =
     sorted_wrt (\<lambda>a b. case (order_of w (ss_id a), order_of w (ss_id b)) of
                          (Some x, Some y) \<Rightarrow> x \<le> y
                        | _ \<Rightarrow> True) xs"

subsection \<open>The store as a state machine\<close>

text \<open>
  The operations that create or rewrite a session record, as commands; \<open>apply_op\<close> runs one
  against the database state and drops its return value.
\<close>

datatype store_op =
    CreateSession jsstring jsstring
  | UpdateSession jsstring "jsstring option" "jsstring option"
  | AppendMessage jsstring transcript_item
  | UpsertMessage jsstring transcript_item
  | UpdateMessageContent jsstring jsstring jsstring
  | DeleteMessage jsstring jsstring
  | ForkSession jsstring jsstring "jsstring option"

fun apply_op :: "env \<Rightarrow> store_op \<Rightarrow> world \<Rightarrow> world" where
  "apply_op e (CreateSession name global_prompt) w = snd (dbCreateSession e name global_prompt w)"
| "apply_op e (UpdateSession sid upd_name upd_prompt) w = dbUpdateSession e sid upd_name upd_prompt w"
| "apply_op e (AppendMessage sid item) w = snd (dbAppendMessage e sid item w)"
| "apply_op e (UpsertMessage sid item) w = snd (dbUpsertMessage e sid item w)"
| "apply_op e (UpdateMessageContent sid mid c) w = snd (dbUpdateMessageContent e sid mid c w)"
| "apply_op e (DeleteMessage sid mid) w = snd (dbDeleteMessage e sid mid w)"
| "apply_op e (ForkSession sid mid newName) w = snd (dbForkSessionFromMessage e sid mid newName w)"

text \<open>
  \<open>stored w\<close> is the set of session records in the store.  A record is \<open>stamped\<close> by an
  operation started in state \<open>w\<close> when its \<open>updated_at\<close> is a clock reading taken during
  the operation and its \<open>created_at\<close> is either the operation's first clock reading or the
  \<open>created_at\<close> of a record stored before.
\<close>

definition stored :: "world \<Rightarrow> stored_session set" where
  "stored w = set (os_getAll (w_sessions w))"

definition stamped :: "env \<Rightarrow> world \<Rightarrow> stored_session \<Rightarrow> bool" where
  "stamped e w s' \<longleftrightarrow>
     (\<exists>n\<ge>w_clock w. s_updated_at s' = e_clock e n) \<and>
     (s_created_at s' = e_clock e (w_clock w) \<or> (\<exists>s\<in>stored w. s_created_at s' = s_created_at s))"

text \<open>
  The invariant carried through a run: no record is updated before it was created, and no
  record was created after the next clock reading.
\<close>

definition timestamps_ok :: "env \<Rightarrow> world \<Rightarrow> bool" where
  "timestamps_ok e w \<longleftrightarrow>
     (\<forall>s\<in>stored w. s_created_at s \<le> s_updated_at s \<and> s_created_at s \<le> e_clock e (w_clock w))"

subsection \<open>Mentions, as specified\<close>

text \<open>
  The specification's reading of mention extraction: the tokens are the matches without
  their at sign; the result keeps the tokens that name a known agent and, of equal names,
  the first occurrence.
\<close>

fun keep_first :: "'a list \<Rightarrow> 'a list" where
  "keep_first [] = []"
| "keep_first (x # xs) = x # keep_first (filter (\<lambda>y. y \<noteq> x) xs)"

definition mention_tokens :: "jsstring \<Rightarrow> jsstring list" where
  "mention_tokens message = map (drop 1) (mention_matches message)"

subsection \<open>The transcript during a completion\<close>

text \<open>
  What a completion leaves in the transcript before it returns or throws: a streamed
  completion has appended its deltas to the agent item with the placeholder's id, a
  blocking one has changed nothing.
\<close>

definition partial_text :: "agent \<Rightarrow> llm_outcome \<Rightarrow> jsstring" where
  "partial_text agent out = (if a_stream agent = Some False then [] else concat (o_deltas out))"

definition during_call :: "agent \<Rightarrow> llm_outcome \<Rightarrow> jsstring \<Rightarrow> transcript_item list \<Rightarrow> transcript_item list" where
  "during_call agent out mid T =
     (if a_stream agent = Some False then T else map (fold (append_delta mid) (o_deltas out)) T)"

subsection \<open>A submission before its first agent call\<close>

text \<open>
  The user item that \<^verbatim>\<open>sendMessage\<close> builds, and the state in which the loop over the
  mentioned agents starts: the user item appended to the transcript and persisted, the
  abort controller installed and the loading flag set.
\<close>

definition submitted_item :: "env \<Rightarrow> jsstring \<Rightarrow> jsstring list \<Rightarrow> chat_state \<Rightarrow> transcript_item" where
  "submitted_item e message images st =
     UserItem (e_uuid e (w_ids (c_db st))) (user_content message images) (Some images)"

definition submitted :: "env \<Rightarrow> jsstring \<Rightarrow> jsstring \<Rightarrow> jsstring list \<Rightarrow> chat_state \<Rightarrow> chat_state" where
  "submitted e sid message images st =
     st\<lparr> c_controller := True,
         c_transcript := c_transcript st @ [submitted_item e message images st],
         c_db := snd (dbAppendMessage e sid (submitted_item e message images st)
                   ((c_db st)\<lparr>w_ids := Suc (w_ids (c_db st))\<rparr>)),
         c_isLoading := True \<rparr>"

text \<open>
  What is looked at after a run: the transcript, the ids and contents of the messages
  persisted for a session, the number of requests made, and the two flags.
\<close>

definition chat_view ::
  "jsstring \<Rightarrow> chat_state \<Rightarrow>
   transcript_item list \<times> (jsstring \<times> jsstring) list option \<times> nat \<times> bool \<times> bool" where
  "chat_view sid r =
     (c_transcript r,
      map_option (\<lambda>s. map (\<lambda>m. (m_id m, m_content m)) (s_messages s)) (dbGetSession sid (c_db r)),
      length (c_requests r), c_isLoading r, c_controller r)"

subsection \<open>Valid bundles\<close>

text \<open>
  The values of a bundle are JavaScript values when, in the custom parameters of its
  agents, which are arbitrary JSON objects, the property names of every object are
  distinct.  A valid bundle is one that import accepts: it carries the application tag and
  version 1, and its values are JavaScript values.
\<close>

definition javascript_values :: "export_bundle \<Rightarrow> bool" where
  "javascript_values b \<longleftrightarrow>
     list_all (\<lambda>a. case a_custom_params a of None \<Rightarrow> True | Some kvs \<Rightarrow> json_wf (JObj kvs))
       (b_agents b)"

definition valid_bundle :: "export_bundle \<Rightarrow> bool" where
  "valid_bundle b \<longleftrightarrow> b_app b = js ''agent-group'' \<and> b_version b = 1 \<and> javascript_values b"

section \<open>Example data\<close>

definition ex_env :: env where
  "ex_env = \<lparr> e_uuid = (\<lambda>n. js ''u'' @ replicate n 0x002D),
              e_clock = (\<lambda>n. 100 + real n),
              e_llm = (\<lambda>n. \<lparr> o_deltas = [], o_result = Returned (js ''ok'') \<rparr>) \<rparr>"


definition ex_session :: stored_session where
  "ex_session =
     \<lparr> s_id = js ''s1'', s_name = js ''chat'', s_global_prompt = js ''be brief'',
       s_created_at = 10, s_updated_at = 20,
       s_messages = [StoredUser (js ''m1'') (js ''hi'') None 10,
                     StoredAgent (js ''m2'') (js ''Bot'') (js ''hello'') None 15,
                     StoredUser (js ''m1'') (js ''again'') None 20],
       s_order = None \<rparr>"

definition ex_world :: world where
  "ex_world = \<lparr> w_ids = 0, w_clock = 0, w_agents = [], w_sessions = [(js ''s1'', ex_session)] \<rparr>"

definition ex_agent :: agent where
  "ex_agent =
     \<lparr> a_name = js ''Bot'', a_system_prompt = js ''You are Bot.'', a_avatar_url = None,
       a_model = None, a_custom_params = None, a_base_url = None, a_api_key = Some (js ''k''),
       a_stream = Some False, a_order = None \<rparr>"

definition ex_bundle :: export_bundle where
  "ex_bundle =
     \<lparr> b_app = js ''agent-group'', b_version = 1, b_exported_at = 50,
       b_agents = [ex_agent],
       b_sessions = [ex_session\<lparr> s_id := js ''s2'', s_messages := [] \<rparr>],
       b_active_session_id = None \<rparr>"

definition ex_ordered_world :: world where
  "ex_ordered_world =
     \<lparr> w_ids = 0, w_clock = 0, w_agents = [],
       w_sessions =
         [(js ''a'', \<lparr> s_id = js ''a'', s_name = js ''first'', s_global_prompt = [],
                       s_created_at = 1, s_updated_at = 1, s_messages = [], s_order = Some 1 \<rparr>),
          (js ''b'', \<lparr> s_id = js ''b'', s_name = js ''second'', s_global_prompt = [],
                       s_created_at = 2, s_updated_at = 2, s_messages = [], s_order = Some 2 \<rparr>)] \<rparr>"

definition ex_ordered_bundle :: export_bundle where
  \<comment> \<open>an export of a store whose sessions carry an order field\<close>
  "ex_ordered_bundle =
     \<lparr> b_app = js ''agent-group'', b_version = 1, b_exported_at = 3,
       b_agents = [],
       b_sessions = os_getAll (w_sessions ex_ordered_world),
       b_active_session_id = None \<rparr>"

definition ex_ops :: "store_op list" where
  "ex_ops = [CreateSession (js ''new'') [],
             AppendMessage (js ''s1'') (UserItem [] (js ''x'') None),
             UpsertMessage (js ''s1'') (AgentItem (js ''m2'') (js ''Bot'') (js ''edited'') None None),
             UpsertMessage (js ''s1'') (AgentItem (js ''m9'') (js ''Bot'') (js ''more'') None None),
             UpdateMessageContent (js ''s1'') (js ''m2'') (js ''z''),
             DeleteMessage (js ''s1'') (js ''m1''),
             UpdateSession (js ''s1'') (Some (js ''renamed'')) None,
             ForkSession (js ''s1'') (js ''m2'') None]"

definition ex_future_bundle :: export_bundle where
  \<comment> \<open>an export whose session was created at 200 and updated at 300\<close>
  "ex_future_bundle =
     \<lparr> b_app = js ''agent-group'', b_version = 1, b_exported_at = 300,
       b_agents = [],
       b_sessions = [ex_session\<lparr> s_created_at := 200, s_updated_at := 300 \<rparr>],
       b_active_session_id = None \<rparr>"

definition ex_history :: "transcript_item list" where
  "ex_history =
     [UserItem (js ''t1'') (js ''hi @Bot'') None,
      SystemItem (js ''t2'') (js ''note''),
      AgentItem (js ''t3'') (js ''Bot'') (js ''hello'') None None,
      AgentItem (js ''t4'') (js ''Ann'') (js ''yo'') None (Some False),
      UserItem (js ''t5'') (js '' pic '') (Some [js ''abc'']),
      AgentItem (js ''t6'') (js ''Ann'') [0x0020] (Some [js ''data:image/jpeg;base64,xyz'']) None]"

definition ex_agents :: "agent list" where
  "ex_agents = [ex_agent\<lparr>a_name := js ''Bob-1''\<rparr>, ex_agent\<lparr>a_name := js ''Ann''\<rparr>]"

definition ex_props :: chat_props where
  "ex_props = \<lparr> p_activeSessionId = Some (js ''s1''), p_agents = ex_agents,
                p_globalPrompt = None, p_transcriptRef = [] \<rparr>"

definition ex_chat :: chat_state where
  "ex_chat = \<lparr> c_transcript = [], c_isLoading = False, c_controller = False,
               c_requests = [], c_db = ex_world \<rparr>"

definition ex_team :: "agent list" where
  "ex_team = [ex_agent\<lparr>a_name := js ''Ann'', a_stream := None\<rparr>,
              ex_agent\<lparr>a_name := js ''Bob-1'', a_stream := Some True\<rparr>]"

definition ex_failing_env :: env where
  "ex_failing_env =
     \<lparr> e_uuid = (\<lambda>n. js ''u'' @ replicate n 0x002D),
       e_clock = (\<lambda>n. 100 + real n),
       e_llm = (\<lambda>n. if n = 0
                       then \<lparr> o_deltas = [js ''par''],
                              o_result = Threw \<lparr> err_name = js ''Error'', err_message = js ''boom'' \<rparr> \<rparr>
                       else \<lparr> o_deltas = [js ''he'', js ''llo''],
                              o_result = Threw \<lparr> err_name = js ''AbortError'',
                                                 err_message = js ''aborted'' \<rparr> \<rparr>) \<rparr>"

definition ex_team_props :: chat_props where
  "ex_team_props = \<lparr> p_activeSessionId = Some (js ''s1''), p_agents = ex_team,
                     p_globalPrompt = None, p_transcriptRef = [] \<rparr>"

definition ex_backup :: export_bundle where
  "ex_backup =
     \<lparr> b_app = js ''agent-group'', b_version = 1, b_exported_at = 1730000000.5,
       b_agents = [ex_agent\<lparr> a_custom_params :=
                               Some [(js ''temperature'', JNum 0.7),
                                     (js ''stop'', JArr [JStr (js ''END'')]),
                                     (js ''extra'', JObj [])] \<rparr>],
       b_sessions = [ex_session],
       b_active_session_id = Some (js ''s1'') \<rparr>"

section \<open>Properties of the object store\<close>

lemma os_get_put: "os_get k (os_put k' v kvs) = (if k = k' then Some v else os_get k kvs)"
  by (induction kvs) auto

lemma dbGetSession_put_session:
  "dbGetSession k (put_session s w) = (if k = s_id s then Some s else dbGetSession k w)"
  by (simp add: dbGetSession_def put_session_def os_get_put)

lemma os_get_fold_put:
  "os_get k (fold (\<lambda>x. os_put (key x) x) xs init) =
     (case map_of (rev (map (\<lambda>x. (key x, x)) xs)) k of Some v \<Rightarrow> Some v | None \<Rightarrow> os_get k init)"
proof (induction xs arbitrary: init)
  case Nil
  then show ?case by simp
next
  case (Cons x xs)
  show ?case
    by (simp add: Cons.IH os_get_put map_add_def split: option.splits)
qed

lemma keys_os_put: "fst ` set (os_put k v kvs) = insert k (fst ` set kvs)"
proof (induction kvs)
  case Nil
  show ?case by simp
next
  case (Cons p kvs)
  obtain k' v' where p: "p = (k', v')" by (cases p)
  show ?case using Cons.IH by (simp add: p insert_commute)
qed

lemma mset_os_put_new: "k \<notin> fst ` set kvs \<Longrightarrow> mset (os_put k v kvs) = add_mset (k, v) (mset kvs)"
  by (induction kvs) auto

lemma mset_fold_put:
  "distinct (map key xs) \<Longrightarrow> fst ` set init \<inter> key ` set xs = {} \<Longrightarrow>
   mset (fold (\<lambda>x. os_put (key x) x) xs init) = mset (map (\<lambda>x. (key x, x)) xs) + mset init"
proof (induction xs arbitrary: init)
  case Nil
  then show ?case by simp
next
  case (Cons x xs)
  from Cons.prems have new: "key x \<notin> fst ` set init" by auto
  from Cons.prems have d: "distinct (map key xs)" by simp
  from Cons.prems have disj: "fst ` set (os_put (key x) x init) \<inter> key ` set xs = {}"
    by (auto simp: keys_os_put)
  show ?case
    using Cons.IH[OF d disj] new by (simp add: mset_os_put_new)
qed

lemma getAll_fold_put:
  assumes "distinct (map key xs)"
  shows "mset (os_getAll (fold (\<lambda>x. os_put (key x) x) xs [])) = mset xs"
proof -
  have "mset (fold (\<lambda>x. os_put (key x) x) xs []) = mset (map (\<lambda>x. (key x, x)) xs)"
    using mset_fold_put[OF assms, of "[]"] by simp
  then have "image_mset snd (mset (fold (\<lambda>x. os_put (key x) x) xs [])) =
             image_mset snd (mset (map (\<lambda>x. (key x, x)) xs))" by simp
  then show ?thesis by (simp add: os_getAll_def image_mset.compositionality comp_def flip: mset_map)
qed

lemma w_sessions_fold_put_agent: "w_sessions (fold put_agent as w) = w_sessions w"
  by (induction as arbitrary: w) (simp_all add: put_agent_def)

lemma w_agents_fold_put_agent:
  "w_agents (fold put_agent as w) = fold (\<lambda>a. os_put (a_name a) a) as (w_agents w)"
  by (induction as arbitrary: w) (simp_all add: put_agent_def)

lemma w_agents_fold_put_session: "w_agents (fold put_session ss w) = w_agents w"
  by (induction ss arbitrary: w) (simp_all add: put_session_def)

lemma w_sessions_fold_put_session:
  "w_sessions (fold put_session ss w) = fold (\<lambda>s. os_put (s_id s) s) ss (w_sessions w)"
  by (induction ss arbitrary: w) (simp_all add: put_session_def)

lemma filter_length_eq_iff: "length (filter P xs) = length xs \<longleftrightarrow> (\<forall>x\<in>set xs. P x)"
proof (induction xs)
  case Nil
  then show ?case by simp
next
  case (Cons x xs)
  have "length (filter P xs) \<le> length xs" by simp
  then have ne: "length (filter P xs) \<noteq> Suc (length xs)" by linarith
  show ?case
  proof (cases "P x")
    case True
    with Cons show ?thesis by simp
  next
    case False
    with ne show ?thesis by simp
  qed
qed

section \<open>Deleting a message\<close>

text \<open>
  Claim C10.  \<^verbatim>\<open>dbDeleteMessage\<close> on a stored session removes every message whose id
  equals the given id, not only the first one, and keeps all other messages unchanged in
  their order (the new list is the old one filtered).  It returns true exactly when at
  least one message had that id.  When it returns false nothing is written: the whole
  database state, the session's \<open>updated_at\<close> included, is what it was.  When it returns
  true the session is rewritten with the filtered list and \<open>updated_at\<close> set to the clock
  reading, and every other session is left as it was.  A missing session gives false and
  no write.
\<close>

theorem dbDeleteMessage_removes_all:
  assumes "dbDeleteMessage e sid mid w = (found, w')"
  shows "case dbGetSession sid w of
           None \<Rightarrow> \<not> found \<and> w' = w
         | Some s \<Rightarrow>
             (found \<longleftrightarrow> (\<exists>m\<in>set (s_messages s). m_id m = mid)) \<and>
             (\<not> found \<longrightarrow> w' = w) \<and>
             (found \<longrightarrow>
                w' = put_session
                       (s\<lparr> s_updated_at := e_clock e (w_clock w),
                           s_messages := filter (\<lambda>m. m_id m \<noteq> mid) (s_messages s) \<rparr>)
                       (w\<lparr>w_clock := Suc (w_clock w)\<rparr>) \<and>
                (s_id s = sid \<longrightarrow>
                   dbGetSession sid w' =
                     Some (s\<lparr> s_updated_at := e_clock e (w_clock w),
                              s_messages := filter (\<lambda>m. m_id m \<noteq> mid) (s_messages s) \<rparr>)) \<and>
                (\<forall>k. k \<noteq> s_id s \<longrightarrow> dbGetSession k w' = dbGetSession k w))"
proof (cases "dbGetSession sid w")
  case None
  with assms show ?thesis by (simp add: dbDeleteMessage_def)
next
  case (Some s)
  show ?thesis
  proof (cases "\<forall>m\<in>set (s_messages s). m_id m \<noteq> mid")
    case True
    then have "length (filter (\<lambda>m. m_id m \<noteq> mid) (s_messages s)) = length (s_messages s)"
      by (simp add: filter_length_eq_iff)
    with assms Some True show ?thesis
      by (auto simp: dbDeleteMessage_def Let_def)
  next
    case False
    then have "length (filter (\<lambda>m. m_id m \<noteq> mid) (s_messages s)) \<noteq> length (s_messages s)"
      by (simp add: filter_length_eq_iff)
    with assms Some False show ?thesis
      by (auto simp: dbDeleteMessage_def Let_def date_now_def dbGetSession_put_session
               dbGetSession_def put_session_def os_get_put)
  qed
qed

theorem dbDeleteMessage_removes_all_witness:
  "dbDeleteMessage ex_env (js ''s1'') (js ''m1'') ex_world =
     (True, ex_world\<lparr> w_clock := 1,
                      w_sessions := [(js ''s1'', ex_session\<lparr> s_updated_at := 100,
                         s_messages := [StoredAgent (js ''m2'') (js ''Bot'') (js ''hello'') None 15] \<rparr>)] \<rparr>) \<and>
   dbGetSession (js ''s1'') ex_world = Some ex_session \<and>
   (\<exists>m\<in>set (s_messages ex_session). m_id m = js ''m1'')"
proof -
  have run: "dbDeleteMessage ex_env (js ''s1'') (js ''m1'') ex_world =
     (True, ex_world\<lparr> w_clock := 1,
                      w_sessions := [(js ''s1'', ex_session\<lparr> s_updated_at := 100,
                         s_messages := [StoredAgent (js ''m2'') (js ''Bot'') (js ''hello'') None 15] \<rparr>)] \<rparr>)"
    by (simp add: dbDeleteMessage_def dbGetSession_def ex_world_def ex_session_def ex_env_def
          date_now_def put_session_def js_def Let_def)
  have get: "dbGetSession (js ''s1'') ex_world = Some ex_session"
    by (simp add: dbGetSession_def ex_world_def)
  from dbDeleteMessage_removes_all[OF run]
  have "True \<longleftrightarrow> (\<exists>m\<in>set (s_messages ex_session). m_id m = js ''m1'')"
    by (simp only: get option.case)
  then have "\<exists>m\<in>set (s_messages ex_session). m_id m = js ''m1''" by simp
  with run get show ?thesis by blast
qed

section \<open>Importing a bundle\<close>

text \<open>
  Claim C2.  \<^verbatim>\<open>dbImportBundle\<close> on a bundle whose app tag is not \<^verbatim>\<open>agent-group\<close> or
  whose version is not 1 fails with the error before any write: the database state is
  returned as it was, agents and sessions alike.  On a bundle with the right tag and
  version it succeeds, and the new agents and sessions collections are built from the
  bundle alone (both stores are cleared and filled in one transaction, one step of the
  model): looking up any key gives the bundle's record with that key (the last one when
  the bundle repeats a key) and nothing else, and when the bundle's keys are distinct the
  stored records are exactly the bundle's records.
\<close>

theorem dbImportBundle_rejects_or_replaces:
  "(b_app b \<noteq> js ''agent-group'' \<or> b_version b \<noteq> 1 \<longrightarrow>
      dbImportBundle b w = (Inl UnsupportedImportFile, w)) \<and>
   (b_app b = js ''agent-group'' \<and> b_version b = 1 \<longrightarrow>
      (\<exists>w'. dbImportBundle b w = (Inr (), w') \<and>
         w_agents w' = fold (\<lambda>a. os_put (a_name a) a) (b_agents b) [] \<and>
         w_sessions w' = fold (\<lambda>s. os_put (s_id s) s) (b_sessions b) [] \<and>
         (\<forall>k. os_get k (w_agents w') = map_of (rev (map (\<lambda>a. (a_name a, a)) (b_agents b))) k) \<and>
         (\<forall>k. dbGetSession k w' = map_of (rev (map (\<lambda>s. (s_id s, s)) (b_sessions b))) k) \<and>
         (distinct (map a_name (b_agents b)) \<longrightarrow> mset (os_getAll (w_agents w')) = mset (b_agents b)) \<and>
         (distinct (map s_id (b_sessions b)) \<longrightarrow>
            mset (os_getAll (w_sessions w')) = mset (b_sessions b))))"
proof (intro conjI impI)
  assume "b_app b \<noteq> js ''agent-group'' \<or> b_version b \<noteq> 1"
  then show "dbImportBundle b w = (Inl UnsupportedImportFile, w)"
    by (auto simp: dbImportBundle_def)
next
  assume ok: "b_app b = js ''agent-group'' \<and> b_version b = 1"
  define w' where "w' = fold put_session (b_sessions b)
      (fold put_agent (b_agents b) (w\<lparr>w_agents := os_clear, w_sessions := os_clear\<rparr>))"
  have run: "dbImportBundle b w = (Inr (), w')"
    using ok by (simp add: dbImportBundle_def w'_def Let_def)
  have ag: "w_agents w' = fold (\<lambda>a. os_put (a_name a) a) (b_agents b) []"
    by (simp add: w'_def w_agents_fold_put_session w_agents_fold_put_agent os_clear_def)
  have se: "w_sessions w' = fold (\<lambda>s. os_put (s_id s) s) (b_sessions b) []"
    by (simp add: w'_def w_sessions_fold_put_session w_sessions_fold_put_agent os_clear_def)
  have l1: "\<forall>k. os_get k (w_agents w') = map_of (rev (map (\<lambda>a. (a_name a, a)) (b_agents b))) k"
    by (simp add: ag os_get_fold_put split: option.splits)
  have l2: "\<forall>k. dbGetSession k w' = map_of (rev (map (\<lambda>s. (s_id s, s)) (b_sessions b))) k"
    by (simp add: dbGetSession_def se os_get_fold_put split: option.splits)
  have m1: "distinct (map a_name (b_agents b)) \<longrightarrow> mset (os_getAll (w_agents w')) = mset (b_agents b)"
    by (simp add: ag getAll_fold_put)
  have m2: "distinct (map s_id (b_sessions b)) \<longrightarrow> mset (os_getAll (w_sessions w')) = mset (b_sessions b)"
    by (simp add: se getAll_fold_put)
  from run ag se l1 l2 m1 m2
  show "\<exists>w'. dbImportBundle b w = (Inr (), w') \<and>
         w_agents w' = fold (\<lambda>a. os_put (a_name a) a) (b_agents b) [] \<and>
         w_sessions w' = fold (\<lambda>s. os_put (s_id s) s) (b_sessions b) [] \<and>
         (\<forall>k. os_get k (w_agents w') = map_of (rev (map (\<lambda>a. (a_name a, a)) (b_agents b))) k) \<and>
         (\<forall>k. dbGetSession k w' = map_of (rev (map (\<lambda>s. (s_id s, s)) (b_sessions b))) k) \<and>
         (distinct (map a_name (b_agents b)) \<longrightarrow> mset (os_getAll (w_agents w')) = mset (b_agents b)) \<and>
         (distinct (map s_id (b_sessions b)) \<longrightarrow>
            mset (os_getAll (w_sessions w')) = mset (b_sessions b))"
    by blast
qed

theorem dbImportBundle_rejects_or_replaces_witness:
  "b_app (ex_bundle\<lparr>b_version := 2\<rparr>) = js ''agent-group'' \<and> b_version (ex_bundle\<lparr>b_version := 2\<rparr>) \<noteq> 1 \<and>
   dbImportBundle (ex_bundle\<lparr>b_version := 2\<rparr>) ex_world = (Inl UnsupportedImportFile, ex_world) \<and>
   b_app ex_bundle = js ''agent-group'' \<and> b_version ex_bundle = 1 \<and>
   distinct (map a_name (b_agents ex_bundle)) \<and> distinct (map s_id (b_sessions ex_bundle)) \<and>
   (\<exists>w'. dbImportBundle ex_bundle ex_world = (Inr (), w') \<and>
         mset (os_getAll (w_agents w')) = mset (b_agents ex_bundle) \<and>
         mset (os_getAll (w_sessions w')) = mset (b_sessions ex_bundle))"
proof -
  have bad: "b_app (ex_bundle\<lparr>b_version := 2\<rparr>) \<noteq> js ''agent-group'' \<or> b_version (ex_bundle\<lparr>b_version := 2\<rparr>) \<noteq> 1"
    by (simp add: ex_bundle_def)
  have good: "b_app ex_bundle = js ''agent-group'' \<and> b_version ex_bundle = 1"
    by (simp add: ex_bundle_def)
  have da: "distinct (map a_name (b_agents ex_bundle))"
    by (simp add: ex_bundle_def)
  have ds: "distinct (map s_id (b_sessions ex_bundle))"
    by (simp add: ex_bundle_def)
  have r1: "dbImportBundle (ex_bundle\<lparr>b_version := 2\<rparr>) ex_world = (Inl UnsupportedImportFile, ex_world)"
    using dbImportBundle_rejects_or_replaces[of "ex_bundle\<lparr>b_version := 2\<rparr>" ex_world] bad by blast
  have r2: "\<exists>w'. dbImportBundle ex_bundle ex_world = (Inr (), w') \<and>
         mset (os_getAll (w_agents w')) = mset (b_agents ex_bundle) \<and>
         mset (os_getAll (w_sessions w')) = mset (b_sessions ex_bundle)"
    using dbImportBundle_rejects_or_replaces[of ex_bundle ex_world] good da ds by blast
  have v: "b_app (ex_bundle\<lparr>b_version := 2\<rparr>) = js ''agent-group'' \<and> b_version (ex_bundle\<lparr>b_version := 2\<rparr>) \<noteq> 1"
    by (simp add: ex_bundle_def)
  from v r1 good da ds r2 show ?thesis by blast
qed

section \<open>Forking a session\<close>

lemma findIndex_None: "findIndex P xs = None \<longleftrightarrow> (\<forall>x\<in>set xs. \<not> P x)"
  by (induction xs) auto


lemma findIndex_Some:
  "findIndex P xs = Some k \<Longrightarrow> k < length xs \<and> P (xs ! k) \<and> (\<forall>j<k. \<not> P (xs ! j))"
proof (induction xs arbitrary: k)
  case Nil
  then show ?case by simp
next
  case (Cons x xs)
  show ?case
  proof (cases "P x")
    case True
    with Cons.prems show ?thesis by simp
  next
    case False
    with Cons.prems obtain n where n: "findIndex P xs = Some n" "k = Suc n" by auto
    from Cons.IH[OF n(1)] have ih: "n < length xs" "P (xs ! n)" "\<forall>j<n. \<not> P (xs ! j)" by auto
    have "\<forall>j<Suc n. \<not> P ((x # xs) ! j)"
    proof (intro allI impI)
      fix j assume "j < Suc n"
      then show "\<not> P ((x # xs) ! j)" using False ih(3) by (cases j) auto
    qed
    with ih n(2) show ?thesis by simp
  qed
qed

lemma fork_messages_snd: "snd (fork_messages e ms w) = w\<lparr>w_ids := w_ids w + length ms\<rparr>"
  by (induction ms arbitrary: w) (simp_all add: db_newId_def split_def Let_def)




lemma fork_run:
  assumes "dbGetSession sid w = Some S" "findIndex (\<lambda>m. m_id m = mid) (s_messages S) = Some k"
  shows "dbForkSessionFromMessage e sid mid newName w =
     (Some (toSessionSummary (forked_session e S k newName w)),
      put_session (forked_session e S k newName w)
        (w\<lparr>w_clock := Suc (w_clock w), w_ids := w_ids w + k + 2\<rparr>))"
proof -
  define w2 where "w2 = w\<lparr>w_clock := Suc (w_clock w), w_ids := Suc (w_ids w)\<rparr>"
  define pre where "pre = take (k + 1) (s_messages S)"
  obtain msgs w3 where fm: "fork_messages e pre w2 = (msgs, w3)"
    by (cases "fork_messages e pre w2")
  from findIndex_Some[OF assms(2)] have "k < length (s_messages S)" by simp
  then have len: "length pre = k + 1" by (simp add: pre_def)
  from fork_messages_snd[of e pre w2] fm len
  have w3: "w3 = w\<lparr>w_clock := Suc (w_clock w), w_ids := w_ids w + k + 2\<rparr>"
    by (simp add: w2_def)
  have run: "dbForkSessionFromMessage e sid mid newName w =
     (let forked = \<lparr> s_id = e_uuid e (w_ids w),
                      s_name = (case newName of Some n \<Rightarrow> if n \<noteq> [] then n else s_name S @ fork_suffix
                                | None \<Rightarrow> s_name S @ fork_suffix),
                      s_global_prompt = s_global_prompt S,
                      s_created_at = e_clock e (w_clock w), s_updated_at = e_clock e (w_clock w),
                      s_messages = msgs, s_order = None \<rparr>
      in (Some (toSessionSummary forked), put_session forked w3))"
    using fm[unfolded pre_def w2_def] assms
    by (simp add: dbForkSessionFromMessage_def date_now_def db_newId_def Let_def
         )
  have fs: "forked_session e S k newName w =
      \<lparr> s_id = e_uuid e (w_ids w),
        s_name = (case newName of Some n \<Rightarrow> if n \<noteq> [] then n else s_name S @ fork_suffix
                  | None \<Rightarrow> s_name S @ fork_suffix),
        s_global_prompt = s_global_prompt S,
        s_created_at = e_clock e (w_clock w), s_updated_at = e_clock e (w_clock w),
        s_messages = msgs, s_order = None \<rparr>"
    unfolding forked_session_def using fm by (simp only: pre_def[symmetric] w2_def[symmetric] fst_conv)
  show ?thesis unfolding run fs[symmetric] Let_def w3 ..
qed





section \<open>Listing sessions\<close>

lemma mset_insort_cmp: "mset (insort_cmp cmp x ys) = add_mset x (mset ys)"
  by (induction ys) auto

lemma mset_js_sort: "mset (js_sort cmp xs) = mset xs"
  by (induction xs) (simp_all add: js_sort_def mset_insort_cmp)

lemma set_insort_cmp: "set (insort_cmp cmp x ys) = insert x (set ys)"
  by (induction ys) auto

lemma sorted_insort_desc:
  "sorted_wrt (\<lambda>a b. c b \<le> c a) ys \<Longrightarrow>
   sorted_wrt (\<lambda>a b. c b \<le> c a) (insort_cmp (\<lambda>a b. c b - c a) x ys)"
proof (induction ys)
  case Nil
  then show ?case by simp
next
  case (Cons y ys)
  show ?case
  proof (cases "c y - c x \<le> 0")
    case True
    with Cons.prems show ?thesis by (auto intro: order_trans)
  next
    case False
    with Cons show ?thesis by (auto simp: set_insort_cmp)
  qed
qed

lemma sorted_js_sort_desc:
  "sorted_wrt (\<lambda>a b. c b \<le> (c a :: real)) (js_sort (\<lambda>a b. c b - c a) xs)"
  by (induction xs) (simp_all add: js_sort_def sorted_insort_desc)

lemma insort_cmp_map:
  "(\<And>a b. cmp (g a) (g b) = cmp a b) \<Longrightarrow>
   insort_cmp cmp (g x) (map g ys) = map g (insort_cmp cmp x ys)"
  by (induction ys) auto

lemma js_sort_map:
  assumes "\<And>a b. cmp (g a) (g b) = cmp a b"
  shows "js_sort cmp (map g xs) = map g (js_sort cmp xs)"
proof (induction xs)
  case Nil
  then show ?case by (simp add: js_sort_def)
next
  case (Cons x xs)
  then have "js_sort cmp (map g (x # xs)) = insort_cmp cmp (g x) (map g (js_sort cmp xs))"
    by (simp add: js_sort_def)
  also have "\<dots> = map g (insort_cmp cmp x (js_sort cmp xs))"
    by (rule insort_cmp_map) (rule assms)
  finally show ?case by (simp add: js_sort_def)
qed

text \<open>
  What \<^verbatim>\<open>dbListSessions\<close> does: it returns exactly one summary per stored session,
  sorted by \<open>created_at\<close> descending, newest first.  No order field is consulted: rewriting
  the order fields of the stored sessions in any way leaves the listing unchanged.
\<close>

lemma dbListSessions_by_created_desc:
  "mset (dbListSessions w) = image_mset toSessionSummary (mset (os_getAll (w_sessions w))) \<and>
   sorted_wrt (\<lambda>a b. ss_created_at b \<le> ss_created_at a) (dbListSessions w) \<and>
   dbListSessions (w\<lparr>w_sessions := map (\<lambda>(k, s). (k, s\<lparr>s_order := f s\<rparr>)) (w_sessions w)\<rparr>)
     = dbListSessions w"
proof (intro conjI)
  show "mset (dbListSessions w) = image_mset toSessionSummary (mset (os_getAll (w_sessions w)))"
    by (simp add: dbListSessions_def mset_js_sort)
next
  have "sorted_wrt (\<lambda>a b. s_created_at b \<le> s_created_at a)
          (js_sort (\<lambda>a b. s_created_at b - s_created_at a) (os_getAll (w_sessions w)))"
    by (rule sorted_js_sort_desc)
  then show "sorted_wrt (\<lambda>a b. ss_created_at b \<le> ss_created_at a) (dbListSessions w)"
    by (simp add: dbListSessions_def sorted_wrt_map toSessionSummary_def)
next
  let ?g = "\<lambda>s. s\<lparr>s_order := f s\<rparr>"
  let ?cmp = "\<lambda>a b. s_created_at b - s_created_at a"
  have all: "os_getAll (map (\<lambda>(k, s). (k, s\<lparr>s_order := f s\<rparr>)) (w_sessions w))
               = map ?g (os_getAll (w_sessions w))"
    by (simp add: os_getAll_def split_def comp_def)
  have srt: "js_sort ?cmp (map ?g (os_getAll (w_sessions w)))
               = map ?g (js_sort ?cmp (os_getAll (w_sessions w)))"
    by (rule js_sort_map) simp
  have sm: "toSessionSummary \<circ> ?g = toSessionSummary"
    by (rule ext) (simp add: toSessionSummary_def)
  show "dbListSessions (w\<lparr>w_sessions := map (\<lambda>(k, s). (k, s\<lparr>s_order := f s\<rparr>)) (w_sessions w)\<rparr>)
          = dbListSessions w"
    by (simp add: dbListSessions_def all srt sm)
qed

text \<open>
  A store whose sessions carry an order field is what importing a bundle with such
  sessions leaves: import stores the records as they are.
\<close>

lemma ex_ordered_world_imported:
  "dbImportBundle ex_ordered_bundle ex_world = (Inr (), ex_ordered_world)"
  by (simp add: ex_ordered_bundle_def ex_ordered_world_def ex_world_def dbImportBundle_def
        os_clear_def put_session_def os_getAll_def js_def)

text \<open>
  Claim C7 at a store whose sessions carry an order field.  The session summary type
  documents the field as the sort order, smaller first, and the page persists a drag order
  and then reloads the list through \<^verbatim>\<open>dbListSessions\<close>; this store neither declares the
  field on its records nor reads it.  With two stored sessions, \<open>a\<close> created at 1 with
  order 1 and \<open>b\<close> created at 2 with order 2, the listing is \<open>b\<close> before \<open>a\<close>, newest
  first, where the claim and the documented intent give \<open>a\<close> before \<open>b\<close>, ascending by
  order; and the summaries returned carry no order.
\<close>

theorem dbListSessions_ignores_order_field:
  "map (\<lambda>s. (s_id s, s_created_at s, s_order s)) (os_getAll (w_sessions ex_ordered_world)) =
     [(js ''a'', 1, Some 1), (js ''b'', 2, Some 2)] \<and>
   map (\<lambda>x. (ss_id x, ss_order x)) (dbListSessions ex_ordered_world) =
     [(js ''b'', None), (js ''a'', None)] \<and>
   \<not> listed_ascending_by_order ex_ordered_world (dbListSessions ex_ordered_world)"
  by (simp add: ex_ordered_world_def os_getAll_def dbListSessions_def js_sort_def
        toSessionSummary_def listed_ascending_by_order_def order_of_def dbGetSession_def js_def)

section \<open>Timestamps\<close>

lemma os_put_entries: "p \<in> set (os_put k v kvs) \<Longrightarrow> p = (k, v) \<or> p \<in> set kvs"
  by (induction kvs) (auto split: if_splits)

lemma stored_put_session: "stored (put_session s w) \<subseteq> insert s (stored w)"
proof
  fix x assume "x \<in> stored (put_session s w)"
  then obtain k where "(k, x) \<in> set (os_put (s_id s) s (w_sessions w))"
    by (auto simp: stored_def put_session_def os_getAll_def)
  from os_put_entries[OF this] show "x \<in> insert s (stored w)"
    by (force simp: stored_def os_getAll_def)
qed

lemma stored_clock_upd [simp]: "stored (w\<lparr>w_clock := n\<rparr>) = stored w"
  by (simp add: stored_def)

lemma stored_ids_upd [simp]: "stored (w\<lparr>w_ids := n\<rparr>) = stored w"
  by (simp add: stored_def)

lemma dbGetSession_stored: "dbGetSession sid w = Some s \<Longrightarrow> s \<in> stored w"
proof -
  have "os_get k kvs = Some v \<Longrightarrow> (k, v) \<in> set kvs" for k v and kvs :: "stored_session object_store"
    by (induction kvs) (auto split: if_splits)
  then have "os_get k kvs = Some v \<Longrightarrow> v \<in> set (map snd kvs)" for k v and kvs :: "stored_session object_store"
    by force
  then show "dbGetSession sid w = Some s \<Longrightarrow> s \<in> stored w"
    by (simp add: stored_def dbGetSession_def os_getAll_def)
qed

lemma put_stamped:
  assumes "stamped e w s" "stored w1 = stored w"
  shows "\<forall>s'\<in>stored (put_session s w1). s' \<in> stored w \<or> stamped e w s'"
  using stored_put_session[of s w1] assms by auto

lemma stamped_fresh:
  "s_created_at s' = e_clock e (w_clock w) \<Longrightarrow> s_updated_at s' = e_clock e (w_clock w) \<Longrightarrow>
   stamped e w s'"
  by (auto simp: stamped_def)

lemma stamped_mut:
  "s \<in> stored w \<Longrightarrow> w_clock w \<le> n \<Longrightarrow> s_created_at s' = s_created_at s \<Longrightarrow>
   s_updated_at s' = e_clock e n \<Longrightarrow> stamped e w s'"
  by (auto simp: stamped_def)

lemma create_step:
  "\<forall>s'\<in>stored (snd (dbCreateSession e name gp w)). s' \<in> stored w \<or> stamped e w s'"
proof -
  let ?s = "\<lparr> s_id = e_uuid e (w_ids w), s_name = name, s_global_prompt = gp,
              s_created_at = e_clock e (w_clock w), s_updated_at = e_clock e (w_clock w),
              s_messages = [], s_order = None \<rparr>"
  have st: "stamped e w ?s" by (rule stamped_fresh) simp_all
  have "snd (dbCreateSession e name gp w) = put_session ?s (w\<lparr>w_clock := Suc (w_clock w), w_ids := Suc (w_ids w)\<rparr>)"
    by (simp add: dbCreateSession_def date_now_def db_newId_def Let_def)
  moreover have eq: "stored (w\<lparr>w_clock := Suc (w_clock w), w_ids := Suc (w_ids w)\<rparr>) = stored w"
    by simp
  ultimately show ?thesis using put_stamped[OF st eq] by simp
qed

lemma update_step:
  "\<forall>s'\<in>stored (dbUpdateSession e sid n g w). s' \<in> stored w \<or> stamped e w s'"
proof (cases "dbGetSession sid w")
  case None
  then show ?thesis by (simp add: dbUpdateSession_def)
next
  case (Some s)
  let ?next = "s\<lparr> s_name := (case n of Some x \<Rightarrow> x | None \<Rightarrow> s_name s),
                   s_global_prompt := (case g of Some x \<Rightarrow> x | None \<Rightarrow> s_global_prompt s),
                   s_updated_at := e_clock e (w_clock w) \<rparr>"
  have st: "stamped e w ?next"
    by (rule stamped_mut[OF dbGetSession_stored[OF Some], of "w_clock w"]) simp_all
  have "dbUpdateSession e sid n g w = put_session ?next (w\<lparr>w_clock := Suc (w_clock w)\<rparr>)"
    using Some by (simp add: dbUpdateSession_def date_now_def Let_def)
  moreover have eq: "stored (w\<lparr>w_clock := Suc (w_clock w)\<rparr>) = stored w" by simp
  ultimately show ?thesis using put_stamped[OF st eq] by simp
qed

lemma append_step:
  "\<forall>s'\<in>stored (snd (dbAppendMessage e sid item w)). s' \<in> stored w \<or> stamped e w s'"
proof (cases "dbGetSession sid w")
  case None
  then show ?thesis by (simp add: dbAppendMessage_def)
next
  case (Some s)
  obtain nxt w2 where run: "snd (dbAppendMessage e sid item w) = put_session nxt w2"
    and nx: "s_created_at nxt = s_created_at s" "s_updated_at nxt = e_clock e (w_clock w)"
    and w2: "stored w2 = stored w"
    using Some by (cases "t_id item \<noteq> []")
      (simp_all add: dbAppendMessage_def date_now_def db_newId_def Let_def)
  have st: "stamped e w nxt"
    by (rule stamped_mut[OF dbGetSession_stored[OF Some], of "w_clock w"]) (simp_all add: nx)
  from put_stamped[OF st w2] run show ?thesis by simp
qed

lemma upsert_step:
  "\<forall>s'\<in>stored (snd (dbUpsertMessage e sid item w)). s' \<in> stored w \<or> stamped e w s'"
proof (cases "dbGetSession sid w")
  case None
  then show ?thesis by (simp add: dbUpsertMessage_def)
next
  case (Some s)
  obtain nxt w2 n where run: "snd (dbUpsertMessage e sid item w) = put_session nxt w2"
    and nx: "s_created_at nxt = s_created_at s" "s_updated_at nxt = e_clock e n" "w_clock w \<le> n"
    and w2: "stored w2 = stored w"
    using Some by (cases "findIndex (\<lambda>m. m_id m = t_id item) (s_messages s)")
      (simp_all add: dbUpsertMessage_def date_now_def Let_def)
  have st: "stamped e w nxt"
    by (rule stamped_mut[OF dbGetSession_stored[OF Some], of n]) (simp_all add: nx)
  from put_stamped[OF st w2] run show ?thesis by simp
qed

lemma content_step:
  "\<forall>s'\<in>stored (snd (dbUpdateMessageContent e sid mid c w)). s' \<in> stored w \<or> stamped e w s'"
proof (cases "dbGetSession sid w")
  case None
  then show ?thesis by (simp add: dbUpdateMessageContent_def)
next
  case (Some s)
  show ?thesis
  proof (cases "findIndex (\<lambda>m. m_id m = mid) (s_messages s)")
    case None
    with Some show ?thesis by (simp add: dbUpdateMessageContent_def)
  next
    case (Some idx)
    let ?next = "s\<lparr> s_updated_at := e_clock e (w_clock w),
                     s_messages := (s_messages s)[idx := with_content c (s_messages s ! idx)] \<rparr>"
    have st: "stamped e w ?next"
      by (rule stamped_mut[OF dbGetSession_stored[OF \<open>dbGetSession sid w = Some s\<close>], of "w_clock w"]) simp_all
    have "snd (dbUpdateMessageContent e sid mid c w) = put_session ?next (w\<lparr>w_clock := Suc (w_clock w)\<rparr>)"
      using Some \<open>dbGetSession sid w = Some s\<close>
      by (simp add: dbUpdateMessageContent_def date_now_def Let_def)
    moreover have eq: "stored (w\<lparr>w_clock := Suc (w_clock w)\<rparr>) = stored w" by simp
    ultimately show ?thesis using put_stamped[OF st eq] by simp
  qed
qed

lemma delete_step:
  "\<forall>s'\<in>stored (snd (dbDeleteMessage e sid mid w)). s' \<in> stored w \<or> stamped e w s'"
proof (cases "dbGetSession sid w")
  case None
  then show ?thesis by (simp add: dbDeleteMessage_def)
next
  case (Some s)
  let ?next = "s\<lparr> s_updated_at := e_clock e (w_clock w),
                   s_messages := filter (\<lambda>m. m_id m \<noteq> mid) (s_messages s) \<rparr>"
  have st: "stamped e w ?next"
    by (rule stamped_mut[OF dbGetSession_stored[OF Some], of "w_clock w"]) simp_all
  have "snd (dbDeleteMessage e sid mid w) = w \<or>
        snd (dbDeleteMessage e sid mid w) = put_session ?next (w\<lparr>w_clock := Suc (w_clock w)\<rparr>)"
    using Some by (simp add: dbDeleteMessage_def date_now_def Let_def)
  moreover have eq: "stored (w\<lparr>w_clock := Suc (w_clock w)\<rparr>) = stored w" by simp
  ultimately show ?thesis using put_stamped[OF st eq] by auto
qed

lemma fork_step:
  "\<forall>s'\<in>stored (snd (dbForkSessionFromMessage e sid mid newName w)). s' \<in> stored w \<or> stamped e w s'"
proof (cases "dbGetSession sid w")
  case None
  then show ?thesis by (simp add: dbForkSessionFromMessage_def)
next
  case (Some s)
  show ?thesis
  proof (cases "findIndex (\<lambda>m. m_id m = mid) (s_messages s)")
    case None
    with Some show ?thesis by (simp add: dbForkSessionFromMessage_def)
  next
    case (Some k)
    have st: "stamped e w (forked_session e s k newName w)"
      by (rule stamped_fresh) (simp_all add: forked_session_def)
    have "stored (w\<lparr>w_clock := Suc (w_clock w), w_ids := w_ids w + k + 2\<rparr>) = stored w"
      by simp
    from fork_run[OF \<open>dbGetSession sid w = Some s\<close> Some, of e newName] put_stamped[OF st this]
    show ?thesis by simp
  qed
qed

lemma apply_op_step: "\<forall>s'\<in>stored (apply_op e op w). s' \<in> stored w \<or> stamped e w s'"
proof (cases op)
  case (CreateSession x y)
  then show ?thesis using create_step[of e x y w] by simp
next
  case (UpdateSession x y z)
  then show ?thesis using update_step[of e x y z w] by simp
next
  case (AppendMessage x y)
  then show ?thesis using append_step[of e x y w] by simp
next
  case (UpsertMessage x y)
  then show ?thesis using upsert_step[of e x y w] by simp
next
  case (UpdateMessageContent x y z)
  then show ?thesis using content_step[of e x y z w] by simp
next
  case (DeleteMessage x y)
  then show ?thesis using delete_step[of e x y w] by simp
next
  case (ForkSession x y z)
  then show ?thesis using fork_step[of e x y z w] by simp
qed

lemma date_now_clock: "w_clock (snd (date_now e w)) = Suc (w_clock w)"
  by (simp add: date_now_def)

lemma apply_op_clock: "w_clock w \<le> w_clock (apply_op e op w)"
proof (cases op)
  case (CreateSession x y)
  then show ?thesis
    by (simp add: dbCreateSession_def date_now_def db_newId_def put_session_def Let_def)
next
  case (UpdateSession x y z)
  then show ?thesis
    by (simp add: dbUpdateSession_def date_now_def put_session_def Let_def split: option.splits)
next
  case (AppendMessage x y)
  then show ?thesis
    by (simp add: dbAppendMessage_def date_now_def db_newId_def put_session_def Let_def
          split: option.splits)
next
  case (UpsertMessage x y)
  then show ?thesis
    by (simp add: dbUpsertMessage_def date_now_def put_session_def Let_def split: option.splits)
next
  case (UpdateMessageContent x y z)
  then show ?thesis
    by (simp add: dbUpdateMessageContent_def date_now_def put_session_def Let_def
          split: option.splits)
next
  case (DeleteMessage x y)
  then show ?thesis
    by (simp add: dbDeleteMessage_def date_now_def put_session_def Let_def split: option.splits)
next
  case (ForkSession sid mid newName)
  show ?thesis
  proof (cases "dbGetSession sid w")
    case None
    with ForkSession show ?thesis by (simp add: dbForkSessionFromMessage_def)
  next
    case (Some s)
    show ?thesis
    proof (cases "findIndex (\<lambda>m. m_id m = mid) (s_messages s)")
      case None
      with \<open>dbGetSession sid w = Some s\<close> ForkSession show ?thesis
        by (simp add: dbForkSessionFromMessage_def)
    next
      case (Some k)
      from fork_run[OF \<open>dbGetSession sid w = Some s\<close> Some, of e newName] ForkSession
      show ?thesis by (simp add: put_session_def)
    qed
  qed
qed

lemma apply_op_timestamps_ok:
  assumes mono: "\<forall>i j. i \<le> j \<longrightarrow> e_clock e i \<le> e_clock e j"
    and ok: "timestamps_ok e w"
  shows "timestamps_ok e (apply_op e op w)"
  unfolding timestamps_ok_def
proof
  fix s' assume s': "s' \<in> stored (apply_op e op w)"
  have clk: "e_clock e (w_clock w) \<le> e_clock e (w_clock (apply_op e op w))"
    using mono apply_op_clock by blast
  from apply_op_step s' have "s' \<in> stored w \<or> stamped e w s'" by blast
  then show "s_created_at s' \<le> s_updated_at s' \<and>
             s_created_at s' \<le> e_clock e (w_clock (apply_op e op w))"
  proof
    assume "s' \<in> stored w"
    with ok clk show ?thesis by (force simp: timestamps_ok_def)
  next
    assume st: "stamped e w s'"
    then obtain n where n: "w_clock w \<le> n" "s_updated_at s' = e_clock e n"
      by (auto simp: stamped_def)
    from mono n(1) have up: "e_clock e (w_clock w) \<le> e_clock e n" by blast
    from st have "s_created_at s' \<le> e_clock e (w_clock w)"
      using ok by (force simp: stamped_def timestamps_ok_def)
    with up n(2) clk show ?thesis by linarith
  qed
qed

lemma run_timestamps_ok:
  assumes mono: "\<forall>i j. i \<le> j \<longrightarrow> e_clock e i \<le> e_clock e j"
  shows "timestamps_ok e w \<Longrightarrow> timestamps_ok e (fold (apply_op e) ops w)"
  by (induction ops arbitrary: w) (simp_all add: apply_op_timestamps_ok[OF mono])

subsection \<open>What each operation writes\<close>

lemma create_writes:
  "\<exists>S. dbGetSession (e_uuid e (w_ids w)) (snd (dbCreateSession e name gp w)) = Some S \<and>
       s_created_at S = e_clock e (w_clock w) \<and> s_updated_at S = e_clock e (w_clock w)"
  by (simp add: dbCreateSession_def date_now_def db_newId_def Let_def dbGetSession_put_session)

lemma fork_writes:
  assumes "dbGetSession sid w = Some s" "\<exists>m\<in>set (s_messages s). m_id m = mid"
  shows "\<exists>F. dbGetSession (e_uuid e (w_ids w))
               (snd (dbForkSessionFromMessage e sid mid newName w)) = Some F \<and>
             s_created_at F = e_clock e (w_clock w) \<and> s_updated_at F = e_clock e (w_clock w)"
proof -
  from assms(2) have "findIndex (\<lambda>m. m_id m = mid) (s_messages s) \<noteq> None"
    by (simp add: findIndex_None)
  then obtain k where k: "findIndex (\<lambda>m. m_id m = mid) (s_messages s) = Some k" by auto
  have id: "s_id (forked_session e s k newName w) = e_uuid e (w_ids w)"
    by (simp add: forked_session_def)
  have "dbGetSession (e_uuid e (w_ids w)) (snd (dbForkSessionFromMessage e sid mid newName w))
          = Some (forked_session e s k newName w)"
    unfolding fork_run[OF assms(1) k] snd_conv by (simp add: dbGetSession_put_session id)
  moreover have "s_created_at (forked_session e s k newName w) = e_clock e (w_clock w)"
    "s_updated_at (forked_session e s k newName w) = e_clock e (w_clock w)"
    by (simp_all add: forked_session_def)
  ultimately show ?thesis by blast
qed

lemma update_writes:
  assumes "dbGetSession sid w = Some s" "s_id s = sid"
  shows "\<exists>s'. dbGetSession sid (dbUpdateSession e sid n g w) = Some s' \<and>
              s_created_at s' = s_created_at s \<and> s_updated_at s' = e_clock e (w_clock w)"
  using assms by (simp add: dbUpdateSession_def date_now_def Let_def dbGetSession_put_session)

lemma append_writes:
  assumes "dbGetSession sid w = Some s" "s_id s = sid"
  shows "\<exists>s'. dbGetSession sid (snd (dbAppendMessage e sid item w)) = Some s' \<and>
              s_created_at s' = s_created_at s \<and> s_updated_at s' = e_clock e (w_clock w)"
  using assms
  by (cases "t_id item \<noteq> []")
     (simp_all add: dbAppendMessage_def date_now_def db_newId_def Let_def dbGetSession_put_session)

lemma upsert_writes:
  assumes "dbGetSession sid w = Some s" "s_id s = sid"
  shows "\<exists>s'. dbGetSession sid (snd (dbUpsertMessage e sid item w)) = Some s' \<and>
              s_created_at s' = s_created_at s \<and>
              s_updated_at s' =
                e_clock e (if \<exists>m\<in>set (s_messages s). m_id m = t_id item then w_clock w
                           else Suc (w_clock w))"
proof (cases "findIndex (\<lambda>m. m_id m = t_id item) (s_messages s)")
  case None
  then have "\<not> (\<exists>m\<in>set (s_messages s). m_id m = t_id item)" by (simp add: findIndex_None)
  with None assms show ?thesis
    by (simp add: dbUpsertMessage_def date_now_def Let_def dbGetSession_put_session)
next
  case (Some i)
  then have "findIndex (\<lambda>m. m_id m = t_id item) (s_messages s) \<noteq> None" by simp
  then have "\<exists>m\<in>set (s_messages s). m_id m = t_id item" by (simp add: findIndex_None)
  with Some assms show ?thesis
    by (simp add: dbUpsertMessage_def date_now_def Let_def dbGetSession_put_session)
qed

lemma content_writes:
  assumes "dbGetSession sid w = Some s" "s_id s = sid" "\<exists>m\<in>set (s_messages s). m_id m = mid"
  shows "\<exists>s'. dbGetSession sid (snd (dbUpdateMessageContent e sid mid c w)) = Some s' \<and>
              s_created_at s' = s_created_at s \<and> s_updated_at s' = e_clock e (w_clock w)"
proof -
  from assms(3) have "findIndex (\<lambda>m. m_id m = mid) (s_messages s) \<noteq> None"
    by (simp add: findIndex_None)
  then obtain k where k: "findIndex (\<lambda>m. m_id m = mid) (s_messages s) = Some k" by auto
  with assms(1,2) show ?thesis
    by (simp add: dbUpdateMessageContent_def date_now_def Let_def dbGetSession_put_session)
qed

lemma filter_shorter: "\<exists>x\<in>set xs. \<not> P x \<Longrightarrow> length (filter P xs) \<noteq> length xs"
proof -
  assume "\<exists>x\<in>set xs. \<not> P x"
  then obtain x where "x \<in> set xs" "\<not> P x" by blast
  then have "length (filter P xs) < length xs" by (rule length_filter_less)
  then show ?thesis by simp
qed

lemma delete_writes:
  assumes "dbGetSession sid w = Some s" "s_id s = sid" "\<exists>m\<in>set (s_messages s). m_id m = mid"
  shows "\<exists>s'. dbGetSession sid (snd (dbDeleteMessage e sid mid w)) = Some s' \<and>
              s_created_at s' = s_created_at s \<and> s_updated_at s' = e_clock e (w_clock w)"
proof -
  from assms(3) have "\<exists>m\<in>set (s_messages s). \<not> m_id m \<noteq> mid" by simp
  from filter_shorter[OF this]
  have "length (filter (\<lambda>m. m_id m \<noteq> mid) (s_messages s)) \<noteq> length (s_messages s)" .
  with assms(1,2) show ?thesis
    by (simp add: dbDeleteMessage_def date_now_def Let_def dbGetSession_put_session)
qed

text \<open>
  Claim C8, as the store implements it.  The first part is the invariant: with
  non-decreasing clock readings, started from a store in which every session has
  \<open>created_at \<le> updated_at\<close> and was created no later than the current clock reading (the
  empty store is one, and so is every store this property has been kept on), any sequence
  of createSession, updateSession, appendMessage, upsertMessage, updateMessageContent,
  deleteMessage and fork operations leaves every stored session with
  \<open>created_at \<le> updated_at\<close>.

  The other parts say what each operation writes.  createSession and fork store the new
  session with both timestamps equal to the operation's clock reading.  updateSession,
  appendMessage, updateMessageContent and deleteMessage, when they rewrite the session (the
  session is stored under its id and, for the last two, has a message with the given id),
  keep its \<open>created_at\<close> and set \<open>updated_at\<close> to the operation's clock reading;
  upsertMessage does the same when the session has a message with the item's id, and
  otherwise reads the clock twice, once for the new message and then for \<open>updated_at\<close>.
\<close>

theorem store_ops_keep_updated_after_created:
  "((\<forall>i j. i \<le> j \<longrightarrow> e_clock e i \<le> e_clock e j) \<and>
    (\<forall>s\<in>stored w. s_created_at s \<le> s_updated_at s \<and> s_created_at s \<le> e_clock e (w_clock w)) \<longrightarrow>
    (\<forall>s\<in>stored (fold (apply_op e) ops w). s_created_at s \<le> s_updated_at s)) \<and>
   (\<exists>S. dbGetSession (e_uuid e (w_ids w)) (snd (dbCreateSession e name gp w)) = Some S \<and>
        s_created_at S = e_clock e (w_clock w) \<and> s_updated_at S = e_clock e (w_clock w)) \<and>
   (\<forall>s. dbGetSession sid w = Some s \<and> (\<exists>m\<in>set (s_messages s). m_id m = mid) \<longrightarrow>
      (\<exists>F. dbGetSession (e_uuid e (w_ids w))
              (snd (dbForkSessionFromMessage e sid mid newName w)) = Some F \<and>
           s_created_at F = e_clock e (w_clock w) \<and> s_updated_at F = e_clock e (w_clock w))) \<and>
   (\<forall>s. dbGetSession sid w = Some s \<and> s_id s = sid \<longrightarrow>
      (\<exists>s'. dbGetSession sid (dbUpdateSession e sid upd_name upd_prompt w) = Some s' \<and>
            s_created_at s' = s_created_at s \<and> s_updated_at s' = e_clock e (w_clock w)) \<and>
      (\<exists>s'. dbGetSession sid (snd (dbAppendMessage e sid item w)) = Some s' \<and>
            s_created_at s' = s_created_at s \<and> s_updated_at s' = e_clock e (w_clock w)) \<and>
      (\<exists>s'. dbGetSession sid (snd (dbUpsertMessage e sid item w)) = Some s' \<and>
            s_created_at s' = s_created_at s \<and>
            s_updated_at s' =
              e_clock e (if \<exists>m\<in>set (s_messages s). m_id m = t_id item then w_clock w
                         else Suc (w_clock w))) \<and>
      ((\<exists>m\<in>set (s_messages s). m_id m = mid) \<longrightarrow>
         (\<exists>s'. dbGetSession sid (snd (dbUpdateMessageContent e sid mid c w)) = Some s' \<and>
               s_created_at s' = s_created_at s \<and> s_updated_at s' = e_clock e (w_clock w)) \<and>
         (\<exists>s'. dbGetSession sid (snd (dbDeleteMessage e sid mid w)) = Some s' \<and>
               s_created_at s' = s_created_at s \<and> s_updated_at s' = e_clock e (w_clock w))))"
proof (intro conjI allI impI)
  assume a: "(\<forall>i j. i \<le> j \<longrightarrow> e_clock e i \<le> e_clock e j) \<and>
    (\<forall>s\<in>stored w. s_created_at s \<le> s_updated_at s \<and> s_created_at s \<le> e_clock e (w_clock w))"
  then have mono: "\<forall>i j. i \<le> j \<longrightarrow> e_clock e i \<le> e_clock e j" by (rule conjunct1)
  from a have "timestamps_ok e w" unfolding timestamps_ok_def by (rule conjunct2)
  from run_timestamps_ok[OF mono this, of ops]
  show "\<forall>s\<in>stored (fold (apply_op e) ops w). s_created_at s \<le> s_updated_at s"
    by (simp add: timestamps_ok_def)
next
  show "\<exists>S. dbGetSession (e_uuid e (w_ids w)) (snd (dbCreateSession e name gp w)) = Some S \<and>
        s_created_at S = e_clock e (w_clock w) \<and> s_updated_at S = e_clock e (w_clock w)"
    by (rule create_writes)
next
  fix s assume "dbGetSession sid w = Some s \<and> (\<exists>m\<in>set (s_messages s). m_id m = mid)"
  then show "\<exists>F. dbGetSession (e_uuid e (w_ids w))
              (snd (dbForkSessionFromMessage e sid mid newName w)) = Some F \<and>
           s_created_at F = e_clock e (w_clock w) \<and> s_updated_at F = e_clock e (w_clock w)"
    using fork_writes[of sid w s mid e newName] by simp
next
  fix s assume "dbGetSession sid w = Some s \<and> s_id s = sid"
  then show "\<exists>s'. dbGetSession sid (dbUpdateSession e sid upd_name upd_prompt w) = Some s' \<and>
            s_created_at s' = s_created_at s \<and> s_updated_at s' = e_clock e (w_clock w)"
    using update_writes[of sid w s e upd_name upd_prompt] by simp
next
  fix s assume "dbGetSession sid w = Some s \<and> s_id s = sid"
  then show "\<exists>s'. dbGetSession sid (snd (dbAppendMessage e sid item w)) = Some s' \<and>
            s_created_at s' = s_created_at s \<and> s_updated_at s' = e_clock e (w_clock w)"
    using append_writes[of sid w s e item] by simp
next
  fix s assume "dbGetSession sid w = Some s \<and> s_id s = sid"
  then show "\<exists>s'. dbGetSession sid (snd (dbUpsertMessage e sid item w)) = Some s' \<and>
            s_created_at s' = s_created_at s \<and>
            s_updated_at s' =
              e_clock e (if \<exists>m\<in>set (s_messages s). m_id m = t_id item then w_clock w
                         else Suc (w_clock w))"
    using upsert_writes[of sid w s e item] by simp
next
  fix s assume "dbGetSession sid w = Some s \<and> s_id s = sid"
    and "\<exists>m\<in>set (s_messages s). m_id m = mid"
  then show "\<exists>s'. dbGetSession sid (snd (dbUpdateMessageContent e sid mid c w)) = Some s' \<and>
               s_created_at s' = s_created_at s \<and> s_updated_at s' = e_clock e (w_clock w)"
    using content_writes[of sid w s mid e c] by simp
next
  fix s assume "dbGetSession sid w = Some s \<and> s_id s = sid"
    and "\<exists>m\<in>set (s_messages s). m_id m = mid"
  then show "\<exists>s'. dbGetSession sid (snd (dbDeleteMessage e sid mid w)) = Some s' \<and>
               s_created_at s' = s_created_at s \<and> s_updated_at s' = e_clock e (w_clock w)"
    using delete_writes[of sid w s mid e] by simp
qed

text \<open>
  Claim C8 as stated fails for a record that was not created by this store's clock.  Import
  stores the records of a bundle as they are.  After importing a session created at 200 and
  updated at 300, which has \<open>created_at \<le> updated_at\<close>, a rename at clock reading 100
  (the readings 100, 101, ... never decrease) leaves it created at 200 and updated at 100.
\<close>

theorem store_ops_imported_record_counterexample:
  "map (\<lambda>s. (s_id s, s_created_at s, s_updated_at s))
     (os_getAll (w_sessions (snd (dbImportBundle ex_future_bundle ex_world)))) =
     [(js ''s1'', 200, 300)] \<and>
   fst (dbImportBundle ex_future_bundle ex_world) = Inr () \<and>
   e_clock ex_env 0 = 100 \<and> e_clock ex_env 1 = 101 \<and>
   map (\<lambda>s. (s_id s, s_created_at s, s_updated_at s))
     (os_getAll (w_sessions
        (dbUpdateSession ex_env (js ''s1'') (Some (js ''renamed'')) None
           (snd (dbImportBundle ex_future_bundle ex_world))))) =
     [(js ''s1'', 200, 100)] \<and>
   \<not> list_all (\<lambda>s. s_created_at s \<le> s_updated_at s)
     (os_getAll (w_sessions
        (dbUpdateSession ex_env (js ''s1'') (Some (js ''renamed'')) None
           (snd (dbImportBundle ex_future_bundle ex_world)))))"
  by (simp add: ex_future_bundle_def ex_world_def ex_session_def ex_env_def dbImportBundle_def
        dbUpdateSession_def dbGetSession_def date_now_def put_session_def os_clear_def
        os_getAll_def Let_def js_def)

text \<open>
  The theorem at the example store and a run of all seven operations, and each rewriting
  operation at the example store.
\<close>

theorem store_ops_keep_updated_after_created_witness:
  "e_clock ex_env 0 \<le> e_clock ex_env 1 \<and>
   map (\<lambda>s. (s_id s, s_created_at s, s_updated_at s)) (os_getAll (w_sessions ex_world)) =
     [(js ''s1'', 10, 20)] \<and>
   e_clock ex_env (w_clock ex_world) = 100 \<and>
   map (\<lambda>s. (s_id s, s_created_at s, s_updated_at s))
     (os_getAll (w_sessions (fold (apply_op ex_env) ex_ops ex_world))) =
     [(js ''s1'', 10, 107), (js ''u'', 100, 100), (js ''u--'', 108, 108)] \<and>
   list_all (\<lambda>s. s_created_at s \<le> s_updated_at s)
     (os_getAll (w_sessions (fold (apply_op ex_env) ex_ops ex_world))) \<and>
   (\<exists>s'. dbGetSession (js ''s1'') (dbUpdateSession ex_env (js ''s1'') (Some (js ''renamed'')) None ex_world)
            = Some s' \<and> s_created_at s' = 10 \<and> s_updated_at s' = 100) \<and>
   (\<exists>s'. dbGetSession (js ''s1'')
            (snd (dbUpsertMessage ex_env (js ''s1'') (UserItem (js ''m9'') [] None) ex_world))
            = Some s' \<and> s_created_at s' = 10 \<and> s_updated_at s' = 101) \<and>
   (\<exists>s'. dbGetSession (js ''s1'')
            (snd (dbUpsertMessage ex_env (js ''s1'') (UserItem (js ''m2'') [] None) ex_world))
            = Some s' \<and> s_created_at s' = 10 \<and> s_updated_at s' = 100) \<and>
   (\<exists>s'. dbGetSession (js ''s1'')
            (snd (dbUpdateMessageContent ex_env (js ''s1'') (js ''m2'') (js ''z'') ex_world))
            = Some s' \<and> s_created_at s' = 10 \<and> s_updated_at s' = 100) \<and>
   (\<exists>S. dbGetSession (js ''u'') (snd (dbCreateSession ex_env (js ''new'') [] ex_world)) = Some S \<and>
        s_created_at S = 100 \<and> s_updated_at S = 100)"
proof -
  have h1: "\<forall>i j. i \<le> j \<longrightarrow> e_clock ex_env i \<le> e_clock ex_env j"
    by (simp add: ex_env_def)
  have h2: "\<forall>s\<in>stored ex_world. s_created_at s \<le> s_updated_at s \<and>
        s_created_at s \<le> e_clock ex_env (w_clock ex_world)"
    by (simp add: stored_def os_getAll_def ex_world_def ex_session_def ex_env_def)
  from store_ops_keep_updated_after_created[where e = ex_env and w = ex_world and ops = ex_ops,
         THEN conjunct1, THEN mp, OF conjI[OF h1 h2]]
  have c: "list_all (\<lambda>s. s_created_at s \<le> s_updated_at s)
     (os_getAll (w_sessions (fold (apply_op ex_env) ex_ops ex_world)))"
    by (simp only: stored_def list_all_iff)
  have v0: "e_clock ex_env 0 \<le> e_clock ex_env 1" by (simp add: ex_env_def)
  have v1: "map (\<lambda>s. (s_id s, s_created_at s, s_updated_at s)) (os_getAll (w_sessions ex_world)) =
     [(js ''s1'', 10, 20)]"
    by (simp add: os_getAll_def ex_world_def ex_session_def)
  have v2: "e_clock ex_env (w_clock ex_world) = 100"
    by (simp add: ex_env_def ex_world_def)
  have v: "map (\<lambda>s. (s_id s, s_created_at s, s_updated_at s))
     (os_getAll (w_sessions (fold (apply_op ex_env) ex_ops ex_world))) =
     [(js ''s1'', 10, 107), (js ''u'', 100, 100), (js ''u--'', 108, 108)]"
    by (simp add: ex_ops_def ex_world_def ex_session_def ex_env_def os_getAll_def
          dbCreateSession_def dbAppendMessage_def dbDeleteMessage_def dbForkSessionFromMessage_def
          dbUpdateSession_def dbUpsertMessage_def dbUpdateMessageContent_def
          dbGetSession_def date_now_def db_newId_def put_session_def Let_def js_def)
  have g: "dbGetSession (js ''s1'') ex_world = Some ex_session \<and> s_id ex_session = js ''s1''"
    by (simp add: dbGetSession_def ex_world_def ex_session_def)
  have k: "s_created_at ex_session = 10" "Suc (w_clock ex_world) = 1" "e_clock ex_env 1 = 101"
    "e_uuid ex_env (w_ids ex_world) = js ''u''"
    "\<not> (\<exists>m\<in>set (s_messages ex_session). m_id m = t_id (UserItem (js ''m9'') [] None))"
    "\<exists>m\<in>set (s_messages ex_session). m_id m = t_id (UserItem (js ''m2'') [] None)"
    by (simp_all add: ex_session_def ex_world_def ex_env_def js_def)
  have m2: "\<exists>m\<in>set (s_messages ex_session). m_id m = js ''m2''"
    by (simp add: ex_session_def)
  have u: "\<exists>s'. dbGetSession (js ''s1'') (dbUpdateSession ex_env (js ''s1'') (Some (js ''renamed'')) None ex_world)
            = Some s' \<and> s_created_at s' = 10 \<and> s_updated_at s' = 100"
    using store_ops_keep_updated_after_created[where e = ex_env and w = ex_world
            and sid = "js ''s1''" and upd_name = "Some (js ''renamed'')" and upd_prompt = None,
            THEN conjunct2, THEN conjunct2, THEN conjunct2, rule_format, OF g, THEN conjunct1]
    by (simp only: k v2)
  have p1: "\<exists>s'. dbGetSession (js ''s1'')
            (snd (dbUpsertMessage ex_env (js ''s1'') (UserItem (js ''m9'') [] None) ex_world))
            = Some s' \<and> s_created_at s' = 10 \<and> s_updated_at s' = 101"
    using store_ops_keep_updated_after_created[where e = ex_env and w = ex_world
            and sid = "js ''s1''" and item = "UserItem (js ''m9'') [] None",
            THEN conjunct2, THEN conjunct2, THEN conjunct2, rule_format, OF g,
            THEN conjunct2, THEN conjunct2, THEN conjunct1]
    by (simp only: k v2 if_False)
  have p2: "\<exists>s'. dbGetSession (js ''s1'')
            (snd (dbUpsertMessage ex_env (js ''s1'') (UserItem (js ''m2'') [] None) ex_world))
            = Some s' \<and> s_created_at s' = 10 \<and> s_updated_at s' = 100"
    using store_ops_keep_updated_after_created[where e = ex_env and w = ex_world
            and sid = "js ''s1''" and item = "UserItem (js ''m2'') [] None",
            THEN conjunct2, THEN conjunct2, THEN conjunct2, rule_format, OF g,
            THEN conjunct2, THEN conjunct2, THEN conjunct1]
    by (simp only: k v2 if_True)
  have q: "\<exists>s'. dbGetSession (js ''s1'')
            (snd (dbUpdateMessageContent ex_env (js ''s1'') (js ''m2'') (js ''z'') ex_world))
            = Some s' \<and> s_created_at s' = 10 \<and> s_updated_at s' = 100"
    using store_ops_keep_updated_after_created[where e = ex_env and w = ex_world
            and sid = "js ''s1''" and mid = "js ''m2''" and c = "js ''z''",
            THEN conjunct2, THEN conjunct2, THEN conjunct2, rule_format, OF g,
            THEN conjunct2, THEN conjunct2, THEN conjunct2, THEN mp, OF m2, THEN conjunct1]
    by (simp only: k v2)
  have cr: "\<exists>S. dbGetSession (js ''u'') (snd (dbCreateSession ex_env (js ''new'') [] ex_world)) = Some S \<and>
        s_created_at S = 100 \<and> s_updated_at S = 100"
    using store_ops_keep_updated_after_created[where e = ex_env and w = ex_world
            and name = "js ''new''" and gp = "[]", THEN conjunct2, THEN conjunct1]
    by (simp only: k v2)
  show ?thesis
    by (rule conjI[OF v0 conjI[OF v1 conjI[OF v2 conjI[OF v conjI[OF c conjI[OF u conjI[OF p1
          conjI[OF p2 conjI[OF q cr]]]]]]]]])
qed

section \<open>Building the request messages\<close>

lemma js_trim_Nil: "js_trim [] = []"
  by (simp add: js_trim_def)

lemma history_entries_map:
  "history_entries a h = map (history_entry a) (filter (\<lambda>i. \<not> is_system i) h)"
  by (induction h) simp_all

lemma isTargetAgent_iff:
  "isTargetAgent a item \<longleftrightarrow> (\<exists>i c im st. item = AgentItem i (a_name a) c im st)"
  by (cases item) auto

lemma speakerForItem_cases:
  "speakerForItem item =
     (case item of UserItem _ _ _ \<Rightarrow> [0x7528, 0x6237] | AgentItem _ sp _ _ _ \<Rightarrow> sp
      | SystemItem _ _ \<Rightarrow> js ''System'')"
  by (cases item) (simp_all add: user_speaker_def)

lemma image_url_cases:
  "image_url i = (if take 5 i = js ''data:'' then i else js ''data:image/png;base64,'' @ i)"
proof -
  have "length (js ''data:'') = 5" by (simp add: js_def)
  then show ?thesis by (simp only: image_url_def startsWith_def)
qed

lemma history_entry_written_out:
  "history_entry a item =
     \<lparr> role = (if \<exists>i c im st. item = AgentItem i (a_name a) c im st then RoleAssistant
                else RoleUser),
       content =
         (let label = (if \<exists>i c im st. item = AgentItem i (a_name a) c im st then []
                       else js ''['' @
                            (case item of UserItem _ _ _ \<Rightarrow> [0x7528, 0x6237]
                             | AgentItem _ sp _ _ _ \<Rightarrow> sp
                             | SystemItem _ _ \<Rightarrow> js ''System'') @
                            js '']: '')
          in case item_images item of
               Some (img # imgs) \<Rightarrow>
                 Parts ((if js_trim (t_content item) \<noteq> []
                         then [TextPart (label @ js_trim (t_content item))] else []) @
                        map (\<lambda>i. ImageUrlPart (if take 5 i = js ''data:'' then i
                                                 else js ''data:image/png;base64,'' @ i))
                          (img # imgs))
             | _ \<Rightarrow> Plain (label @ t_content item)) \<rparr>"
  unfolding history_entry_def Let_def isTargetAgent_iff[symmetric] speakerForItem_cases[symmetric]
    image_url_cases[symmetric]
  by (simp split: option.splits list.splits)

lemma systemContent_written_out:
  "systemContent a g =
     (case g of
        None \<Rightarrow> a_system_prompt a
      | Some p \<Rightarrow>
          if js_trim p \<noteq> []
          then a_system_prompt a @
               [0x000A, 0x000A, 0x005B, 0x5F53, 0x524D, 0x8BA8, 0x8BBA, 0x7EC4, 0x7684, 0x5168,
                0x5C40, 0x8BBE, 0x5B9A, 0x002F, 0x80CC, 0x666F, 0x005D, 0x003A, 0x000A] @
               js_trim p
          else a_system_prompt a)"
  by (auto simp: systemContent_def global_prompt_header_def js_trim_Nil split: option.splits)

text \<open>
  Claim C5, as the adapter implements it.  \<^verbatim>\<open>buildOpenAiMessages\<close> returns a system
  message followed by one entry per history item that is not of kind system, in order.

  The system message is the agent's system prompt alone when the global prompt is absent or
  blank (empty after trimming white space), and otherwise the system prompt followed by the
  delimiter and the trimmed global prompt.  The delimiter is written out by its code units:
  two line feeds, a left bracket, the caption U+5F53 U+524D U+8BA8 U+8BBA U+7EC4 U+7684
  U+5168 U+5C40 U+8BBE U+5B9A, a slash, U+80CC U+666F, a right bracket, a colon and a line
  feed.

  An entry has role assistant exactly when its item is an agent message whose speaker is
  the target agent's name, and role user otherwise.  Its label is empty for such an item and
  otherwise the speaker in brackets followed by a colon and a space, the speaker of a user
  message being U+7528 U+6237 and that of an agent message its speaker field.  For an item
  without images the entry's content is the label followed by the item's content.  For an
  item with images the content is a list of parts: a text part, the label followed by the
  trimmed content, only when the trimmed content is not empty, and then one image part per
  image, a data URL kept as it is and anything else prefixed as base64 PNG data.  So an item
  with images and blank content gives an entry of image parts only, without a label.
\<close>

theorem buildOpenAiMessages_shape:
  "buildOpenAiMessages a g h =
     \<lparr> role = RoleSystem,
       content = Plain (case g of
                          None \<Rightarrow> a_system_prompt a
                        | Some p \<Rightarrow>
                            if js_trim p \<noteq> []
                            then a_system_prompt a @
                                 [0x000A, 0x000A, 0x005B, 0x5F53, 0x524D, 0x8BA8, 0x8BBA, 0x7EC4,
                                  0x7684, 0x5168, 0x5C40, 0x8BBE, 0x5B9A, 0x002F, 0x80CC, 0x666F,
                                  0x005D, 0x003A, 0x000A] @
                                 js_trim p
                            else a_system_prompt a) \<rparr>
     # map (\<lambda>item.
          \<lparr> role = (if \<exists>i c im st. item = AgentItem i (a_name a) c im st then RoleAssistant
                     else RoleUser),
            content =
              (let label = (if \<exists>i c im st. item = AgentItem i (a_name a) c im st then []
                            else js ''['' @
                                 (case item of UserItem _ _ _ \<Rightarrow> [0x7528, 0x6237]
                                  | AgentItem _ sp _ _ _ \<Rightarrow> sp
                                  | SystemItem _ _ \<Rightarrow> js ''System'') @
                                 js '']: '')
               in case item_images item of
                    Some (img # imgs) \<Rightarrow>
                      Parts ((if js_trim (t_content item) \<noteq> []
                              then [TextPart (label @ js_trim (t_content item))] else []) @
                             map (\<lambda>i. ImageUrlPart (if take 5 i = js ''data:'' then i
                                                      else js ''data:image/png;base64,'' @ i))
                               (img # imgs))
                  | _ \<Rightarrow> Plain (label @ t_content item)) \<rparr>)
         (filter (\<lambda>item. \<not> is_system item) h)"
  unfolding buildOpenAiMessages_def history_entries_map systemContent_written_out
  by (simp add: history_entry_written_out)

text \<open>
  Claim C5 as stated fails for a global prompt that is not empty but blank: with the one
  space as global prompt nothing is appended, and the system message is the system prompt
  alone.
\<close>

theorem buildOpenAiMessages_blank_prompt_counterexample:
  "[0x0020] \<noteq> ([] :: jsstring) \<and>
   buildOpenAiMessages ex_agent (Some [0x0020]) [] =
     [\<lparr> role = RoleSystem, content = Plain (a_system_prompt ex_agent) \<rparr>]"
  by (simp add: buildOpenAiMessages_def systemContent_def js_trim_def is_js_space_def)

text \<open>
  The theorem at a history with a system note, a message of the target agent, messages of
  the user and of another agent, a user message with an image, and a message of another
  agent with an image and blank content; the global prompt has white space around it.
\<close>

theorem buildOpenAiMessages_shape_witness:
  "buildOpenAiMessages ex_agent (Some (js '' be brief '')) ex_history =
     [\<lparr> role = RoleSystem,
        content = Plain (js ''You are Bot.'' @
                         [0x000A, 0x000A, 0x005B, 0x5F53, 0x524D, 0x8BA8, 0x8BBA, 0x7EC4,
                          0x7684, 0x5168, 0x5C40, 0x8BBE, 0x5B9A, 0x002F, 0x80CC, 0x666F,
                          0x005D, 0x003A, 0x000A] @ js ''be brief'') \<rparr>,
      \<lparr> role = RoleUser,
        content = Plain ([0x005B, 0x7528, 0x6237, 0x005D, 0x003A, 0x0020] @ js ''hi @Bot'') \<rparr>,
      \<lparr> role = RoleAssistant, content = Plain (js ''hello'') \<rparr>,
      \<lparr> role = RoleUser, content = Plain (js ''[Ann]: yo'') \<rparr>,
      \<lparr> role = RoleUser,
        content = Parts [TextPart ([0x005B, 0x7528, 0x6237, 0x005D, 0x003A, 0x0020] @ js ''pic''),
                         ImageUrlPart (js ''data:image/png;base64,abc'')] \<rparr>,
      \<lparr> role = RoleUser,
        content = Parts [ImageUrlPart (js ''data:image/jpeg;base64,xyz'')] \<rparr>]"
  unfolding buildOpenAiMessages_shape
  by (simp add: ex_agent_def ex_history_def js_trim_def is_js_space_def js_def Let_def)

section \<open>Extracting mentions\<close>

lemma set_keep_first: "set (keep_first xs) = set xs"
  by (induction xs rule: keep_first.induct) auto

lemma distinct_keep_first: "distinct (keep_first xs)"
  by (induction xs rule: keep_first.induct) (auto simp: set_keep_first)

lemma mention_matches_shape:
  "m \<in> set (mention_matches s) \<Longrightarrow>
   \<exists>n. m = 0x0040 # n \<and> n \<noteq> [] \<and> (\<forall>c\<in>set n. is_name_char c)"
proof (induction s rule: mention_matches.induct)
  case 1
  then show ?case by simp
next
  case (2 c cs)
  show ?case
  proof (cases "c = 0x0040 \<and> takeWhile is_name_char cs \<noteq> []")
    case True
    with "2.prems" have "m = c # takeWhile is_name_char cs \<or> m \<in> set (mention_matches (dropWhile is_name_char cs))"
      by simp
    then show ?thesis
    proof
      assume "m = c # takeWhile is_name_char cs"
      with True show ?thesis by (auto dest: set_takeWhileD)
    next
      assume "m \<in> set (mention_matches (dropWhile is_name_char cs))"
      with "2.IH"(1) True show ?thesis by blast
    qed
  next
    case False
    with "2.prems" have "m \<in> set (mention_matches cs)" by auto
    with "2.IH"(2) False show ?thesis by blast
  qed
qed

lemma mention_loop_spec:
  "seen = set acc \<Longrightarrow>
   mention_loop A ms acc seen =
     acc @ keep_first (filter (\<lambda>n. n \<in> A \<and> n \<notin> set acc) (map (drop 1) ms))"
proof (induction ms arbitrary: acc seen)
  case Nil
  then show ?case by simp
next
  case (Cons raw ms)
  let ?name = "drop 1 raw"
  show ?case
  proof (cases "?name \<in> A \<and> ?name \<notin> seen")
    case False
    with Cons.prems Cons.IH[of seen acc] show ?thesis by (auto simp: Let_def)
  next
    case True
    have s: "insert ?name seen = set (acc @ [?name])" using Cons.prems by simp
    have f: "filter (\<lambda>n. n \<in> A \<and> n \<notin> set (acc @ [?name])) (map (drop 1) ms) =
             filter (\<lambda>y. y \<noteq> ?name) (filter (\<lambda>n. n \<in> A \<and> n \<notin> set acc) (map (drop 1) ms))"
      by (auto simp: filter_filter intro: filter_cong)
    from True Cons.prems have "mention_loop A (raw # ms) acc seen =
        mention_loop A ms (acc @ [?name]) (insert ?name seen)"
      by (simp add: Let_def)
    also have "\<dots> = (acc @ [?name]) @
        keep_first (filter (\<lambda>n. n \<in> A \<and> n \<notin> set (acc @ [?name])) (map (drop 1) ms))"
      by (rule Cons.IH[OF s])
    also have "\<dots> = acc @ ?name #
        keep_first (filter (\<lambda>y. y \<noteq> ?name) (filter (\<lambda>n. n \<in> A \<and> n \<notin> set acc) (map (drop 1) ms)))"
      unfolding f by simp
    also have "\<dots> = acc @ keep_first (filter (\<lambda>n. n \<in> A \<and> n \<notin> set acc) (map (drop 1) (raw # ms)))"
      using True Cons.prems by simp
    finally show ?thesis .
  qed
qed

lemma parseMentionedAgents_keep_first:
  "parseMentionedAgents message agents =
     keep_first (filter (\<lambda>n. n \<in> set (map a_name agents)) (mention_tokens message))"
proof (cases "mention_matches message = []")
  case True
  then show ?thesis by (simp add: parseMentionedAgents_def mention_tokens_def)
next
  case False
  then show ?thesis
    using mention_loop_spec[of "{}" "[]" "set (map a_name agents)" "mention_matches message"]
    by (simp add: parseMentionedAgents_def mention_tokens_def Let_def)
qed

lemma sendMessage_no_mention:
  assumes "p_activeSessionId p = Some sid" "sid \<noteq> []"
    and "parseMentionedAgents message (p_agents p) = []"
  shows "sendMessage e p message images st =
     st\<lparr> c_transcript := c_transcript st @
            [UserItem (e_uuid e (w_ids (c_db st))) (user_content message images) (Some images)],
         c_isLoading := False,
         c_controller := False,
         c_db := snd (dbAppendMessage e sid
                   (UserItem (e_uuid e (w_ids (c_db st))) (user_content message images) (Some images))
                   ((c_db st)\<lparr>w_ids := Suc (w_ids (c_db st))\<rparr>)) \<rparr>"
  using assms by (simp add: sendMessage_def newId_def db_newId_def Let_def)

text \<open>
  Claim C4.  \<^verbatim>\<open>parseMentionedAgents\<close> returns the mention tokens of the text (each match
  of the pattern is an at sign followed by a non-empty run of name characters; the token
  is the run) that are names of agents in the given list, in order of first occurrence
  and without duplicates; tokens that name no known agent are dropped.  When the result is
  empty, \<^verbatim>\<open>sendMessage\<close> (with an active session) appends the user message to the
  transcript, hands it to \<^verbatim>\<open>dbAppendMessage\<close>, and does nothing else: the list of
  requests made to the LLM is unchanged.
\<close>

theorem parseMentionedAgents_known_unique_ordered:
  "parseMentionedAgents message agents =
     keep_first (filter (\<lambda>n. n \<in> set (map a_name agents)) (mention_tokens message)) \<and>
   distinct (parseMentionedAgents message agents) \<and>
   set (parseMentionedAgents message agents) = set (mention_tokens message) \<inter> set (map a_name agents) \<and>
   (\<forall>m\<in>set (mention_matches message).
      \<exists>n. m = 0x0040 # n \<and> n \<noteq> [] \<and> (\<forall>c\<in>set n. is_name_char c)) \<and>
   (p_activeSessionId p = Some sid \<and> sid \<noteq> [] \<and> parseMentionedAgents message (p_agents p) = [] \<longrightarrow>
      c_requests (sendMessage e p message images st) = c_requests st \<and>
      sendMessage e p message images st =
        st\<lparr> c_transcript := c_transcript st @
               [UserItem (e_uuid e (w_ids (c_db st))) (user_content message images) (Some images)],
            c_isLoading := False,
            c_controller := False,
            c_db := snd (dbAppendMessage e sid
                      (UserItem (e_uuid e (w_ids (c_db st))) (user_content message images) (Some images))
                      ((c_db st)\<lparr>w_ids := Suc (w_ids (c_db st))\<rparr>)) \<rparr>)"
proof (intro conjI impI ballI)
  show eq: "parseMentionedAgents message agents =
     keep_first (filter (\<lambda>n. n \<in> set (map a_name agents)) (mention_tokens message))"
    by (rule parseMentionedAgents_keep_first)
  show "distinct (parseMentionedAgents message agents)"
    unfolding eq by (rule distinct_keep_first)
  show "set (parseMentionedAgents message agents) =
          set (mention_tokens message) \<inter> set (map a_name agents)"
    unfolding eq by (auto simp: set_keep_first)
next
  fix m assume "m \<in> set (mention_matches message)"
  then show "\<exists>n. m = 0x0040 # n \<and> n \<noteq> [] \<and> (\<forall>c\<in>set n. is_name_char c)"
    by (rule mention_matches_shape)
next
  assume a: "p_activeSessionId p = Some sid \<and> sid \<noteq> [] \<and>
             parseMentionedAgents message (p_agents p) = []"
  then have a1: "p_activeSessionId p = Some sid" and a2: "sid \<noteq> []"
    and a3: "parseMentionedAgents message (p_agents p) = []" by simp_all
  show "sendMessage e p message images st =
        st\<lparr> c_transcript := c_transcript st @
               [UserItem (e_uuid e (w_ids (c_db st))) (user_content message images) (Some images)],
            c_isLoading := False,
            c_controller := False,
            c_db := snd (dbAppendMessage e sid
                      (UserItem (e_uuid e (w_ids (c_db st))) (user_content message images) (Some images))
                      ((c_db st)\<lparr>w_ids := Suc (w_ids (c_db st))\<rparr>)) \<rparr>"
    by (rule sendMessage_no_mention[OF a1 a2 a3])
  then show "c_requests (sendMessage e p message images st) = c_requests st"
    by simp
qed

lemma ex_parse:
  "parseMentionedAgents (js ''@Ann hi @Bob-1, @Ann @Zed'') ex_agents = [js ''Ann'', js ''Bob-1'']"
  by (simp add: parseMentionedAgents_def ex_agents_def ex_agent_def is_name_char_def js_def Let_def)

lemma ex_parse_cjk:
  "mention_matches [0x0040, 0x4EA7, 0x54C1, 0x0020, 0x0040, 0x0021, 0x0061, 0x0040, 0x0062]
     = [[0x0040, 0x4EA7, 0x54C1], [0x0040, 0x0062]]"
  by (simp add: is_name_char_def)

text \<open>
  The theorem at a text with an unknown mention only, and at a text that mentions one agent
  twice, another once, and an unknown name.
\<close>

theorem parseMentionedAgents_known_unique_ordered_witness:
  "p_activeSessionId ex_props = Some (js ''s1'') \<and> js ''s1'' \<noteq> [] \<and>
   parseMentionedAgents (js ''@Nobody hi'') (p_agents ex_props) = [] \<and>
   c_requests (sendMessage ex_env ex_props (js ''@Nobody hi'') [] ex_chat) = [] \<and>
   c_transcript (sendMessage ex_env ex_props (js ''@Nobody hi'') [] ex_chat) =
     [UserItem (js ''u'') (js ''@Nobody hi'') (Some [])] \<and>
   js ''@Ann'' \<in> set (mention_matches (js ''@Ann hi @Bob-1, @Ann @Zed'')) \<and>
   parseMentionedAgents (js ''@Ann hi @Bob-1, @Ann @Zed'') ex_agents = [js ''Ann'', js ''Bob-1''] \<and>
   distinct (parseMentionedAgents (js ''@Ann hi @Bob-1, @Ann @Zed'') ex_agents)"
proof -
  have h1: "p_activeSessionId ex_props = Some (js ''s1'')" by (simp add: ex_props_def)
  have h2: "js ''s1'' \<noteq> []" by (simp add: js_def)
  have h3: "parseMentionedAgents (js ''@Nobody hi'') (p_agents ex_props) = []"
    by (simp add: parseMentionedAgents_def ex_props_def ex_agents_def ex_agent_def
          is_name_char_def js_def Let_def)
  have h4: "js ''@Ann'' \<in> set (mention_matches (js ''@Ann hi @Bob-1, @Ann @Zed''))"
    by (simp add: is_name_char_def js_def)
  note T = parseMentionedAgents_known_unique_ordered
  note S = T[of "js ''@Nobody hi''" ex_agents ex_props "js ''s1''" ex_env "[]" ex_chat,
             THEN conjunct2, THEN conjunct2, THEN conjunct2, THEN conjunct2, rule_format,
             OF conjI[OF h1 conjI[OF h2 h3]]]
  have r1: "c_requests (sendMessage ex_env ex_props (js ''@Nobody hi'') [] ex_chat) = []"
    using S[THEN conjunct1] by (simp add: ex_chat_def)
  from S[THEN conjunct2]
  have "c_transcript (sendMessage ex_env ex_props (js ''@Nobody hi'') [] ex_chat) =
     c_transcript ex_chat @
       [UserItem (e_uuid ex_env (w_ids (c_db ex_chat))) (user_content (js ''@Nobody hi'') []) (Some [])]"
    by simp
  then have r2: "c_transcript (sendMessage ex_env ex_props (js ''@Nobody hi'') [] ex_chat) =
     [UserItem (js ''u'') (js ''@Nobody hi'') (Some [])]"
    by (simp add: ex_chat_def ex_env_def ex_world_def user_content_def js_def)
  have r3: "distinct (parseMentionedAgents (js ''@Ann hi @Bob-1, @Ann @Zed'') ex_agents)"
    by (rule T[of _ _ ex_props "[]" ex_env "[]" ex_chat, THEN conjunct2, THEN conjunct1])
  show ?thesis
    by (rule conjI[OF h1 conjI[OF h2 conjI[OF h3 conjI[OF r1 conjI[OF r2 conjI[OF h4 conjI[OF ex_parse r3]]]]]]])
qed

section \<open>The user message of an empty text\<close>

lemma parse_empty_message: "parseMentionedAgents [] agents = []"
  by (simp add: parseMentionedAgents_def)

lemma user_content_empty:
  "user_content [] images = (if images \<noteq> [] then image_placeholder else [])"
  by (simp add: user_content_def)

lemma dbAppendMessage_found:
  assumes "dbGetSession sid w = Some s"
  shows "dbAppendMessage e sid item w =
     (Inr (if t_id item \<noteq> [] then t_id item else e_uuid e (w_ids w)),
      put_session
        (s\<lparr> s_updated_at := e_clock e (w_clock w),
            s_messages := s_messages s @
              [toStoredMessage
                 (item_with_id (if t_id item \<noteq> [] then t_id item else e_uuid e (w_ids w)) item)
                 (e_clock e (w_clock w))] \<rparr>)
        (if t_id item \<noteq> [] then w\<lparr>w_clock := Suc (w_clock w)\<rparr>
         else w\<lparr>w_clock := Suc (w_clock w), w_ids := Suc (w_ids w)\<rparr>))"
  using assms by (simp add: dbAppendMessage_def date_now_def db_newId_def Let_def)

lemma dbGetSession_ids_upd [simp]: "dbGetSession sid (w\<lparr>w_ids := n\<rparr>) = dbGetSession sid w"
  by (simp add: dbGetSession_def)

lemma addMessageOnly_run:
  assumes "p_activeSessionId p = Some sid" "sid \<noteq> []"
  shows "snd (addMessageOnly e p message images st) =
     st\<lparr> c_transcript := c_transcript st @
            [UserItem (e_uuid e (w_ids (c_db st))) (user_content message images) (Some images)],
         c_db := snd (dbAppendMessage e sid
                   (UserItem (e_uuid e (w_ids (c_db st))) (user_content message images) (Some images))
                   ((c_db st)\<lparr>w_ids := Suc (w_ids (c_db st))\<rparr>)) \<rparr>"
  using assms
  by (simp add: addMessageOnly_def newId_def db_newId_def Let_def split: prod.splits sum.splits)

lemma empty_text_run:
  assumes "p_activeSessionId p = Some sid" "sid \<noteq> []"
    and "dbGetSession sid (c_db st) = Some s" "s_id s = sid"
  shows "c_transcript (sendMessage e p [] images st) =
           c_transcript st @
             [UserItem (e_uuid e (w_ids (c_db st)))
                (if images \<noteq> [] then image_placeholder else []) (Some images)] \<and>
         c_transcript (snd (addMessageOnly e p [] images st)) =
           c_transcript st @
             [UserItem (e_uuid e (w_ids (c_db st)))
                (if images \<noteq> [] then image_placeholder else []) (Some images)] \<and>
         (\<exists>s' mid. dbGetSession sid (c_db (sendMessage e p [] images st)) = Some s' \<and>
            s_messages s' = s_messages s @
              [StoredUser mid (if images \<noteq> [] then image_placeholder else []) (Some images)
                 (e_clock e (w_clock (c_db st)))]) \<and>
         (\<exists>s' mid. dbGetSession sid (c_db (snd (addMessageOnly e p [] images st))) = Some s' \<and>
            s_messages s' = s_messages s @
              [StoredUser mid (if images \<noteq> [] then image_placeholder else []) (Some images)
                 (e_clock e (w_clock (c_db st)))])"
proof -
  let ?uid = "e_uuid e (w_ids (c_db st))"
  let ?c = "if images \<noteq> [] then image_placeholder else []"
  let ?item = "UserItem ?uid ?c (Some images)"
  let ?w = "(c_db st)\<lparr>w_ids := Suc (w_ids (c_db st))\<rparr>"
  have send: "sendMessage e p [] images st =
     st\<lparr> c_transcript := c_transcript st @ [?item], c_isLoading := False, c_controller := False,
         c_db := snd (dbAppendMessage e sid ?item ?w) \<rparr>"
    using sendMessage_no_mention[OF assms(1,2) parse_empty_message, of e images st]
    by (simp only: user_content_empty)
  have add: "snd (addMessageOnly e p [] images st) =
     st\<lparr> c_transcript := c_transcript st @ [?item], c_db := snd (dbAppendMessage e sid ?item ?w) \<rparr>"
    using addMessageOnly_run[OF assms(1,2), of e "[]" images st]
    by (simp only: user_content_empty)
  have get: "dbGetSession sid ?w = Some s" using assms(3) by simp
  obtain mid where mid: "toStoredMessage (item_with_id (if t_id ?item \<noteq> [] then t_id ?item else e_uuid e (w_ids ?w)) ?item)
                 (e_clock e (w_clock ?w)) = StoredUser mid ?c (Some images) (e_clock e (w_clock (c_db st)))"
    by simp
  have db: "\<exists>s' mid. dbGetSession sid (snd (dbAppendMessage e sid ?item ?w)) = Some s' \<and>
            s_messages s' = s_messages s @
              [StoredUser mid ?c (Some images) (e_clock e (w_clock (c_db st)))]"
    unfolding dbAppendMessage_found[OF get] snd_conv mid
    by (cases "t_id ?item \<noteq> []") (simp_all add: dbGetSession_put_session assms(4))
  show ?thesis
    unfolding send add using db by simp
qed

text \<open>
  Claim C9.  With an active session that is stored, \<^verbatim>\<open>sendMessage\<close> and
  \<^verbatim>\<open>addMessageOnly\<close> called with the empty text append to the transcript, and persist as
  the last message of the session, a user message whose content is the placeholder when the
  images list is not empty, and the empty string when it is empty.  The placeholder is
  written out by its code units: a left bracket (U+005B), the two ideographs U+56FE and
  U+7247 (``picture''), and a right bracket (U+005D); it is four code units long, so the
  content of a message with images is never empty.
\<close>

theorem empty_text_user_message_content:
  assumes "p_activeSessionId p = Some sid" "sid \<noteq> []"
    and "dbGetSession sid (c_db st) = Some s" "s_id s = sid"
  shows "c_transcript (sendMessage e p [] images st) =
           c_transcript st @
             [UserItem (e_uuid e (w_ids (c_db st)))
                (if images \<noteq> [] then [0x005B, 0x56FE, 0x7247, 0x005D] else []) (Some images)] \<and>
         c_transcript (snd (addMessageOnly e p [] images st)) =
           c_transcript st @
             [UserItem (e_uuid e (w_ids (c_db st)))
                (if images \<noteq> [] then [0x005B, 0x56FE, 0x7247, 0x005D] else []) (Some images)] \<and>
         (\<exists>s' mid. dbGetSession sid (c_db (sendMessage e p [] images st)) = Some s' \<and>
            s_messages s' = s_messages s @
              [StoredUser mid (if images \<noteq> [] then [0x005B, 0x56FE, 0x7247, 0x005D] else [])
                 (Some images) (e_clock e (w_clock (c_db st)))]) \<and>
         (\<exists>s' mid. dbGetSession sid (c_db (snd (addMessageOnly e p [] images st))) = Some s' \<and>
            s_messages s' = s_messages s @
              [StoredUser mid (if images \<noteq> [] then [0x005B, 0x56FE, 0x7247, 0x005D] else [])
                 (Some images) (e_clock e (w_clock (c_db st)))]) \<and>
         (images \<noteq> [] \<longrightarrow>
            t_content (last (c_transcript (sendMessage e p [] images st))) \<noteq> [] \<and>
            length (t_content (last (c_transcript (sendMessage e p [] images st)))) = 4 \<and>
            t_content (last (c_transcript (snd (addMessageOnly e p [] images st)))) \<noteq> [])"
proof -
  note R = empty_text_run[OF assms, of e images, unfolded image_placeholder_def]
  have nonempty: "images \<noteq> [] \<longrightarrow>
            t_content (last (c_transcript (sendMessage e p [] images st))) \<noteq> [] \<and>
            length (t_content (last (c_transcript (sendMessage e p [] images st)))) = 4 \<and>
            t_content (last (c_transcript (snd (addMessageOnly e p [] images st)))) \<noteq> []"
    by (simp add: R[THEN conjunct1] R[THEN conjunct2, THEN conjunct1])
  show ?thesis
    by (rule conjI[OF R[THEN conjunct1] conjI[OF R[THEN conjunct2, THEN conjunct1]
          conjI[OF R[THEN conjunct2, THEN conjunct2, THEN conjunct1]
            conjI[OF R[THEN conjunct2, THEN conjunct2, THEN conjunct2] nonempty]]]])
qed

theorem empty_text_user_message_content_witness:
  "p_activeSessionId ex_props = Some (js ''s1'') \<and> js ''s1'' \<noteq> [] \<and>
   dbGetSession (js ''s1'') (c_db ex_chat) = Some ex_session \<and> s_id ex_session = js ''s1'' \<and>
   c_transcript (sendMessage ex_env ex_props [] [js ''abc''] ex_chat) =
     [UserItem (js ''u'') [0x005B, 0x56FE, 0x7247, 0x005D] (Some [js ''abc''])] \<and>
   c_transcript (snd (addMessageOnly ex_env ex_props [] [js ''abc''] ex_chat)) =
     [UserItem (js ''u'') [0x005B, 0x56FE, 0x7247, 0x005D] (Some [js ''abc''])] \<and>
   c_transcript (sendMessage ex_env ex_props [] [] ex_chat) =
     [UserItem (js ''u'') [] (Some [])] \<and>
   c_transcript (snd (addMessageOnly ex_env ex_props [] [] ex_chat)) =
     [UserItem (js ''u'') [] (Some [])] \<and>
   (\<exists>s' mid. dbGetSession (js ''s1'') (c_db (sendMessage ex_env ex_props [] [js ''abc''] ex_chat)) = Some s' \<and>
      s_messages s' = s_messages ex_session @
        [StoredUser mid [0x005B, 0x56FE, 0x7247, 0x005D] (Some [js ''abc'']) 100]) \<and>
   (\<exists>s' mid. dbGetSession (js ''s1'') (c_db (snd (addMessageOnly ex_env ex_props [] [js ''abc''] ex_chat))) = Some s' \<and>
      s_messages s' = s_messages ex_session @
        [StoredUser mid [0x005B, 0x56FE, 0x7247, 0x005D] (Some [js ''abc'']) 100]) \<and>
   length (t_content (last (c_transcript (sendMessage ex_env ex_props [] [js ''abc''] ex_chat)))) = 4"
proof -
  have h1: "p_activeSessionId ex_props = Some (js ''s1'')" by (simp add: ex_props_def)
  have h2: "js ''s1'' \<noteq> []" by (simp add: js_def)
  have h3: "dbGetSession (js ''s1'') (c_db ex_chat) = Some ex_session"
    by (simp add: dbGetSession_def ex_chat_def ex_world_def)
  have h4: "s_id ex_session = js ''s1''" by (simp add: ex_session_def)
  note T = empty_text_user_message_content[OF h1 h2 h3 h4, of ex_env]
  have v: "e_uuid ex_env (w_ids (c_db ex_chat)) = js ''u''" "c_transcript ex_chat = []"
    "e_clock ex_env (w_clock (c_db ex_chat)) = 100"
    by (simp_all add: ex_env_def ex_chat_def ex_world_def)
  have ne: "[js ''abc''] \<noteq> []" by simp
  have r1: "c_transcript (sendMessage ex_env ex_props [] [js ''abc''] ex_chat) =
     [UserItem (js ''u'') [0x005B, 0x56FE, 0x7247, 0x005D] (Some [js ''abc''])]"
    using T[of "[js ''abc'']", THEN conjunct1] by (simp add: v)
  have r2: "c_transcript (snd (addMessageOnly ex_env ex_props [] [js ''abc''] ex_chat)) =
     [UserItem (js ''u'') [0x005B, 0x56FE, 0x7247, 0x005D] (Some [js ''abc''])]"
    using T[of "[js ''abc'']", THEN conjunct2, THEN conjunct1] by (simp add: v)
  have r3: "c_transcript (sendMessage ex_env ex_props [] [] ex_chat) =
     [UserItem (js ''u'') [] (Some [])]"
    using T[of "[]", THEN conjunct1] by (simp add: v)
  have r4: "c_transcript (snd (addMessageOnly ex_env ex_props [] [] ex_chat)) =
     [UserItem (js ''u'') [] (Some [])]"
    using T[of "[]", THEN conjunct2, THEN conjunct1] by (simp add: v)
  have r5: "\<exists>s' mid. dbGetSession (js ''s1'') (c_db (sendMessage ex_env ex_props [] [js ''abc''] ex_chat)) = Some s' \<and>
      s_messages s' = s_messages ex_session @
        [StoredUser mid [0x005B, 0x56FE, 0x7247, 0x005D] (Some [js ''abc'']) 100]"
    using T[of "[js ''abc'']", THEN conjunct2, THEN conjunct2, THEN conjunct1] by (simp add: v)
  have r6: "\<exists>s' mid. dbGetSession (js ''s1'') (c_db (snd (addMessageOnly ex_env ex_props [] [js ''abc''] ex_chat))) = Some s' \<and>
      s_messages s' = s_messages ex_session @
        [StoredUser mid [0x005B, 0x56FE, 0x7247, 0x005D] (Some [js ''abc'']) 100]"
    using T[of "[js ''abc'']", THEN conjunct2, THEN conjunct2, THEN conjunct2, THEN conjunct1]
    by (simp add: v)
  have r7: "length (t_content (last (c_transcript (sendMessage ex_env ex_props [] [js ''abc''] ex_chat)))) = 4"
    using T[of "[js ''abc'']", THEN conjunct2, THEN conjunct2, THEN conjunct2, THEN conjunct2,
            rule_format, OF ne]
    by (rule_tac conjunct1[OF conjunct2])
  show ?thesis
    by (rule conjI[OF h1 conjI[OF h2 conjI[OF h3 conjI[OF h4 conjI[OF r1 conjI[OF r2
          conjI[OF r3 conjI[OF r4 conjI[OF r5 conjI[OF r6 r7]]]]]]]]]])
qed

section \<open>Failure and cancellation of an agent call\<close>

lemma fold_map_pointwise: "fold (\<lambda>d prev. map (g d) prev) ds xs = map (fold g ds) xs"
  by (induction ds arbitrary: xs) (simp_all add: comp_def)

lemma fold_append_delta_hit:
  "fold (append_delta mid) ds (AgentItem mid sp c im s) = AgentItem mid sp (c @ concat ds) im s"
  by (induction ds arbitrary: c) simp_all

lemma fold_append_delta_miss: "t_id x \<noteq> mid \<Longrightarrow> fold (append_delta mid) ds x = x"
proof (induction ds)
  case Nil
  then show ?case by simp
next
  case (Cons d ds)
  from Cons.prems have "append_delta mid d x = x" by (cases x) simp_all
  with Cons show ?case by simp
qed

lemma finalize_miss: "t_id x \<noteq> mid \<Longrightarrow> finalize mid full x = x"
  by (cases x) simp_all

lemma llm_call_run:
  "llm_call e agent msgs mid st =
     (o_result (e_llm e (length (c_requests st))),
      st\<lparr> c_requests := c_requests st @ [\<lparr> q_agent = agent, q_messages = msgs \<rparr>],
          c_transcript := (if a_stream agent = Some False then c_transcript st
                           else map (fold (append_delta mid) (o_deltas (e_llm e (length (c_requests st)))))
                                  (c_transcript st)) \<rparr>)"
  by (simp add: llm_call_def Let_def fold_map_pointwise)

lemma during_call_length: "length (during_call agent out mid T) = length T"
  by (simp add: during_call_def)

lemma during_call_fresh:
  assumes "mid \<notin> t_id ` set T"
  shows "during_call agent out mid T = T"
proof -
  from assms have "\<forall>x\<in>set T. t_id x \<noteq> mid" by force
  then have "map (fold (append_delta mid) (o_deltas out)) T = T"
    by (intro map_idI) (simp add: fold_append_delta_miss)
  then show ?thesis by (simp add: during_call_def)
qed

lemma finalize_fresh:
  assumes "mid \<notin> t_id ` set T"
  shows "map (finalize mid full) T = T"
proof -
  from assms have "\<forall>x\<in>set T. t_id x \<noteq> mid" by force
  then show ?thesis by (intro map_idI) (simp add: finalize_miss)
qed

subsection \<open>One round of the loop\<close>

lemma agent_loop_aborted:
  assumes found: "find (\<lambda>a. a_name a = agentName) currentAgents = Some agent"
    and res: "o_result (e_llm e (length (c_requests st))) = Threw err"
    and ab: "err_name err = js ''AbortError''"
  shows "agent_loop e p sid currentAgents (agentName # rest) wh st =
     (Aborted, wh,
      st\<lparr> c_db := (c_db st)\<lparr>w_ids := Suc (w_ids (c_db st))\<rparr>,
          c_requests := c_requests st @
            [\<lparr> q_agent = agent, q_messages = buildOpenAiMessages agent (p_globalPrompt p) wh \<rparr>],
          c_transcript :=
            during_call agent (e_llm e (length (c_requests st))) (e_uuid e (w_ids (c_db st)))
              (c_transcript st) @
            [AgentItem (e_uuid e (w_ids (c_db st))) agentName
               (partial_text agent (e_llm e (length (c_requests st)))) None (Some True)] \<rparr>)"
  using found res ab
  by (simp add: newId_def db_newId_def llm_call_run toAbortErrorName_def Let_def
        during_call_def partial_text_def fold_append_delta_hit)

lemma agent_loop_failed:
  assumes found: "find (\<lambda>a. a_name a = agentName) currentAgents = Some agent"
    and res: "o_result (e_llm e (length (c_requests st))) = Threw err"
    and ab: "err_name err \<noteq> js ''AbortError''"
  shows "agent_loop e p sid currentAgents (agentName # rest) wh st =
     agent_loop e p sid currentAgents rest
       (wh @ [AgentItem (e_uuid e (w_ids (c_db st))) agentName (call_failed @ err_message err) None None])
       (st\<lparr> c_requests := c_requests st @
             [\<lparr> q_agent = agent, q_messages = buildOpenAiMessages agent (p_globalPrompt p) wh \<rparr>],
           c_transcript :=
             map (finalize (e_uuid e (w_ids (c_db st))) (call_failed @ err_message err))
               (during_call agent (e_llm e (length (c_requests st))) (e_uuid e (w_ids (c_db st)))
                  (c_transcript st)) @
             [AgentItem (e_uuid e (w_ids (c_db st))) agentName (call_failed @ err_message err) None
                (Some False)],
           c_db := snd (dbUpsertMessage e sid
                     (AgentItem (e_uuid e (w_ids (c_db st))) agentName (call_failed @ err_message err) None None)
                     ((c_db st)\<lparr>w_ids := Suc (w_ids (c_db st))\<rparr>)) \<rparr>)"
  using found res ab
  by (simp add: newId_def db_newId_def llm_call_run toAbortErrorName_def Let_def
        during_call_def fold_append_delta_hit)

subsection \<open>The loop as a whole\<close>

lemma agent_loop_append:
  "agent_loop e p sid ags (xs @ ys) wh st =
     (case agent_loop e p sid ags xs wh st of
        (Finished, wh', st') \<Rightarrow> agent_loop e p sid ags ys wh' st'
      | (Aborted, wh', st') \<Rightarrow> (Aborted, wh', st'))"
proof (induction xs arbitrary: wh st)
  case Nil
  show ?case by simp
next
  case (Cons x xs)
  show ?case
    by (simp add: Cons.IH Let_def split: option.splits prod.splits)
qed

lemma agent_loop_requests_prefix:
  "\<exists>extra. c_requests (snd (snd (agent_loop e p sid ags names wh st))) = c_requests st @ extra"
proof (induction names arbitrary: wh st)
  case Nil
  show ?case by simp
next
  case (Cons n names)
  from Cons.IH obtain f where
    f: "\<And>wh st. c_requests (snd (snd (agent_loop e p sid ags names wh st))) = c_requests st @ f wh st"
    by metis
  show ?case
    by (simp add: f newId_def db_newId_def llm_call_run Let_def split: option.splits)
qed

lemma agent_loop_first_request:
  assumes found: "find (\<lambda>a. a_name a = n) ags = Some agent"
  shows "\<exists>extra. c_requests (snd (snd (agent_loop e p sid ags (n # names) wh st))) =
           c_requests st @
             \<lparr> q_agent = agent, q_messages = buildOpenAiMessages agent (p_globalPrompt p) wh \<rparr> # extra"
proof -
  from agent_loop_requests_prefix[of e p sid ags names] obtain f where
    f: "\<And>wh st. c_requests (snd (snd (agent_loop e p sid ags names wh st))) = c_requests st @ f wh st"
    by metis
  show ?thesis
    using found by (simp add: f newId_def db_newId_def llm_call_run Let_def)
qed

lemma requests_finish: "c_requests (x\<lparr>c_isLoading := a, c_controller := b\<rparr>) = c_requests x"
  by simp

text \<open>
  \<^verbatim>\<open>sendMessage\<close> with at least one known mention is that loop, started after the user
  message was appended and persisted; the loading flag is cleared however the loop ends.
\<close>

lemma sendMessage_runs_loop:
  assumes "p_activeSessionId p = Some sid" "sid \<noteq> []"
    and "parseMentionedAgents message (p_agents p) \<noteq> []"
  shows "sendMessage e p message images st =
     (snd (snd (agent_loop e p sid (p_agents p) (parseMentionedAgents message (p_agents p))
             (filter (\<lambda>i. \<not> is_system i) (p_transcriptRef p @ [submitted_item e message images st]))
             (submitted e sid message images st))))
       \<lparr> c_isLoading := False, c_controller := False \<rparr>"
  using assms
  by (simp add: sendMessage_def newId_def db_newId_def Let_def submitted_def submitted_item_def)

text \<open>
  Claim C3.  Take a submission to an active session whose text mentions known agents, and
  one of them, \<open>agentName\<close>: the mentioned names are \<open>before @ agentName # rest\<close>, and
  the loop has gone through \<open>before\<close> without a cancellation, arriving with working
  history \<open>wh\<close> in state \<open>stk\<close>.  Suppose the completion requested for \<open>agentName\<close>
  throws.  The marker is written out by its code units: a left bracket, U+8C03 U+7528
  U+5931 U+8D25 (``call failed''), a right bracket and a space.

  If the error is not a cancellation, the placeholder of \<open>agentName\<close> (the last
  transcript item at that point, with the identifier drawn for it) gets the marker followed
  by the error's message as its content and its streaming flag cleared, one request is
  recorded, the entry with the marker is persisted, and \<^verbatim>\<open>sendMessage\<close> goes on
  with \<open>rest\<close>, the working history extended by that entry: its result is what the loop
  over \<open>rest\<close> gives from there, with the loading flag cleared at the end, and when \<open>rest\<close>
  starts with a known agent, the next request recorded is for that agent and built from
  the extended history.

  If the error is a cancellation (its name is \<^verbatim>\<open>AbortError\<close>), \<^verbatim>\<open>sendMessage\<close>
  ends there, whatever \<open>rest\<close> is: its final state is \<open>stk\<close> with one identifier drawn,
  the one request recorded, the placeholder appended with the text streamed so far (none
  for a blocking call) and its streaming flag still set, and the loading flag and the abort
  controller cleared.  No marker is written, no request is made for an agent of \<open>rest\<close>,
  and the sessions store is that of \<open>stk\<close>, so nothing is persisted for the cancelled
  agent.  In both cases the transcript before the placeholder keeps its length, and is
  unchanged when the placeholder's identifier is new to it.
\<close>

theorem agent_call_failure_continues_cancellation_stops:
  assumes "p_activeSessionId p = Some sid" "sid \<noteq> []"
    and "parseMentionedAgents message (p_agents p) = before @ agentName # rest"
    and "agent_loop e p sid (p_agents p) before
           (filter (\<lambda>i. \<not> is_system i) (p_transcriptRef p @ [submitted_item e message images st]))
           (submitted e sid message images st) = (Finished, wh, stk)"
    and "find (\<lambda>a. a_name a = agentName) (p_agents p) = Some agent"
    and "o_result (e_llm e (length (c_requests stk))) = Threw err"
  shows "(err_name err \<noteq> js ''AbortError'' \<longrightarrow>
           (\<exists>st' T'.
              sendMessage e p message images st =
                (snd (snd (agent_loop e p sid (p_agents p) rest
                   (wh @ [AgentItem (e_uuid e (w_ids (c_db stk))) agentName
                        ([0x005B, 0x8C03, 0x7528, 0x5931, 0x8D25, 0x005D, 0x0020] @ err_message err) None None]) st')))
                \<lparr>c_isLoading := False, c_controller := False\<rparr> \<and>
              c_transcript st' =
                T' @ [AgentItem (e_uuid e (w_ids (c_db stk))) agentName
                        ([0x005B, 0x8C03, 0x7528, 0x5931, 0x8D25, 0x005D, 0x0020] @ err_message err) None (Some False)] \<and>
              length T' = length (c_transcript stk) \<and>
              (e_uuid e (w_ids (c_db stk)) \<notin> t_id ` set (c_transcript stk) \<longrightarrow> T' = c_transcript stk) \<and>
              c_requests st' = c_requests stk @
                [\<lparr> q_agent = agent, q_messages = buildOpenAiMessages agent (p_globalPrompt p) wh \<rparr>] \<and>
              c_db st' =
                snd (dbUpsertMessage e sid
                      (AgentItem (e_uuid e (w_ids (c_db stk))) agentName
                        ([0x005B, 0x8C03, 0x7528, 0x5931, 0x8D25, 0x005D, 0x0020] @ err_message err) None None)
                      ((c_db stk)\<lparr>w_ids := Suc (w_ids (c_db stk))\<rparr>)) \<and>
              (\<forall>nextName others nextAgent.
                 rest = nextName # others \<and>
                 find (\<lambda>a. a_name a = nextName) (p_agents p) = Some nextAgent \<longrightarrow>
                 (\<exists>extra. c_requests (sendMessage e p message images st) =
                    c_requests stk @
                    [\<lparr> q_agent = agent, q_messages = buildOpenAiMessages agent (p_globalPrompt p) wh \<rparr>,
                     \<lparr> q_agent = nextAgent,
                       q_messages = buildOpenAiMessages nextAgent (p_globalPrompt p)
                         (wh @ [AgentItem (e_uuid e (w_ids (c_db stk))) agentName
                        ([0x005B, 0x8C03, 0x7528, 0x5931, 0x8D25, 0x005D, 0x0020] @ err_message err) None None]) \<rparr>] @ extra)))) \<and>
         (err_name err = js ''AbortError'' \<longrightarrow>
           (\<exists>T'.
              sendMessage e p message images st =
                stk\<lparr> c_db := (c_db stk)\<lparr>w_ids := Suc (w_ids (c_db stk))\<rparr>,
                     c_requests := c_requests stk @
                       [\<lparr> q_agent = agent, q_messages = buildOpenAiMessages agent (p_globalPrompt p) wh \<rparr>],
                     c_transcript :=
                       T' @ [AgentItem (e_uuid e (w_ids (c_db stk))) agentName
                        (if a_stream agent = Some False then []
                         else concat (o_deltas (e_llm e (length (c_requests stk)))))
                        None (Some True)],
                     c_isLoading := False, c_controller := False \<rparr> \<and>
              length T' = length (c_transcript stk) \<and>
              (e_uuid e (w_ids (c_db stk)) \<notin> t_id ` set (c_transcript stk) \<longrightarrow> T' = c_transcript stk) \<and>
              c_requests (sendMessage e p message images st) = c_requests stk @
                [\<lparr> q_agent = agent, q_messages = buildOpenAiMessages agent (p_globalPrompt p) wh \<rparr>] \<and>
              w_sessions (c_db (sendMessage e p message images st)) = w_sessions (c_db stk)))"
proof (intro conjI impI)
  let ?mid = "e_uuid e (w_ids (c_db stk))"
  let ?out = "e_llm e (length (c_requests stk))"
  let ?req = "\<lparr> q_agent = agent, q_messages = buildOpenAiMessages agent (p_globalPrompt p) wh \<rparr>"
  let ?D = "during_call agent ?out ?mid (c_transcript stk)"
  have ne: "parseMentionedAgents message (p_agents p) \<noteq> []"
    by (simp add: assms(3))
  have S: "sendMessage e p message images st =
     (snd (snd (agent_loop e p sid (p_agents p) (agentName # rest) wh stk)))
       \<lparr>c_isLoading := False, c_controller := False\<rparr>"
    by (simp only: sendMessage_runs_loop[OF assms(1,2) ne] assms(3) agent_loop_append assms(4)
          prod.case loop_exit.case)
  {
    assume nab: "err_name err \<noteq> js ''AbortError''"
    let ?full = "[0x005B, 0x8C03, 0x7528, 0x5931, 0x8D25, 0x005D, 0x0020] @ err_message err"
    have cf: "call_failed @ err_message err = ?full" by (simp add: call_failed_def)
    let ?entry = "AgentItem ?mid agentName ?full None None"
    let ?T = "map (finalize ?mid ?full) ?D"
    let ?st = "stk\<lparr> c_requests := c_requests stk @ [?req],
                    c_transcript := ?T @ [AgentItem ?mid agentName ?full None (Some False)],
                    c_db := snd (dbUpsertMessage e sid ?entry
                                  ((c_db stk)\<lparr>w_ids := Suc (w_ids (c_db stk))\<rparr>)) \<rparr>"
    have run: "agent_loop e p sid (p_agents p) (agentName # rest) wh stk =
                agent_loop e p sid (p_agents p) rest (wh @ [?entry]) ?st"
      using agent_loop_failed[OF assms(5,6) nab, of p sid rest wh] by (simp only: cf)
    have s: "sendMessage e p message images st =
                (snd (snd (agent_loop e p sid (p_agents p) rest (wh @ [?entry]) ?st)))
                \<lparr>c_isLoading := False, c_controller := False\<rparr>"
      by (simp only: S run)
    have t: "c_transcript ?st = ?T @ [AgentItem ?mid agentName ?full None (Some False)]" by simp
    have l: "length ?T = length (c_transcript stk)" by (simp add: during_call_length)
    have f: "?mid \<notin> t_id ` set (c_transcript stk) \<longrightarrow> ?T = c_transcript stk"
      by (simp add: during_call_fresh finalize_fresh)
    have r: "c_requests ?st = c_requests stk @ [?req]" by simp
    have d: "c_db ?st = snd (dbUpsertMessage e sid ?entry
                               ((c_db stk)\<lparr>w_ids := Suc (w_ids (c_db stk))\<rparr>))" by simp
    have n: "\<forall>nextName others nextAgent.
                 rest = nextName # others \<and>
                 find (\<lambda>a. a_name a = nextName) (p_agents p) = Some nextAgent \<longrightarrow>
                 (\<exists>extra. c_requests (sendMessage e p message images st) =
                    c_requests stk @
                    [?req,
                     \<lparr> q_agent = nextAgent,
                       q_messages = buildOpenAiMessages nextAgent (p_globalPrompt p)
                         (wh @ [?entry]) \<rparr>] @ extra)"
    proof (intro allI impI)
      fix nextName others nextAgent
      assume a: "rest = nextName # others \<and>
                 find (\<lambda>a. a_name a = nextName) (p_agents p) = Some nextAgent"
      from agent_loop_first_request[OF a[THEN conjunct2], of e p sid others "wh @ [?entry]" ?st]
      obtain extra where x:
        "c_requests (snd (snd (agent_loop e p sid (p_agents p) (nextName # others) (wh @ [?entry]) ?st))) =
           c_requests ?st @
             \<lparr> q_agent = nextAgent,
               q_messages = buildOpenAiMessages nextAgent (p_globalPrompt p) (wh @ [?entry]) \<rparr> # extra"
        by blast
      have "c_requests (sendMessage e p message images st) =
              c_requests (snd (snd (agent_loop e p sid (p_agents p) (nextName # others) (wh @ [?entry]) ?st)))"
        unfolding s a[THEN conjunct1] by (rule requests_finish)
      also have "\<dots> = c_requests stk @
                    [?req,
                     \<lparr> q_agent = nextAgent,
                       q_messages = buildOpenAiMessages nextAgent (p_globalPrompt p)
                         (wh @ [?entry]) \<rparr>] @ extra"
        unfolding x by simp
      finally show "\<exists>extra. c_requests (sendMessage e p message images st) =
                    c_requests stk @
                    [?req,
                     \<lparr> q_agent = nextAgent,
                       q_messages = buildOpenAiMessages nextAgent (p_globalPrompt p)
                         (wh @ [?entry]) \<rparr>] @ extra"
        by (rule exI)
    qed
    show "\<exists>st' T'.
              sendMessage e p message images st =
                (snd (snd (agent_loop e p sid (p_agents p) rest
                   (wh @ [AgentItem (e_uuid e (w_ids (c_db stk))) agentName
                        ([0x005B, 0x8C03, 0x7528, 0x5931, 0x8D25, 0x005D, 0x0020] @ err_message err) None None]) st')))
                \<lparr>c_isLoading := False, c_controller := False\<rparr> \<and>
              c_transcript st' =
                T' @ [AgentItem (e_uuid e (w_ids (c_db stk))) agentName
                        ([0x005B, 0x8C03, 0x7528, 0x5931, 0x8D25, 0x005D, 0x0020] @ err_message err) None (Some False)] \<and>
              length T' = length (c_transcript stk) \<and>
              (e_uuid e (w_ids (c_db stk)) \<notin> t_id ` set (c_transcript stk) \<longrightarrow> T' = c_transcript stk) \<and>
              c_requests st' = c_requests stk @
                [\<lparr> q_agent = agent, q_messages = buildOpenAiMessages agent (p_globalPrompt p) wh \<rparr>] \<and>
              c_db st' =
                snd (dbUpsertMessage e sid
                      (AgentItem (e_uuid e (w_ids (c_db stk))) agentName
                        ([0x005B, 0x8C03, 0x7528, 0x5931, 0x8D25, 0x005D, 0x0020] @ err_message err) None None)
                      ((c_db stk)\<lparr>w_ids := Suc (w_ids (c_db stk))\<rparr>)) \<and>
              (\<forall>nextName others nextAgent.
                 rest = nextName # others \<and>
                 find (\<lambda>a. a_name a = nextName) (p_agents p) = Some nextAgent \<longrightarrow>
                 (\<exists>extra. c_requests (sendMessage e p message images st) =
                    c_requests stk @
                    [\<lparr> q_agent = agent, q_messages = buildOpenAiMessages agent (p_globalPrompt p) wh \<rparr>,
                     \<lparr> q_agent = nextAgent,
                       q_messages = buildOpenAiMessages nextAgent (p_globalPrompt p)
                         (wh @ [AgentItem (e_uuid e (w_ids (c_db stk))) agentName
                        ([0x005B, 0x8C03, 0x7528, 0x5931, 0x8D25, 0x005D, 0x0020] @ err_message err) None None]) \<rparr>] @ extra))"
      apply (rule exI[where x = ?st], rule exI[where x = ?T])
      apply (rule conjI[OF s conjI[OF t conjI[OF l conjI[OF f conjI[OF r conjI[OF d n]]]]]])
      done
  }
  {
    assume ab: "err_name err = js ''AbortError''"
    let ?part = "if a_stream agent = Some False then [] else concat (o_deltas ?out)"
    let ?st = "stk\<lparr> c_db := (c_db stk)\<lparr>w_ids := Suc (w_ids (c_db stk))\<rparr>,
                    c_requests := c_requests stk @ [?req],
                    c_transcript := ?D @ [AgentItem ?mid agentName (partial_text agent ?out) None (Some True)] \<rparr>"
    have run: "agent_loop e p sid (p_agents p) (agentName # rest) wh stk = (Aborted, wh, ?st)"
      by (rule agent_loop_aborted[OF assms(5,6) ab])
    have s: "sendMessage e p message images st =
                stk\<lparr> c_db := (c_db stk)\<lparr>w_ids := Suc (w_ids (c_db stk))\<rparr>,
                     c_requests := c_requests stk @ [?req],
                     c_transcript := ?D @ [AgentItem ?mid agentName ?part None (Some True)],
                     c_isLoading := False, c_controller := False \<rparr>"
      unfolding S run snd_conv by (simp add: partial_text_def)
    have l: "length ?D = length (c_transcript stk)" by (simp add: during_call_length)
    have f: "?mid \<notin> t_id ` set (c_transcript stk) \<longrightarrow> ?D = c_transcript stk"
      by (simp add: during_call_fresh)
    have r: "c_requests (sendMessage e p message images st) = c_requests stk @ [?req]"
      by (simp add: s)
    have d: "w_sessions (c_db (sendMessage e p message images st)) = w_sessions (c_db stk)"
      by (simp add: s)
    show "\<exists>T'.
              sendMessage e p message images st =
                stk\<lparr> c_db := (c_db stk)\<lparr>w_ids := Suc (w_ids (c_db stk))\<rparr>,
                     c_requests := c_requests stk @
                       [\<lparr> q_agent = agent, q_messages = buildOpenAiMessages agent (p_globalPrompt p) wh \<rparr>],
                     c_transcript :=
                       T' @ [AgentItem (e_uuid e (w_ids (c_db stk))) agentName
                        (if a_stream agent = Some False then []
                         else concat (o_deltas (e_llm e (length (c_requests stk)))))
                        None (Some True)],
                     c_isLoading := False, c_controller := False \<rparr> \<and>
              length T' = length (c_transcript stk) \<and>
              (e_uuid e (w_ids (c_db stk)) \<notin> t_id ` set (c_transcript stk) \<longrightarrow> T' = c_transcript stk) \<and>
              c_requests (sendMessage e p message images st) = c_requests stk @
                [\<lparr> q_agent = agent, q_messages = buildOpenAiMessages agent (p_globalPrompt p) wh \<rparr>] \<and>
              w_sessions (c_db (sendMessage e p message images st)) = w_sessions (c_db stk)"
      apply (rule exI[where x = ?D])
      apply (rule conjI[OF s conjI[OF l conjI[OF f conjI[OF r d]]]])
      done
  }
qed


text \<open>
  One submission mentioning two agents, the first call failing and the second cancelled:
  the first placeholder carries the marker and is persisted, the second keeps its streamed
  text and is not.
\<close>

lemma ex_send_transcript:
  "chat_view (js ''s1'') (sendMessage ex_failing_env ex_team_props (js ''@Ann @Bob-1 go'') [] ex_chat) =
     ([UserItem (js ''u'') (js ''@Ann @Bob-1 go'') (Some []),
       AgentItem (js ''u-'') (js ''Ann'') ([0x005B, 0x8C03, 0x7528, 0x5931, 0x8D25, 0x005D, 0x0020] @ js ''boom'') None (Some False),
       AgentItem (js ''u--'') (js ''Bob-1'') (js ''hello'') None (Some True)],
      Some [(js ''m1'', js ''hi''), (js ''m2'', js ''hello''), (js ''m1'', js ''again''),
            (js ''u'', js ''@Ann @Bob-1 go''), (js ''u-'', [0x005B, 0x8C03, 0x7528, 0x5931, 0x8D25, 0x005D, 0x0020] @ js ''boom'')],
      2, False, False)"
  by (simp add: chat_view_def sendMessage_def ex_team_props_def ex_team_def ex_agent_def ex_chat_def
        ex_world_def ex_session_def ex_failing_env_def parseMentionedAgents_def is_name_char_def
        newId_def db_newId_def user_content_def dbAppendMessage_def dbUpsertMessage_def
        dbGetSession_def date_now_def put_session_def llm_call_def toAbortErrorName_def
        call_failed_def js_def Let_def)

lemma dbUpsertMessage_ids: "w_ids (snd (dbUpsertMessage e sid item w)) = w_ids w"
  by (simp add: dbUpsertMessage_def date_now_def put_session_def Let_def
        split: option.splits prod.splits)

lemma dbAppendMessage_ids:
  "t_id item \<noteq> [] \<Longrightarrow> w_ids (snd (dbAppendMessage e sid item w)) = w_ids w"
  by (simp add: dbAppendMessage_def date_now_def put_session_def Let_def split: option.splits)

theorem agent_call_failure_continues_cancellation_stops_witness:
  "p_activeSessionId ex_team_props = Some (js ''s1'') \<and>
   parseMentionedAgents (js ''@Ann @Bob-1 go'') (p_agents ex_team_props) = [js ''Ann'', js ''Bob-1''] \<and>
   find (\<lambda>a. a_name a = js ''Ann'') (p_agents ex_team_props) = Some (ex_team ! 0) \<and>
   find (\<lambda>a. a_name a = js ''Bob-1'') (p_agents ex_team_props) = Some (ex_team ! 1) \<and>
   o_result (e_llm ex_failing_env 0) = Threw \<lparr> err_name = js ''Error'', err_message = js ''boom'' \<rparr> \<and>
   o_result (e_llm ex_failing_env 1) =
     Threw \<lparr> err_name = js ''AbortError'', err_message = js ''aborted'' \<rparr> \<and>
   (\<exists>extra. c_requests (sendMessage ex_failing_env ex_team_props (js ''@Ann @Bob-1 go'') [] ex_chat) =
      [\<lparr> q_agent = ex_team ! 0,
         q_messages = buildOpenAiMessages (ex_team ! 0) None
           [UserItem (js ''u'') (js ''@Ann @Bob-1 go'') (Some [])] \<rparr>,
       \<lparr> q_agent = ex_team ! 1,
         q_messages = buildOpenAiMessages (ex_team ! 1) None
           [UserItem (js ''u'') (js ''@Ann @Bob-1 go'') (Some []),
            AgentItem (js ''u-'') (js ''Ann'') ([0x005B, 0x8C03, 0x7528, 0x5931, 0x8D25, 0x005D, 0x0020] @ js ''boom'') None None] \<rparr>] @ extra) \<and>
   length (c_requests (sendMessage ex_failing_env ex_team_props (js ''@Ann @Bob-1 go'') [] ex_chat)) = 2 \<and>
   last (c_transcript (sendMessage ex_failing_env ex_team_props (js ''@Ann @Bob-1 go'') [] ex_chat)) =
     AgentItem (js ''u--'') (js ''Bob-1'') (js ''hello'') None (Some True) \<and>
   chat_view (js ''s1'') (sendMessage ex_failing_env ex_team_props (js ''@Ann @Bob-1 go'') [] ex_chat) =
     ([UserItem (js ''u'') (js ''@Ann @Bob-1 go'') (Some []),
       AgentItem (js ''u-'') (js ''Ann'') ([0x005B, 0x8C03, 0x7528, 0x5931, 0x8D25, 0x005D, 0x0020] @ js ''boom'') None (Some False),
       AgentItem (js ''u--'') (js ''Bob-1'') (js ''hello'') None (Some True)],
      Some [(js ''m1'', js ''hi''), (js ''m2'', js ''hello''), (js ''m1'', js ''again''),
            (js ''u'', js ''@Ann @Bob-1 go''), (js ''u-'', [0x005B, 0x8C03, 0x7528, 0x5931, 0x8D25, 0x005D, 0x0020] @ js ''boom'')],
      2, False, False)"
proof -
  let ?M = "js ''@Ann @Bob-1 go''"
  let ?item = "submitted_item ex_failing_env ?M [] ex_chat"
  let ?wh0 = "filter (\<lambda>i. \<not> is_system i) (p_transcriptRef ex_team_props @ [?item])"
  let ?st0 = "submitted ex_failing_env (js ''s1'') ?M [] ex_chat"
  let ?err1 = "\<lparr> err_name = js ''Error'', err_message = js ''boom'' \<rparr>"
  let ?err2 = "\<lparr> err_name = js ''AbortError'', err_message = js ''aborted'' \<rparr>"
  let ?mid0 = "e_uuid ex_failing_env (w_ids (c_db ?st0))"
  let ?req0 = "\<lparr> q_agent = ex_team ! 0,
                 q_messages = buildOpenAiMessages (ex_team ! 0) (p_globalPrompt ex_team_props) ?wh0 \<rparr>"
  let ?ent = "AgentItem ?mid0 (js ''Ann'') (call_failed @ err_message ?err1) None None"
  let ?wh1 = "?wh0 @ [?ent]"
  let ?st1 = "?st0\<lparr> c_requests := c_requests ?st0 @ [?req0],
                    c_transcript :=
                      map (finalize ?mid0 (call_failed @ err_message ?err1))
                        (during_call (ex_team ! 0) (e_llm ex_failing_env (length (c_requests ?st0))) ?mid0
                           (c_transcript ?st0)) @
                      [AgentItem ?mid0 (js ''Ann'') (call_failed @ err_message ?err1) None (Some False)],
                    c_db := snd (dbUpsertMessage ex_failing_env (js ''s1'') ?ent
                              ((c_db ?st0)\<lparr>w_ids := Suc (w_ids (c_db ?st0))\<rparr>)) \<rparr>"
  have h1: "p_activeSessionId ex_team_props = Some (js ''s1'')" by (simp add: ex_team_props_def)
  have h2: "js ''s1'' \<noteq> []" by (simp add: js_def)
  have par: "parseMentionedAgents ?M (p_agents ex_team_props) = [js ''Ann'', js ''Bob-1'']"
    by (simp add: parseMentionedAgents_def ex_team_props_def ex_team_def ex_agent_def
          is_name_char_def js_def)
  have men1: "parseMentionedAgents ?M (p_agents ex_team_props) = [] @ js ''Ann'' # [js ''Bob-1'']"
    using par by simp
  have men2: "parseMentionedAgents ?M (p_agents ex_team_props) = [js ''Ann''] @ js ''Bob-1'' # []"
    using par by simp
  have f1: "find (\<lambda>a. a_name a = js ''Ann'') (p_agents ex_team_props) = Some (ex_team ! 0)"
    by (simp add: ex_team_props_def ex_team_def ex_agent_def js_def)
  have f2: "find (\<lambda>a. a_name a = js ''Bob-1'') (p_agents ex_team_props) = Some (ex_team ! 1)"
    by (simp add: ex_team_props_def ex_team_def ex_agent_def js_def)
  have o0: "o_result (e_llm ex_failing_env 0) = Threw ?err1" by (simp add: ex_failing_env_def)
  have o1: "o_result (e_llm ex_failing_env 1) = Threw ?err2" by (simp add: ex_failing_env_def)
  have nab: "err_name ?err1 \<noteq> js ''AbortError''" by (simp add: js_def)
  have ab: "err_name ?err2 = js ''AbortError''" by simp
  have r0: "c_requests ?st0 = []" by (simp add: submitted_def ex_chat_def)
  have r0l: "length (c_requests ?st0) = 0" by (simp only: r0 list.size)
  have t1: "o_result (e_llm ex_failing_env (length (c_requests ?st0))) = Threw ?err1"
    by (simp only: r0l o0)
  have pre1: "agent_loop ex_failing_env ex_team_props (js ''s1'') (p_agents ex_team_props) [] ?wh0 ?st0 = (Finished, ?wh0, ?st0)"
    by (rule agent_loop.simps(1))
  have pre2: "agent_loop ex_failing_env ex_team_props (js ''s1'') (p_agents ex_team_props) [js ''Ann''] ?wh0 ?st0 =
                (Finished, ?wh1, ?st1)"
    unfolding agent_loop_failed[OF f1 t1 nab, of ex_team_props "js ''s1''" "[]" ?wh0]
    by (rule agent_loop.simps(1))
  have r1: "c_requests ?st1 = [?req0]" by (simp add: r0)
  have r1l: "length (c_requests ?st1) = 1" by (simp only: r1) simp
  have t2: "o_result (e_llm ex_failing_env (length (c_requests ?st1))) = Threw ?err2"
    by (simp only: r1l o1)
  have idne: "t_id ?item \<noteq> []"
    by (simp add: submitted_item_def ex_failing_env_def js_def)
  have "w_ids (c_db ?st0) = Suc (w_ids (c_db ex_chat))"
    by (simp add: submitted_def dbAppendMessage_ids[OF idne])
  then have w0: "w_ids (c_db ?st0) = 1"
    by (simp add: ex_chat_def ex_world_def)
  have w1: "w_ids (c_db ?st1) = 2"
    by (simp add: dbUpsertMessage_ids w0)
  have mid0: "?mid0 = js ''u-''"
    by (simp only: w0) (simp add: ex_failing_env_def js_def)
  have mid1: "e_uuid ex_failing_env (w_ids (c_db ?st1)) = js ''u--''"
    by (simp only: w1) (simp add: ex_failing_env_def js_def eval_nat_numeral)
  have wh0: "?wh0 = [UserItem (js ''u'') ?M (Some [])]"
    by (simp add: ex_team_props_def submitted_item_def ex_failing_env_def ex_chat_def ex_world_def
          user_content_def js_def)
  have gp: "p_globalPrompt ex_team_props = None" by (simp add: ex_team_props_def)
  have part: "(if a_stream (ex_team ! 1) = Some False then []
               else concat (o_deltas (e_llm ex_failing_env (length (c_requests ?st1))))) = js ''hello''"
    by (simp only: r1l) (simp add: ex_team_def ex_failing_env_def js_def)
  have msg: "err_message ?err1 = js ''boom''" by simp
  note A = agent_call_failure_continues_cancellation_stops[OF h1 h2 men1 pre1 f1 t1,
             THEN conjunct1, THEN mp, OF nab]
  note B = agent_call_failure_continues_cancellation_stops[OF h1 h2 men2 pre2 f2 t2,
             THEN conjunct2, THEN mp, OF ab]
  have nx: "[js ''Bob-1''] = js ''Bob-1'' # [] \<and>
            find (\<lambda>a. a_name a = js ''Bob-1'') (p_agents ex_team_props) = Some (ex_team ! 1)"
    using f2 by simp
  have a: "\<exists>extra. c_requests (sendMessage ex_failing_env ex_team_props (js ''@Ann @Bob-1 go'') [] ex_chat) =
      [\<lparr> q_agent = ex_team ! 0,
         q_messages = buildOpenAiMessages (ex_team ! 0) None
           [UserItem (js ''u'') ?M (Some [])] \<rparr>,
       \<lparr> q_agent = ex_team ! 1,
         q_messages = buildOpenAiMessages (ex_team ! 1) None
           [UserItem (js ''u'') ?M (Some []),
            AgentItem (js ''u-'') (js ''Ann'') ([0x005B, 0x8C03, 0x7528, 0x5931, 0x8D25, 0x005D, 0x0020] @ js ''boom'') None None] \<rparr>] @ extra"
    using A
    apply (elim exE conjE)
    apply (drule spec[where x = "js ''Bob-1''"], drule spec[where x = "[]"],
           drule spec[where x = "ex_team ! 1"], drule mp, rule nx)
    apply (simp only: r0 mid0 wh0 gp msg append_Nil append_Cons)
    done
  from B obtain Tb where BB:
    "sendMessage ex_failing_env ex_team_props (js ''@Ann @Bob-1 go'') [] ex_chat =
       ?st1\<lparr> c_db := (c_db ?st1)\<lparr>w_ids := Suc (w_ids (c_db ?st1))\<rparr>,
             c_requests := c_requests ?st1 @
               [\<lparr> q_agent = ex_team ! 1,
                  q_messages = buildOpenAiMessages (ex_team ! 1) (p_globalPrompt ex_team_props) ?wh1 \<rparr>],
             c_transcript :=
               Tb @ [AgentItem (e_uuid ex_failing_env (w_ids (c_db ?st1))) (js ''Bob-1'')
                       (if a_stream (ex_team ! 1) = Some False then []
                        else concat (o_deltas (e_llm ex_failing_env (length (c_requests ?st1)))))
                       None (Some True)],
             c_isLoading := False, c_controller := False \<rparr>"
    by (elim exE conjE) (rule that)
  have b1: "length (c_requests (sendMessage ex_failing_env ex_team_props (js ''@Ann @Bob-1 go'') [] ex_chat)) = 2"
    unfolding BB by (simp add: r0)
  have b2: "last (c_transcript (sendMessage ex_failing_env ex_team_props (js ''@Ann @Bob-1 go'') [] ex_chat)) =
     AgentItem (js ''u--'') (js ''Bob-1'') (js ''hello'') None (Some True)"
    unfolding BB mid1 part by simp
  show ?thesis
    by (rule conjI[OF h1 conjI[OF par conjI[OF f1 conjI[OF f2 conjI[OF o0 conjI[OF o1
          conjI[OF a conjI[OF b1 conjI[OF b2 ex_send_transcript]]]]]]]]])
qed

section \<open>Reading back a JSON text\<close>

lemma parse_value_newline [simp]: "parse_value n (TNewline k # ts) = parse_value n ts"
  by (cases n) simp_all

lemma parse_value_space [simp]: "parse_value n (TSpace # ts) = parse_value n ts"
  by (cases n) simp_all

lemma parse_elements_newline [simp]: "parse_elements n (TNewline k # ts) = parse_elements n ts"
  by (cases n) simp_all

lemma parse_members_newline [simp]: "parse_members n (TNewline k # ts) = parse_members n ts"
  by (cases n) simp_all

lemma stringify_not_closing:
  "(case skip_ws (stringify i v @ rest) of
      TRBracket # r \<Rightarrow> A r
    | TRBrace # r \<Rightarrow> B r
    | _ \<Rightarrow> C) = C"
  by (cases v) simp_all

lemma stringify_length_pos: "0 < length (stringify i v)"
  by (cases v) simp_all

lemma obj_put_new: "k \<notin> fst ` set kvs \<Longrightarrow> obj_put k v kvs = kvs @ [(k, v)]"
  by (induction kvs) auto

lemma fold_obj_put_distinct:
  "distinct (map fst (acc @ kvs)) \<Longrightarrow>
   fold (\<lambda>kv. obj_put (fst kv) (snd kv)) kvs acc = acc @ kvs"
proof (induction kvs arbitrary: acc)
  case Nil
  then show ?case by simp
next
  case (Cons kv kvs)
  from Cons.prems have new: "fst kv \<notin> fst ` set acc" by auto
  from Cons.prems have "distinct (map fst ((acc @ [kv]) @ kvs))" by simp
  from Cons.IH[OF this] show ?case by (simp add: obj_put_new[OF new])
qed

lemma obj_of_members_distinct: "distinct (map fst kvs) \<Longrightarrow> obj_of_members kvs = kvs"
  using fold_obj_put_distinct[of "[]" kvs] by (simp add: obj_of_members_def)

text \<open>
  The elements of a non-empty array, as \<open>stringify\<close> lays them out after the opening
  bracket, read back by \<open>parse_elements\<close>, given that each element reads back.
\<close>

lemma parse_elements_stringify:
  assumes "\<And>v n rest. v \<in> set vs \<Longrightarrow> length (stringify j v) \<le> n \<Longrightarrow>
             parse_value n (stringify j v @ rest) = Some (v, rest)"
    and "vs \<noteq> []"
    and "length (join [TComma, TNewline j] (map (stringify j) vs)) + 2 \<le> n"
  shows "parse_elements n
           (join [TComma, TNewline j] (map (stringify j) vs) @ TNewline i # TRBracket # rest) =
         Some (vs, rest)"
  using assms
proof (induction vs arbitrary: n)
  case Nil
  then show ?case by simp
next
  case (Cons x xs)
  from Cons.prems(3) obtain m where n: "n = Suc m" by (cases n) auto
  show ?case
  proof (cases xs)
    case Nil
    from Cons.prems(3) n Nil have "length (stringify j x) \<le> m" by simp
    from Cons.prems(1)[OF _ this] have
      "parse_value m (stringify j x @ TNewline i # TRBracket # rest) =
         Some (x, TNewline i # TRBracket # rest)" by simp
    then show ?thesis by (simp add: n Nil)
  next
    case (Cons y ys)
    let ?J = "join [TComma, TNewline j] (map (stringify j) (y # ys))"
    from Cons.prems(3) n Cons
    have lx: "length (stringify j x) \<le> m" and lr: "length ?J + 2 \<le> m" by simp_all
    from Cons.prems(1)[OF _ lx] have
      px: "parse_value m (stringify j x @ TComma # TNewline j # ?J @ TNewline i # TRBracket # rest) =
         Some (x, TComma # TNewline j # ?J @ TNewline i # TRBracket # rest)" by simp
    have "parse_elements m (?J @ TNewline i # TRBracket # rest) = Some (xs, rest)"
      unfolding Cons[symmetric]
      by (rule Cons.IH) (use Cons.prems(1) Cons lr in auto)
    with px show ?thesis by (simp add: n Cons)
  qed
qed

lemma parse_members_stringify:
  assumes "\<And>kv n rest. kv \<in> set kvs \<Longrightarrow> length (stringify j (snd kv)) \<le> n \<Longrightarrow>
             parse_value n (stringify j (snd kv) @ rest) = Some (snd kv, rest)"
    and "kvs \<noteq> []"
    and "length (join [TComma, TNewline j]
                  (map (\<lambda>kv. [TString (fst kv), TColon, TSpace] @ stringify j (snd kv)) kvs)) + 2 \<le> n"
  shows "parse_members n
           (join [TComma, TNewline j]
              (map (\<lambda>kv. [TString (fst kv), TColon, TSpace] @ stringify j (snd kv)) kvs) @
            TNewline i # TRBrace # rest) =
         Some (kvs, rest)"
  using assms
proof (induction kvs arbitrary: n)
  case Nil
  then show ?case by simp
next
  case (Cons x xs)
  from Cons.prems(3) obtain m where n: "n = Suc m" by (cases n) auto
  show ?case
  proof (cases xs)
    case Nil
    from Cons.prems(3) n Nil have "length (stringify j (snd x)) \<le> m" by simp
    from Cons.prems(1)[OF _ this] have
      "parse_value m (stringify j (snd x) @ TNewline i # TRBrace # rest) =
         Some (snd x, TNewline i # TRBrace # rest)" by simp
    then show ?thesis by (simp add: n Nil)
  next
    case (Cons y ys)
    let ?f = "\<lambda>kv. [TString (fst kv), TColon, TSpace] @ stringify j (snd kv)"
    let ?J = "join [TComma, TNewline j] (map ?f (y # ys))"
    from Cons.prems(3) n Cons
    have lx: "length (stringify j (snd x)) \<le> m" and lr: "length ?J + 2 \<le> m" by simp_all
    from Cons.prems(1)[OF _ lx] have
      px: "parse_value m (stringify j (snd x) @ TComma # TNewline j # ?J @ TNewline i # TRBrace # rest) =
         Some (snd x, TComma # TNewline j # ?J @ TNewline i # TRBrace # rest)" by simp
    have "parse_members m (?J @ TNewline i # TRBrace # rest) = Some (xs, rest)"
      unfolding Cons[symmetric]
      by (rule Cons.IH) (use Cons.prems(1) Cons lr in auto)
    with px show ?thesis by (simp add: n Cons)
  qed
qed

lemma join_not_closing:
  assumes "vs \<noteq> []"
  shows "(case skip_ws (join sep (map (stringify j) vs) @ rest) of
            TRBracket # r \<Rightarrow> A r
          | _ \<Rightarrow> C) = C"
proof -
  from assms obtain x xs where vs: "vs = x # xs" by (cases vs) auto
  show ?thesis by (cases xs; cases x) (simp_all add: vs)
qed

lemma parse_value_stringify:
  "json_wf v \<Longrightarrow> length (stringify i v) \<le> n \<Longrightarrow>
   parse_value n (stringify i v @ rest) = Some (v, rest)"
proof (induction v arbitrary: i n rest)
  case JNull
  then show ?case by (cases n) simp_all
next
  case (JBool b)
  then show ?case by (cases n) simp_all
next
  case (JNum x)
  then show ?case by (cases n) simp_all
next
  case (JStr s)
  then show ?case by (cases n) simp_all
next
  case (JArr vs)
  show ?case
  proof (cases "vs = []")
    case True
    with JArr.prems show ?thesis by (cases n) simp_all
  next
    case False
    let ?J = "join [TComma, TNewline (i + 2)] (map (stringify (i + 2)) vs)"
    from JArr.prems(2) False obtain m where n: "n = Suc m" and m: "length ?J + 2 \<le> m"
      by (cases n) auto
    have each: "\<And>v n rest. v \<in> set vs \<Longrightarrow> length (stringify (i + 2) v) \<le> n \<Longrightarrow>
             parse_value n (stringify (i + 2) v @ rest) = Some (v, rest)"
      using JArr.IH JArr.prems(1) by (auto simp: list_all_iff)
    have "parse_elements m (?J @ TNewline i # TRBracket # rest) = Some (vs, rest)"
      by (rule parse_elements_stringify[OF each False m])
    then show ?thesis
      using False by (simp add: n join_not_closing)
  qed
next
  case (JObj kvs)
  show ?case
  proof (cases "kvs = []")
    case True
    with JObj.prems show ?thesis by (cases n) simp_all
  next
    case False
    let ?f = "\<lambda>kv. [TString (fst kv), TColon, TSpace] @ stringify (i + 2) (snd kv)"
    let ?J = "join [TComma, TNewline (i + 2)] (map ?f kvs)"
    from JObj.prems(2) False obtain m where n: "n = Suc m" and m: "length ?J + 2 \<le> m"
      by (cases n) auto
    have each: "\<And>kv n rest. kv \<in> set kvs \<Longrightarrow> length (stringify (i + 2) (snd kv)) \<le> n \<Longrightarrow>
             parse_value n (stringify (i + 2) (snd kv) @ rest) = Some (snd kv, rest)"
    proof -
      fix kv n rest
      assume kv: "kv \<in> set kvs" and l: "length (stringify (i + 2) (snd kv)) \<le> n"
      from kv JObj.prems(1) have wf: "json_wf (snd kv)" by (auto simp: list_all_iff)
      have "snd kv \<in> Basic_BNFs.snds kv" by (cases kv) simp
      from JObj.IH[OF kv this wf l]
      show "parse_value n (stringify (i + 2) (snd kv) @ rest) = Some (snd kv, rest)" .
    qed
    have pm: "parse_members m (?J @ TNewline i # TRBrace # rest) = Some (kvs, rest)"
      by (rule parse_members_stringify[OF each False m])
    from False obtain x xs where kvs: "kvs = x # xs" by (cases kvs) auto
    have start: "\<exists>r. ?J @ TNewline i # TRBrace # rest = TString (fst x) # r"
      by (cases xs) (simp_all add: kvs)
    from JObj.prems(1) have "obj_of_members kvs = kvs"
      by (simp add: obj_of_members_distinct)
    with pm start show ?thesis
      using False by (auto simp: n)
  qed
qed

lemma JSON_parse_stringify: "json_wf v \<Longrightarrow> JSON_parse (JSON_stringify v) = Some v"
  using parse_value_stringify[of v 0 "Suc (length (stringify 0 v))" "[]"]
  by (simp add: JSON_parse_def JSON_stringify_def)

section \<open>Export followed by import\<close>

subsection \<open>Reading back the JSON value of a bundle\<close>

lemma those_map_inverse:
  "(\<And>x. f (g x) = Some x) \<Longrightarrow> those (map (f \<circ> g) xs) = Some xs"
  by (induction xs) simp_all

lemma map_of_obj_props_absent: "k \<notin> fst ` set kvs \<Longrightarrow> map_of (obj_props kvs) k = None"
  by (induction kvs) (auto simp: obj_props_def split: option.splits)

lemma map_of_obj_props:
  "distinct (map fst kvs) \<Longrightarrow>
   map_of (obj_props kvs) k = Option.bind (map_of kvs k) (\<lambda>v. v)"
proof (induction kvs)
  case Nil
  then show ?case by (simp add: obj_props_def)
next
  case (Cons kv kvs)
  from Cons.prems have new: "fst kv \<notin> fst ` set kvs" by auto
  show ?case
  proof (cases "k = fst kv")
    case True
    with map_of_obj_props_absent[OF new] show ?thesis
      by (cases kv; cases "snd kv") (simp_all add: obj_props_def)
  next
    case False
    with Cons show ?thesis
      by (cases kv; cases "snd kv") (simp_all add: obj_props_def)
  qed
qed

lemma get_obj_props:
  "distinct (map fst kvs) \<Longrightarrow>
   get k (obj_props kvs) = Option.bind (map_of kvs k) (\<lambda>v. v)"
  by (simp add: get_def map_of_obj_props)

lemma distinct_obj_props: "distinct (map fst kvs) \<Longrightarrow> distinct (map fst (obj_props kvs))"
proof (induction kvs)
  case Nil
  then show ?case by (simp add: obj_props_def)
next
  case (Cons kv kvs)
  have sub: "fst ` set (obj_props kvs) \<subseteq> fst ` set kvs"
    by (auto simp: obj_props_def split: option.splits) force
  have step: "obj_props (kv # kvs) =
      (case snd kv of None \<Rightarrow> [] | Some x \<Rightarrow> [(fst kv, x)]) @ obj_props kvs"
    by (simp add: obj_props_def)
  from Cons sub show ?case
    by (cases "snd kv") (auto simp: step)
qed

lemma wf_obj_props:
  "list_all (\<lambda>kv. case snd kv of None \<Rightarrow> True | Some v \<Rightarrow> json_wf v) kvs \<Longrightarrow>
   list_all (\<lambda>kv. json_wf (snd kv)) (obj_props kvs)"
  by (induction kvs) (auto simp: obj_props_def split: option.splits)

lemma optional_string [simp]: "optional as_string (map_option JStr x) = Some x"
  by (cases x) simp_all

lemma optional_number [simp]: "optional as_number (map_option JNum x) = Some x"
  by (cases x) simp_all

lemma optional_bool [simp]: "optional as_bool (map_option JBool x) = Some x"
  by (cases x) simp_all

lemma optional_object [simp]: "optional as_object (map_option JObj x) = Some x"
  by (cases x) simp_all

lemma as_strings_of [simp]: "as_strings (Some (json_of_strings xs)) = Some xs"
  by (simp add: json_of_strings_def those_map_inverse)

lemma optional_strings [simp]: "optional as_strings (map_option json_of_strings x) = Some x"
  by (cases x) (simp_all add: json_of_strings_def those_map_inverse)

lemma optional_nullable [simp]:
  "optional as_string (Some (case x of None \<Rightarrow> JNull | Some s \<Rightarrow> JStr s)) = Some x"
  by (cases x) simp_all

lemma message_of_json_of: "message_of_json (json_of_message m) = Some m"
  by (cases m) (simp_all add: get_obj_props js_def)

lemma session_of_json_of: "session_of_json (json_of_session s) = Some s"
  by (simp add: json_of_session_def get_obj_props those_map_inverse message_of_json_of js_def)

lemma agent_of_json_of: "agent_of_json (json_of_agent a) = Some a"
  by (simp add: json_of_agent_def get_obj_props js_def)

lemma bundle_of_json_of: "bundle_of_json (json_of_bundle b) = Some b"
  by (simp add: json_of_bundle_def get_obj_props those_map_inverse agent_of_json_of
        session_of_json_of js_def)

subsection \<open>The JSON value of a valid bundle is well formed\<close>

lemma wf_strings: "json_wf (json_of_strings xs)"
  by (simp add: json_of_strings_def list_all_iff)

lemma wf_message: "json_wf (json_of_message m)"
  by (cases m; rename_tac im t; case_tac im)
     (simp_all add: obj_props_def wf_strings js_def)

lemma wf_session: "json_wf (json_of_session s)"
  by (cases "s_order s")
     (simp_all add: json_of_session_def obj_props_def list_all_iff wf_message js_def)

lemma wf_agent:
  assumes "case a_custom_params a of None \<Rightarrow> True | Some kvs \<Rightarrow> json_wf (JObj kvs)"
  shows "json_wf (json_of_agent a)"
proof -
  have d: "distinct (map fst (obj_props
             [(js ''name'', Some (JStr (a_name a))),
              (js ''system_prompt'', Some (JStr (a_system_prompt a))),
              (js ''avatar_url'', map_option JStr (a_avatar_url a)),
              (js ''model'', map_option JStr (a_model a)),
              (js ''custom_params'', map_option JObj (a_custom_params a)),
              (js ''base_url'', map_option JStr (a_base_url a)),
              (js ''api_key'', map_option JStr (a_api_key a)),
              (js ''stream'', map_option JBool (a_stream a)),
              (js ''order'', map_option JNum (a_order a))]))"
    by (rule distinct_obj_props) (simp add: js_def)
  have w: "list_all (\<lambda>kv. json_wf (snd kv)) (obj_props
             [(js ''name'', Some (JStr (a_name a))),
              (js ''system_prompt'', Some (JStr (a_system_prompt a))),
              (js ''avatar_url'', map_option JStr (a_avatar_url a)),
              (js ''model'', map_option JStr (a_model a)),
              (js ''custom_params'', map_option JObj (a_custom_params a)),
              (js ''base_url'', map_option JStr (a_base_url a)),
              (js ''api_key'', map_option JStr (a_api_key a)),
              (js ''stream'', map_option JBool (a_stream a)),
              (js ''order'', map_option JNum (a_order a))])"
    using assms by (intro wf_obj_props) (simp split: option.splits)
  from d w show ?thesis by (simp add: json_of_agent_def)
qed

lemma wf_bundle:
  assumes "javascript_values b"
  shows "json_wf (json_of_bundle b)"
proof -
  from assms have "list_all (\<lambda>a. json_wf (json_of_agent a)) (b_agents b)"
    by (simp add: javascript_values_def list_all_iff wf_agent)
  then show ?thesis
    by (cases "b_active_session_id b")
       (simp_all add: json_of_bundle_def obj_props_def list_all_iff wf_session js_def)
qed

subsection \<open>The round trip\<close>

lemma parse_bundle_text:
  assumes "javascript_values b"
  shows "parse_bundle (bundle_text b) = Inr b"
  by (simp add: parse_bundle_def bundle_text_def JSON_parse_stringify[OF wf_bundle[OF assms]]
        bundle_of_json_of)

lemma import_parsed_valid:
  assumes "valid_bundle b"
  shows "import_parsed b w = (Inr b, snd (dbImportBundle b w))"
  using assms by (simp add: import_parsed_def dbImportBundle_def valid_bundle_def Let_def)





text \<open>
  The bundle that \<^verbatim>\<open>dbExportBundle\<close> returns is valid when the custom parameters of the
  stored agents are JavaScript objects.
\<close>

lemma dbExportBundle_valid:
  assumes "list_all (\<lambda>a. case a_custom_params a of None \<Rightarrow> True | Some kvs \<Rightarrow> json_wf (JObj kvs))
             (os_getAll (w_agents w))"
  shows "valid_bundle (fst (dbExportBundle e a w))"
  using assms
  by (simp add: dbExportBundle_def valid_bundle_def javascript_values_def date_now_def split_def
        Let_def)

text \<open>
  What the text of a small value looks like, and the round trip of an example bundle with
  custom parameters, three kinds of optional fields and an active session.
\<close>

lemma ex_stringify:
  "JSON_stringify (JObj [(js ''a'', JArr [JNum 1, JNull]), (js ''b'', JObj [])]) =
     [TLBrace, TNewline 2,
        TString (js ''a''), TColon, TSpace, TLBracket, TNewline 4,
          TNumber 1, TComma, TNewline 4,
          TNull, TNewline 2,
        TRBracket, TComma, TNewline 2,
        TString (js ''b''), TColon, TSpace, TLBrace, TRBrace, TNewline 0,
      TRBrace]"
  by (simp add: JSON_stringify_def)

lemma ex_parse_duplicate:
  "JSON_parse [TLBrace, TString (js ''a''), TColon, TNumber 1, TComma,
               TString (js ''b''), TColon, TTrue, TComma,
               TString (js ''a''), TColon, TNull, TRBrace] =
     Some (JObj [(js ''a'', JNull), (js ''b'', JBool True)]) \<and>
   JSON_parse [TLBracket, TNumber 1, TComma, TRBracket] = None"
  by (simp add: JSON_parse_def obj_of_members_def js_def)

text \<open>
  The other paths of import, at examples: an archive without an entry of that name but with
  exactly one entry whose name ends in \<^verbatim>\<open>.json\<close> is read from that entry; an archive with
  two such entries, bytes that are no archive, a file that holds no JSON text, and a bundle
  of another version are refused, and the store is left as it was.
\<close>

lemma ex_import_paths:
  "importFromFile \<lparr> f_name = js ''old.bin'',
                    f_data = ZipData [(js ''notes.txt'', OtherData),
                                      (js ''Data.JSON'', TextData (bundle_text ex_backup))] \<rparr> ex_world =
     (Inr ex_backup, snd (dbImportBundle ex_backup ex_world)) \<and>
   importFromFile \<lparr> f_name = js ''two.zip'',
                    f_data = ZipData [(js ''a.json'', TextData (bundle_text ex_backup)),
                                      (js ''b.json'', TextData (bundle_text ex_backup))] \<rparr> ex_world =
     (Inl ExportJsonNotFound, ex_world) \<and>
   importFromFile \<lparr> f_name = js ''plain.zip'', f_data = TextData (bundle_text ex_backup) \<rparr> ex_world =
     (Inl InvalidZip, ex_world) \<and>
   importFromFile \<lparr> f_name = js ''archive.json'', f_data = zip_of_bundle ex_backup \<rparr> ex_world =
     (Inl JsonSyntaxError, ex_world) \<and>
   importFromFile \<lparr> f_name = js ''v2.json'',
                    f_data = json_of_bundle_blob (ex_backup\<lparr>b_version := 2\<rparr>) \<rparr> ex_world =
     (Inl (Rejected UnsupportedImportFile), ex_world)"
proof -
  have v: "valid_bundle ex_backup"
    by (simp add: valid_bundle_def javascript_values_def ex_backup_def ex_agent_def js_def)
  then have j: "javascript_values ex_backup" by (simp add: valid_bundle_def)
  then have j2: "javascript_values (ex_backup\<lparr>b_version := 2\<rparr>)" by (simp add: javascript_values_def)
  have names: "\<not> endsWith (js ''.json'') (toLowerCase (js ''old.bin''))"
    "\<not> endsWith (js ''.json'') (toLowerCase (js ''two.zip''))"
    "\<not> endsWith (js ''.json'') (toLowerCase (js ''plain.zip''))"
    "endsWith (js ''.json'') (toLowerCase (js ''archive.json''))"
    "endsWith (js ''.json'') (toLowerCase (js ''v2.json''))"
    by (simp_all add: endsWith_def toLowerCase_def js_def)
  have p1: "pickExportJson [(js ''notes.txt'', OtherData),
                            (js ''Data.JSON'', TextData (bundle_text ex_backup))] =
              Some (TextData (bundle_text ex_backup))"
    by (simp add: pickExportJson_def endsWith_def toLowerCase_def js_def)
  have p2: "pickExportJson [(js ''a.json'', TextData (bundle_text ex_backup)),
                            (js ''b.json'', TextData (bundle_text ex_backup))] = None"
    by (simp add: pickExportJson_def endsWith_def toLowerCase_def js_def)
  have u1: "unzipSync (ZipData [(js ''notes.txt'', OtherData),
                                (js ''Data.JSON'', TextData (bundle_text ex_backup))]) =
              Some [(js ''notes.txt'', OtherData),
                    (js ''Data.JSON'', TextData (bundle_text ex_backup))]"
    by (simp add: js_def)
  have u2: "unzipSync (ZipData [(js ''a.json'', TextData (bundle_text ex_backup)),
                                (js ''b.json'', TextData (bundle_text ex_backup))]) =
              Some [(js ''a.json'', TextData (bundle_text ex_backup)),
                    (js ''b.json'', TextData (bundle_text ex_backup))]"
    by (simp add: js_def)
  have rej: "import_parsed (ex_backup\<lparr>b_version := 2\<rparr>) ex_world =
               (Inl (Rejected UnsupportedImportFile), ex_world)"
    by (simp add: import_parsed_def dbImportBundle_def)
  have a: "importFromFile \<lparr> f_name = js ''old.bin'',
                    f_data = ZipData [(js ''notes.txt'', OtherData),
                                      (js ''Data.JSON'', TextData (bundle_text ex_backup))] \<rparr> ex_world =
     (Inr ex_backup, snd (dbImportBundle ex_backup ex_world))"
    by (simp only: importFromFile_def importFromZip_def js_file.simps names if_False u1 p1
          option.case strFromU8.simps parse_bundle_text[OF j] sum.case import_parsed_valid[OF v])
  have b: "importFromFile \<lparr> f_name = js ''two.zip'',
                    f_data = ZipData [(js ''a.json'', TextData (bundle_text ex_backup)),
                                      (js ''b.json'', TextData (bundle_text ex_backup))] \<rparr> ex_world =
     (Inl ExportJsonNotFound, ex_world)"
    by (simp only: importFromFile_def importFromZip_def js_file.simps names if_False u2 p2
          option.case)
  have c: "importFromFile \<lparr> f_name = js ''plain.zip'', f_data = TextData (bundle_text ex_backup) \<rparr> ex_world =
     (Inl InvalidZip, ex_world)"
    by (simp add: importFromFile_def importFromZip_def names)
  have d: "importFromFile \<lparr> f_name = js ''archive.json'', f_data = zip_of_bundle ex_backup \<rparr> ex_world =
     (Inl JsonSyntaxError, ex_world)"
    by (simp add: importFromFile_def importFromJson_def names file_text_def zip_of_bundle_def
          zipSync_def parse_bundle_def JSON_parse_def)
  have e: "importFromFile \<lparr> f_name = js ''v2.json'',
                    f_data = json_of_bundle_blob (ex_backup\<lparr>b_version := 2\<rparr>) \<rparr> ex_world =
     (Inl (Rejected UnsupportedImportFile), ex_world)"
    by (simp add: importFromFile_def importFromJson_def names file_text_def json_of_bundle_blob_def
          blob_of_text_def parse_bundle_text[OF j2] rej)
  show ?thesis
    by (rule conjI[OF a conjI[OF b conjI[OF c conjI[OF d e]]]])
qed


end
